(* ===== verification/Prelude.thy ===== *)
theory Prelude
  imports Complex_Main "HOL-Library.Word" "HOL-Library.Multiset" "HOL-Library.Sublist"
begin

text \<open>
  Generic material shared by every component: the lemma collections, fixed-width integer
  conversions, results that may panic, decimal printing and scanning as \<^verbatim>\<open>strconv\<close> and
  \<^verbatim>\<open>fmt\<close> do them, and wall-clock readings.

  Conventions used throughout. A Go \<^verbatim>\<open>string\<close> is an Isabelle \<^typ>\<open>string\<close> of bytes, so
  the UTF-8 literals of the source appear as their bytes (theory \<open>Texts\<close>). A Go integer of a
  fixed width is an \<^typ>\<open>int\<close>; every place where the source converts or computes at a width writes
  the wrap-around out with \<open>i32\<close> or \<open>i64\<close>. What the Go runtime or the operating system decides
  (the clock, the iteration order of a map) is an argument of the operation that uses it.
\<close>

named_theorems wf_intros \<comment> \<open>well-formedness of a component is kept by its operations\<close>
named_theorems handler_defs \<comment> \<open>definitions of message handlers\<close>

section \<open>Integers of a fixed width\<close>

definition wrap :: "nat \<Rightarrow> int \<Rightarrow> int" where
  "wrap w x = (x + 2 ^ (w - 1)) mod 2 ^ w - 2 ^ (w - 1)"

abbreviation i32 :: "int \<Rightarrow> int" where "i32 \<equiv> wrap 32"
abbreviation i64 :: "int \<Rightarrow> int" where "i64 \<equiv> wrap 64"

lemma i32_id: "- (2 ^ 31) \<le> x \<Longrightarrow> x < 2 ^ 31 \<Longrightarrow> i32 x = x"
  by (simp add: wrap_def)

lemma i64_id: "- (2 ^ 63) \<le> x \<Longrightarrow> x < 2 ^ 63 \<Longrightarrow> i64 x = x"
  by (simp add: wrap_def)

lemma i32_range: "- (2 ^ 31) \<le> i32 x \<and> i32 x < 2 ^ 31"
  by (auto simp: wrap_def)

lemma i64_range: "- (2 ^ 63) \<le> i64 x \<and> i64 x < 2 ^ 63"
  by (auto simp: wrap_def)

lemma i32_len: "n < 2 ^ 31 \<Longrightarrow> i32 (int n) = int n"
  by (rule i32_id) auto

text \<open>Go's integer division truncates towards zero.\<close>

definition quot :: "int \<Rightarrow> int \<Rightarrow> int" where
  "quot a b = sgn a * sgn b * (\<bar>a\<bar> div \<bar>b\<bar>)"

lemma quot_nonneg: "0 \<le> a \<Longrightarrow> 0 < b \<Longrightarrow> quot a b = a div b"
  by (cases "a = 0") (auto simp: quot_def)

section \<open>Results that may panic\<close>

text \<open>A run-time panic of the source is a value: the operation did not return.\<close>

datatype panic = TypeAssertion | ClosedChannel | NilDereference | IndexOutOfRange
  | CalledPanic \<comment> \<open>\<^verbatim>\<open>panic(...)\<close> in the source\<close>

datatype 'a outcome = Ok 'a | Panic panic

primrec obind :: "'a outcome \<Rightarrow> ('a \<Rightarrow> 'b outcome) \<Rightarrow> 'b outcome" where
  "obind (Ok x) f = f x"
| "obind (Panic p) f = Panic p"

lemma obind_Ok_iff: "obind x f = Ok y \<longleftrightarrow> (\<exists>z. x = Ok z \<and> f z = Ok y)"
  by (cases x) auto

lemma obind_cong: "x = y \<Longrightarrow> (\<And>z. y = Ok z \<Longrightarrow> f z = g z) \<Longrightarrow> obind x f = obind y g"
  by (cases y) auto

section \<open>Decimal numbers\<close>

definition digit :: "nat \<Rightarrow> char" where
  "digit d = char_of (48 + d)"

definition is_digit :: "char \<Rightarrow> bool" where
  "is_digit c \<longleftrightarrow> 48 \<le> (of_char c :: nat) \<and> (of_char c :: nat) \<le> 57"

definition digit_val :: "char \<Rightarrow> nat" where
  "digit_val c = of_char c - 48"

fun digits :: "nat \<Rightarrow> string" where
  "digits n = (if n < 10 then [digit n] else digits (n div 10) @ [digit (n mod 10)])"

declare digits.simps [simp del]

definition read_digits :: "string \<Rightarrow> nat" where
  "read_digits s = foldl (\<lambda>a c. 10 * a + digit_val c) 0 s"

text \<open>\<^verbatim>\<open>strconv.FormatInt(i, 10)\<close> and \<^verbatim>\<open>fmt.Sprintf("%d", i)\<close>.\<close>

definition show_int :: "int \<Rightarrow> string" where
  "show_int i = (if i < 0 then CHR ''-'' # digits (nat (- i)) else digits (nat i))"

lemma of_char_digit: "d < 10 \<Longrightarrow> (of_char (digit d) :: nat) = 48 + d"
  by (simp add: digit_def)

lemma is_digit_digit: "d < 10 \<Longrightarrow> is_digit (digit d)"
  by (simp add: is_digit_def of_char_digit)

lemma digit_val_digit: "d < 10 \<Longrightarrow> digit_val (digit d) = d"
  by (simp add: digit_val_def of_char_digit)

lemma digits_all: "list_all is_digit (digits n)"
proof (induction n rule: digits.induct)
  case (1 n)
  then show ?case
    by (subst digits.simps) (simp add: is_digit_digit)
qed

lemma digits_not_Nil: "digits n \<noteq> []"
  by (subst digits.simps) simp

lemma show_int_nonempty: "show_int i \<noteq> []"
  by (simp add: show_int_def digits_not_Nil)

lemma read_digits_snoc: "read_digits (s @ [c]) = 10 * read_digits s + digit_val c"
  by (simp add: read_digits_def)

lemma read_digits_digits: "read_digits (digits n) = n"
proof (induction n rule: digits.induct)
  case (1 n)
  show ?case
  proof (cases "n < 10")
    case True
    then show ?thesis
      by (subst digits.simps) (simp add: read_digits_def digit_val_digit)
  next
    case False
    have "read_digits (digits n) = 10 * read_digits (digits (n div 10)) + digit_val (digit (n mod 10))"
      using False by (subst digits.simps) (simp add: read_digits_snoc)
    also have "\<dots> = 10 * (n div 10) + n mod 10"
      using False "1" by (simp add: digit_val_digit)
    finally show ?thesis by simp
  qed
qed

lemma digits_inj: "digits m = digits n \<Longrightarrow> m = n"
  by (metis read_digits_digits)

lemma minus_not_digit: "\<not> is_digit (CHR ''-'')"
  by (simp add: is_digit_def)

lemma hd_digits: "is_digit (hd (digits n))"
  using digits_all [of n] digits_not_Nil [of n] by (cases "digits n") auto

lemma digits_not_minus: "digits n \<noteq> CHR ''-'' # s"
  using hd_digits [of n] minus_not_digit by auto

lemma show_int_inj: "show_int i = show_int j \<Longrightarrow> i = j"
  by (auto simp: show_int_def digits_not_minus digits_not_minus [symmetric] dest!: digits_inj
      split: if_splits)

text \<open>
  \<^verbatim>\<open>fmt.Sscanf(s, "%d", &v)\<close> on a one-verb format: leading blanks are skipped (a newline is an
  error), an optional sign, then the longest run of digits; the rest of the input is left. No digits
  or a value outside \<^verbatim>\<open>int64\<close> is an error, and the variable keeps its value (\<open>None\<close>). Blanks are
  the ASCII ones.
\<close>

definition is_blank :: "char \<Rightarrow> bool" where
  "is_blank c \<longleftrightarrow> c \<in> {CHR '' '', CHR 0x09, CHR 0x0B, CHR 0x0C, CHR 0x0D}"

definition scan_sign :: "string \<Rightarrow> bool \<times> string" where
  "scan_sign s =
     (case s of
        c # r \<Rightarrow> if c = CHR ''-'' then (True, r) else if c = CHR ''+'' then (False, r) else (False, s)
      | [] \<Rightarrow> (False, s))"

definition sscanf_d :: "string \<Rightarrow> int option" where
  "sscanf_d s =
     (let (neg, r) = scan_sign (dropWhile is_blank s);
          ds = takeWhile is_digit r;
          v = int (read_digits ds) * (if neg then -1 else 1)
      in if ds = [] then None
         else if - (2 ^ 63) \<le> v \<and> v < 2 ^ 63 then Some v else None)"

lemma digit_not_blank: "is_digit c \<Longrightarrow> \<not> is_blank c"
  by (auto simp: is_digit_def is_blank_def)

lemma digit_not_sign: "is_digit c \<Longrightarrow> c \<noteq> CHR ''-'' \<and> c \<noteq> CHR ''+''"
  by (auto simp: is_digit_def)

lemma takeWhile_digits:
  "rest = [] \<or> \<not> is_digit (hd rest) \<Longrightarrow> takeWhile is_digit (digits n @ rest) = digits n"
proof -
  assume *: "rest = [] \<or> \<not> is_digit (hd rest)"
  have "takeWhile is_digit (digits n @ rest) = digits n @ takeWhile is_digit rest"
    using digits_all [of n] by (intro takeWhile_append2) (auto simp: list_all_iff)
  also have "takeWhile is_digit rest = []"
    using * by (cases rest) auto
  finally show ?thesis by simp
qed

text \<open>Scanning what was printed gives the number back.\<close>

lemma sscanf_d_show_int:
  assumes "- (2 ^ 63) \<le> i" "i < 2 ^ 63" "rest = [] \<or> \<not> is_digit (hd rest)"
  shows "sscanf_d (show_int i @ rest) = Some i"
proof (cases "i < 0")
  case True
  have "dropWhile is_blank (show_int i @ rest) = show_int i @ rest"
    using True by (simp add: show_int_def is_blank_def)
  with True assms show ?thesis
    by (simp add: sscanf_d_def show_int_def scan_sign_def takeWhile_digits read_digits_digits
        digits_not_Nil Let_def)
next
  case False
  obtain c s where cs: "digits (nat i) = c # s" and c: "is_digit c"
    using hd_digits [of "nat i"] digits_not_Nil [of "nat i"] by (cases "digits (nat i)") auto
  have "scan_sign (dropWhile is_blank (show_int i @ rest)) = (False, digits (nat i) @ rest)"
    using False cs digit_not_blank [OF c] digit_not_sign [OF c] by (simp add: show_int_def scan_sign_def)
  with False assms show ?thesis
    by (simp add: sscanf_d_def takeWhile_digits read_digits_digits digits_not_Nil Let_def)
qed

section \<open>Clock readings\<close>

text \<open>
  What \<^verbatim>\<open>time.Now()\<close> returned: the Unix time in milliseconds and the civil time of the local zone
  (the zone database belongs to the operating system). The two describe one instant; nothing below
  needs more of their relation.
\<close>

record go_time =
  unixMilli :: int
  year :: nat
  month :: nat
  day :: nat
  hour :: nat
  minute :: nat
  second :: nat
  milli :: nat

definition pad :: "nat \<Rightarrow> nat \<Rightarrow> string" where
  "pad w n = replicate (w - length (digits n)) (CHR ''0'') @ digits n"

lemma read_digits_zeros: "read_digits (replicate k (CHR ''0'') @ s) = read_digits s"
proof -
  have "foldl (\<lambda>a c. 10 * a + digit_val c) 0 (replicate k (CHR ''0'')) = 0"
    by (induction k) (simp_all add: digit_val_def)
  then show ?thesis by (simp add: read_digits_def)
qed

lemma read_digits_pad: "read_digits (pad w n) = n"
  by (simp add: pad_def read_digits_zeros read_digits_digits)

lemma pad_inj: "pad w m = pad w n \<Longrightarrow> m = n"
  by (metis read_digits_pad)

lemma length_digits_le: "n < 10 ^ w \<Longrightarrow> 0 < w \<Longrightarrow> length (digits n) \<le> w"
proof (induction n arbitrary: w rule: digits.induct)
  case (1 n)
  show ?case
  proof (cases "n < 10")
    case True
    with "1.prems" show ?thesis by (subst digits.simps) simp
  next
    case False
    with "1.prems" obtain v where w: "w = Suc v" "0 < v"
      by (cases w; cases "w - 1") auto
    with "1.prems" have "n div 10 < 10 ^ v"
      by (simp add: less_mult_imp_div_less mult.commute)
    with "1.IH" False w have "length (digits (n div 10)) \<le> v" by blast
    with False w show ?thesis by (subst digits.simps) simp
  qed
qed

lemma length_pad: "n < 10 ^ w \<Longrightarrow> 0 < w \<Longrightarrow> length (pad w n) = w"
  using length_digits_le [of n w] by (simp add: pad_def)

end
