(* ===== verification/GoMap.thy ===== *)
theory GoMap
  imports Prelude "HOL-Library.AList"
begin

text \<open>
  Go maps. A map is an association list with distinct keys; insertion, deletion and \<^verbatim>\<open>len\<close> are the
  list operations below. The interface the components rely on is the locale \<open>keyed_store\<close>: their
  size and membership arguments are proved there once and reach them through its interpretation
  \<open>gm\<close> on the association lists. Go leaves the order of \<^verbatim>\<open>for k, v := range m\<close> open: an operation that
  ranges over a map takes the order as an argument \<open>rng\<close>, which must list exactly the entries
  (\<open>range_ok\<close>).
\<close>

type_synonym ('k, 'v) gomap = "('k \<times> 'v) list"

definition mget :: "('k, 'v) gomap \<Rightarrow> 'k \<Rightarrow> 'v option" where
  "mget m k = map_of m k"

definition mput :: "'k \<Rightarrow> 'v \<Rightarrow> ('k, 'v) gomap \<Rightarrow> ('k, 'v) gomap" where
  "mput k v m = AList.update k v m"

definition mdel :: "'k \<Rightarrow> ('k, 'v) gomap \<Rightarrow> ('k, 'v) gomap" where
  "mdel k m = AList.delete k m"

definition mlen :: "('k, 'v) gomap \<Rightarrow> nat" where
  "mlen m = length m"

definition mhas :: "('k, 'v) gomap \<Rightarrow> 'k \<Rightarrow> bool" where
  "mhas m k \<longleftrightarrow> mget m k \<noteq> None"

definition mwf :: "('k, 'v) gomap \<Rightarrow> bool" where
  "mwf m \<longleftrightarrow> distinct (map fst m)"

type_synonym ('k, 'v) ranger = "('k, 'v) gomap \<Rightarrow> ('k \<times> 'v) list"

definition range_ok :: "('k, 'v) ranger \<Rightarrow> ('k, 'v) gomap \<Rightarrow> bool" where
  "range_ok rng m \<longleftrightarrow> mset (rng m) = mset m"

section \<open>The interface\<close>

locale keyed_store =
  fixes get :: "'m \<Rightarrow> 'k \<Rightarrow> 'v option"
    and put :: "'k \<Rightarrow> 'v \<Rightarrow> 'm \<Rightarrow> 'm"
    and del :: "'k \<Rightarrow> 'm \<Rightarrow> 'm"
    and entries :: "'m \<Rightarrow> ('k \<times> 'v) list"
    and wf :: "'m \<Rightarrow> bool"
  assumes get_put: "get (put k v m) = (get m)(k \<mapsto> v)"
    and get_del: "get (del k m) = (get m)(k := None)"
    and entries_get: "map_of (entries m) = get m"
    and entries_distinct: "wf m \<Longrightarrow> distinct (map fst (entries m))"
    and wf_put: "wf m \<Longrightarrow> wf (put k v m)"
    and wf_del: "wf m \<Longrightarrow> wf (del k m)"
begin

lemma in_entries: "wf m \<Longrightarrow> (k, v) \<in> set (entries m) \<longleftrightarrow> get m k = Some v"
  using map_of_eq_Some_iff [OF entries_distinct] by (metis entries_get)

lemma dom_get: "dom (get m) = fst ` set (entries m)"
  by (metis dom_map_of_conv_image_fst entries_get)

lemma finite_dom: "finite (dom (get m))"
  by (simp add: dom_get)

lemma size_card: "wf m \<Longrightarrow> length (entries m) = card (dom (get m))"
  by (metis dom_get distinct_card entries_distinct length_map list.set_map)

lemma size_put_new: "wf m \<Longrightarrow> get m k = None \<Longrightarrow> length (entries (put k v m)) = Suc (length (entries m))"
  by (simp add: size_card wf_put get_put card_insert_if finite_dom domIff)

lemma size_put_old: "wf m \<Longrightarrow> get m k \<noteq> None \<Longrightarrow> length (entries (put k v m)) = length (entries m)"
  by (simp add: size_card wf_put get_put insert_absorb domIff)

lemma size_del: "wf m \<Longrightarrow> get m k \<noteq> None \<Longrightarrow> Suc (length (entries (del k m))) = length (entries m)"
proof -
  assume *: "wf m" "get m k \<noteq> None"
  then have "k \<in> dom (get m)" by auto
  with * show ?thesis
    by (simp add: size_card wf_del get_del finite_dom del: card_Diff_insert)
      (metis card_Suc_Diff1 finite_dom)
qed

lemma size_del_le: "wf m \<Longrightarrow> length (entries (del k m)) \<le> length (entries m)"
proof -
  assume "wf m"
  moreover have "dom (get (del k m)) \<subseteq> dom (get m)" by (auto simp: get_del split: if_splits)
  ultimately show ?thesis
    by (simp add: size_card wf_del card_mono [OF finite_dom])
qed

end

section \<open>Association lists provide it\<close>

interpretation gm: keyed_store mget mput mdel "\<lambda>m. m" mwf
  by unfold_locales
    (simp_all add: mget_def mput_def mdel_def mwf_def fun_eq_iff update_conv delete_conv
      distinct_update distinct_delete)

lemmas mget_simps [simp] = gm.get_put gm.get_del

lemma mhas_simps [simp]:
  "mhas (mput k v m) j \<longleftrightarrow> j = k \<or> mhas m j"
  "mhas (mdel k m) j \<longleftrightarrow> j \<noteq> k \<and> mhas m j"
  by (auto simp: mhas_def)

lemma mwf_intros [wf_intros, simp]: "mwf m \<Longrightarrow> mwf (mput k v m)" "mwf m \<Longrightarrow> mwf (mdel k m)"
  by (rule gm.wf_put gm.wf_del, assumption)+

lemma mempty [simp]: "mwf []" "mget [] k = None" "\<not> mhas [] k" "mlen [] = 0"
  by (simp_all add: mwf_def mget_def mhas_def mlen_def)

lemma mlen_put_new: "mwf m \<Longrightarrow> \<not> mhas m k \<Longrightarrow> mlen (mput k v m) = Suc (mlen m)"
  by (simp add: mlen_def mhas_def gm.size_put_new)

lemma mlen_put_old: "mwf m \<Longrightarrow> mhas m k \<Longrightarrow> mlen (mput k v m) = mlen m"
  by (simp add: mlen_def mhas_def gm.size_put_old)

lemma mlen_del: "mwf m \<Longrightarrow> mhas m k \<Longrightarrow> Suc (mlen (mdel k m)) = mlen m"
  by (simp add: mlen_def mhas_def gm.size_del)

lemma mlen_del_le: "mwf m \<Longrightarrow> mlen (mdel k m) \<le> mlen m"
  by (simp add: mlen_def gm.size_del_le)

lemma mlen_card: "mwf m \<Longrightarrow> mlen m = card (dom (mget m))"
  by (simp add: mlen_def gm.size_card)

lemma mdel_absent: "\<not> mhas m k \<Longrightarrow> mdel k m = m"
  by (induction m) (auto simp: mhas_def mget_def mdel_def AList.delete_eq split: if_splits)

text \<open>Iteration in any order visits the entries and nothing else, each once.\<close>

lemma range_ok_set: "range_ok rng m \<Longrightarrow> set (rng m) = set m"
  by (metis range_ok_def mset_eq_setD)

lemma range_ok_length: "range_ok rng m \<Longrightarrow> length (rng m) = mlen m"
  by (metis range_ok_def mlen_def size_mset)

lemma range_ok_distinct: "range_ok rng m \<Longrightarrow> mwf m \<Longrightarrow> distinct (map fst (rng m))"
  by (metis range_ok_def mwf_def mset_eq_imp_distinct_iff mset_map)

lemma range_ok_get: "range_ok rng m \<Longrightarrow> mwf m \<Longrightarrow> (k, v) \<in> set (rng m) \<longleftrightarrow> mget m k = Some v"
  by (simp add: range_ok_set gm.in_entries)

end
