(* ===== verification/Proto.thy ===== *)
theory Proto
  imports Prelude
begin

text \<open>
  The message types of \<^verbatim>\<open>gen/\<close>: enumerations as the \<^verbatim>\<open>int32\<close> constants Go has, the structs that are
  stored by the program as records, every other message as a constructor of \<open>proto_msg\<close> with its
  fields in the order of the generated struct, and the envelope \<open>RpcMsg\<close>. A pointer field that may
  be nil is an option. The wire format belongs to the protobuf library: \<^verbatim>\<open>proto.Marshal\<close> and
  \<^verbatim>\<open>proto.Unmarshal\<close> are the record \<open>codec\<close>, an argument of everything that serialises, and what the
  code relies on (\<open>codec_rt\<close>: a marshalled message decodes to itself) is a hypothesis.
\<close>

section \<open>Enumerations\<close>

type_synonym ErrorCode = int

abbreviation ErrorCode_OK :: ErrorCode where "ErrorCode_OK \<equiv> 0"
abbreviation ErrorCode_UnknownMsgId :: ErrorCode where "ErrorCode_UnknownMsgId \<equiv> 1000"
abbreviation ErrorCode_UserNotLoggedIn :: ErrorCode where "ErrorCode_UserNotLoggedIn \<equiv> 1001"
abbreviation ErrorCode_RoomFull :: ErrorCode where "ErrorCode_RoomFull \<equiv> 1004"
abbreviation ErrorCode_SerializeError :: ErrorCode where "ErrorCode_SerializeError \<equiv> 1009"
abbreviation ErrorCode_DeSerializeError :: ErrorCode where "ErrorCode_DeSerializeError \<equiv> 1010"

type_synonym ChatMsgType = int

abbreviation ChatMsgType_TEXT :: ChatMsgType where "ChatMsgType_TEXT \<equiv> 1"
abbreviation ChatMsgType_JOIN :: ChatMsgType where "ChatMsgType_JOIN \<equiv> 3"
abbreviation ChatMsgType_LEAVE :: ChatMsgType where "ChatMsgType_LEAVE \<equiv> 4"

type_synonym MsgId = int

abbreviation MsgId_PChatLoginReq :: MsgId where "MsgId_PChatLoginReq \<equiv> 1101"
abbreviation MsgId_PChatLogoutReq :: MsgId where "MsgId_PChatLogoutReq \<equiv> 1103"
abbreviation MsgId_PChatUserMessage :: MsgId where "MsgId_PChatUserMessage \<equiv> 1105"
abbreviation MsgId_PChatGetUserInfoReq :: MsgId where "MsgId_PChatGetUserInfoReq \<equiv> 1201"
abbreviation MsgId_PChatCreateRoomReq :: MsgId where "MsgId_PChatCreateRoomReq \<equiv> 1301"
abbreviation MsgId_PChatJoinRoomReq :: MsgId where "MsgId_PChatJoinRoomReq \<equiv> 1303"
abbreviation MsgId_PChatLeaveRoomReq :: MsgId where "MsgId_PChatLeaveRoomReq \<equiv> 1305"
abbreviation MsgId_PChatGetRoomInfoReq :: MsgId where "MsgId_PChatGetRoomInfoReq \<equiv> 1307"
abbreviation MsgId_PChatGetRoomUsersReq :: MsgId where "MsgId_PChatGetRoomUsersReq \<equiv> 1309"
abbreviation MsgId_PChatSendMessageReq :: MsgId where "MsgId_PChatSendMessageReq \<equiv> 1401"
abbreviation MsgId_PChatGetMessagesReq :: MsgId where "MsgId_PChatGetMessagesReq \<equiv> 1403"
abbreviation MsgId_PChatGetRoomListReq :: MsgId where "MsgId_PChatGetRoomListReq \<equiv> 1501"

text \<open>The two maps the generator emits for \<^verbatim>\<open>MsgId\<close>, each written out as in the file.\<close>

definition MsgId_name_entries :: "(MsgId \<times> string) list" where
  "MsgId_name_entries =
     [(0, ''None''),
      (1101, ''PChatLoginReq''), (1102, ''PChatLoginResp''),
      (1103, ''PChatLogoutReq''), (1104, ''PChatLogoutResp''),
      (1105, ''PChatUserMessage''),
      (1201, ''PChatGetUserInfoReq''), (1202, ''PChatGetUserInfoResp''),
      (1301, ''PChatCreateRoomReq''), (1302, ''PChatCreateRoomResp''),
      (1303, ''PChatJoinRoomReq''), (1304, ''PChatJoinRoomResp''),
      (1305, ''PChatLeaveRoomReq''), (1306, ''PChatLeaveRoomResp''),
      (1307, ''PChatGetRoomInfoReq''), (1308, ''PChatGetRoomInfoResp''),
      (1309, ''PChatGetRoomUsersReq''), (1310, ''PChatGetRoomUsersResp''),
      (1401, ''PChatSendMessageReq''), (1402, ''PChatSendMessageResp''),
      (1403, ''PChatGetMessagesReq''), (1404, ''PChatGetMessagesResp''),
      (1501, ''PChatGetRoomListReq''), (1502, ''PChatGetRoomListResp'')]"

definition MsgId_value_entries :: "(string \<times> MsgId) list" where
  "MsgId_value_entries =
     [(''None'', 0),
      (''PChatLoginReq'', 1101), (''PChatLoginResp'', 1102),
      (''PChatLogoutReq'', 1103), (''PChatLogoutResp'', 1104),
      (''PChatUserMessage'', 1105),
      (''PChatGetUserInfoReq'', 1201), (''PChatGetUserInfoResp'', 1202),
      (''PChatCreateRoomReq'', 1301), (''PChatCreateRoomResp'', 1302),
      (''PChatJoinRoomReq'', 1303), (''PChatJoinRoomResp'', 1304),
      (''PChatLeaveRoomReq'', 1305), (''PChatLeaveRoomResp'', 1306),
      (''PChatGetRoomInfoReq'', 1307), (''PChatGetRoomInfoResp'', 1308),
      (''PChatGetRoomUsersReq'', 1309), (''PChatGetRoomUsersResp'', 1310),
      (''PChatSendMessageReq'', 1401), (''PChatSendMessageResp'', 1402),
      (''PChatGetMessagesReq'', 1403), (''PChatGetMessagesResp'', 1404),
      (''PChatGetRoomListReq'', 1501), (''PChatGetRoomListResp'', 1502)]"

definition MsgId_name :: "MsgId \<Rightarrow> string option" where
  "MsgId_name i = map_of MsgId_name_entries i"

definition MsgId_value :: "string \<Rightarrow> MsgId option" where
  "MsgId_value n = map_of MsgId_value_entries n"

section \<open>Messages\<close>

record ChatMessage =
  cm_MsgId :: string
  cm_SenderId :: int
  cm_SenderName :: string
  cm_RoomId :: string
  cm_Type :: ChatMsgType
  cm_Content :: string
  cm_Timestamp :: int

record ChatUserInfo =
  cu_UserId :: int
  cu_Username :: string
  cu_IsOnline :: bool
  cu_CurrentRoomId :: string
  cu_LoginTime :: int

record ChatRoomInfo =
  cr_RoomId :: string
  cr_RoomName :: string
  cr_CreatorName :: string
  cr_CreatorId :: int
  cr_MaxMembers :: int
  cr_CurrentMembers :: int
  cr_CreatedAt :: int

datatype proto_msg =
    ChatLoginReq int string string \<comment> \<open>UserId, Username, SessionId\<close>
  | ChatLoginResp ErrorCode string "ChatUserInfo option"
  | ChatLogoutReq int string \<comment> \<open>UserId, SessionId\<close>
  | ChatLogoutResp ErrorCode string
  | ChatUserMessage "ChatMessage option"
  | ChatGetUserInfoReq int
  | ChatGetUserInfoResp ErrorCode string "ChatUserInfo option"
  | ChatCreateRoomReq string int string int \<comment> \<open>RoomName, CreatorId, CreatorName, MaxMembers\<close>
  | ChatCreateRoomResp ErrorCode string "ChatRoomInfo option"
  | ChatJoinRoomReq string int string \<comment> \<open>RoomId, UserId, Username\<close>
  | ChatJoinRoomResp ErrorCode string "ChatRoomInfo option" "ChatMessage list"
  | ChatLeaveRoomReq string int string \<comment> \<open>RoomId, UserId, Username\<close>
  | ChatLeaveRoomResp ErrorCode string
  | ChatSendMessageReq string int string string ChatMsgType
      \<comment> \<open>RoomId, SenderId, SenderName, Content, Type\<close>
  | ChatSendMessageResp ErrorCode string "ChatMessage option"
  | ChatGetRoomInfoReq string
  | ChatGetRoomInfoResp ErrorCode string "ChatRoomInfo option"
  | ChatGetRoomUsersReq string
  | ChatGetRoomUsersResp ErrorCode string "ChatUserInfo list"
  | ChatGetMessagesReq string int int \<comment> \<open>RoomId, Limit, BeforeTimestamp\<close>
  | ChatGetMessagesResp ErrorCode string "ChatMessage list"
  | ChatGetRoomListReq int int \<comment> \<open>Page, PageSize\<close>
  | ChatGetRoomListResp ErrorCode string "ChatRoomInfo list" int \<comment> \<open>..., Rooms, Total\<close>
  | ChatMessageMsg ChatMessage
  | ChatUserInfoMsg ChatUserInfo
  | ChatRoomInfoMsg ChatRoomInfo
  | LoginReq string string
  | LoginResp bool int

text \<open>\<^verbatim>\<open>m.ProtoReflect().Descriptor().Name()\<close>.\<close>

fun msg_name :: "proto_msg \<Rightarrow> string" where
  "msg_name (ChatLoginReq _ _ _) = ''ChatLoginReq''"
| "msg_name (ChatLoginResp _ _ _) = ''ChatLoginResp''"
| "msg_name (ChatLogoutReq _ _) = ''ChatLogoutReq''"
| "msg_name (ChatLogoutResp _ _) = ''ChatLogoutResp''"
| "msg_name (ChatUserMessage _) = ''ChatUserMessage''"
| "msg_name (ChatGetUserInfoReq _) = ''ChatGetUserInfoReq''"
| "msg_name (ChatGetUserInfoResp _ _ _) = ''ChatGetUserInfoResp''"
| "msg_name (ChatCreateRoomReq _ _ _ _) = ''ChatCreateRoomReq''"
| "msg_name (ChatCreateRoomResp _ _ _) = ''ChatCreateRoomResp''"
| "msg_name (ChatJoinRoomReq _ _ _) = ''ChatJoinRoomReq''"
| "msg_name (ChatJoinRoomResp _ _ _ _) = ''ChatJoinRoomResp''"
| "msg_name (ChatLeaveRoomReq _ _ _) = ''ChatLeaveRoomReq''"
| "msg_name (ChatLeaveRoomResp _ _) = ''ChatLeaveRoomResp''"
| "msg_name (ChatSendMessageReq _ _ _ _ _) = ''ChatSendMessageReq''"
| "msg_name (ChatSendMessageResp _ _ _) = ''ChatSendMessageResp''"
| "msg_name (ChatGetRoomInfoReq _) = ''ChatGetRoomInfoReq''"
| "msg_name (ChatGetRoomInfoResp _ _ _) = ''ChatGetRoomInfoResp''"
| "msg_name (ChatGetRoomUsersReq _) = ''ChatGetRoomUsersReq''"
| "msg_name (ChatGetRoomUsersResp _ _ _) = ''ChatGetRoomUsersResp''"
| "msg_name (ChatGetMessagesReq _ _ _) = ''ChatGetMessagesReq''"
| "msg_name (ChatGetMessagesResp _ _ _) = ''ChatGetMessagesResp''"
| "msg_name (ChatGetRoomListReq _ _) = ''ChatGetRoomListReq''"
| "msg_name (ChatGetRoomListResp _ _ _ _) = ''ChatGetRoomListResp''"
| "msg_name (ChatMessageMsg _) = ''ChatMessage''"
| "msg_name (ChatUserInfoMsg _) = ''ChatUserInfo''"
| "msg_name (ChatRoomInfoMsg _) = ''ChatRoomInfo''"
| "msg_name (LoginReq _ _) = ''LoginReq''"
| "msg_name (LoginResp _ _) = ''LoginResp''"

text \<open>The messages of package \<^verbatim>\<open>gen\<close> that are registered with the protobuf runtime.\<close>

definition gen_messages :: "string list" where
  "gen_messages =
     [''ChatMessage'', ''ChatUserInfo'', ''ChatRoomInfo'', ''ChatLoginReq'', ''ChatLoginResp'',
      ''ChatLogoutReq'', ''ChatLogoutResp'', ''ChatUserMessage'', ''ChatGetUserInfoReq'',
      ''ChatGetUserInfoResp'', ''ChatCreateRoomReq'', ''ChatCreateRoomResp'', ''ChatJoinRoomReq'',
      ''ChatJoinRoomResp'', ''ChatLeaveRoomReq'', ''ChatLeaveRoomResp'', ''ChatSendMessageReq'',
      ''ChatSendMessageResp'', ''ChatGetRoomInfoReq'', ''ChatGetRoomInfoResp'',
      ''ChatGetRoomUsersReq'', ''ChatGetRoomUsersResp'', ''ChatGetMessagesReq'',
      ''ChatGetMessagesResp'', ''ChatGetRoomListReq'', ''ChatGetRoomListResp'',
      ''LoginReq'', ''LoginResp'']"

section \<open>The envelope and the codec\<close>

type_synonym bytes = "8 word list"

record RpcMsg =
  Kind :: string
  Identity :: string
  TraceID :: string
  Name :: string
  Code :: int
  MsgId :: int
  Data :: "bytes option" \<comment> \<open>\<open>None\<close>: a nil slice\<close>

record codec =
  marshal :: "proto_msg \<Rightarrow> bytes option" \<comment> \<open>\<open>None\<close>: an error\<close>
  unmarshal :: "string \<Rightarrow> bytes \<Rightarrow> proto_msg option" \<comment> \<open>the target type's name, the data\<close>

text \<open>\<^verbatim>\<open>proto.Unmarshal(in.Data, &msg)\<close> with \<^verbatim>\<open>msg\<close> of the named type; a nil slice is empty data.\<close>

definition decode :: "codec \<Rightarrow> string \<Rightarrow> RpcMsg \<Rightarrow> proto_msg option" where
  "decode cd n m = unmarshal cd n (case Data m of None \<Rightarrow> [] | Some b \<Rightarrow> b)"

text \<open>What the code relies on: a message that was marshalled decodes, at its own type, to itself.\<close>

definition codec_rt :: "codec \<Rightarrow> proto_msg \<Rightarrow> bool" where
  "codec_rt cd m \<longleftrightarrow> (\<exists>b. marshal cd m = Some b \<and> unmarshal cd (msg_name m) b = Some m)"

section \<open>Facts about the tables\<close>

lemma MsgId_tables_inverse_entries:
  "MsgId_value_entries = map (\<lambda>(i, n). (n, i)) MsgId_name_entries"
  by (simp add: MsgId_name_entries_def MsgId_value_entries_def)

lemma MsgId_name_keys: "distinct (map fst MsgId_name_entries)"
  by (simp add: MsgId_name_entries_def)

lemma MsgId_value_keys: "distinct (map fst MsgId_value_entries)"
  by (simp add: MsgId_value_entries_def)

lemma MsgId_name_value: "MsgId_name i = Some n \<longleftrightarrow> MsgId_value n = Some i"
proof -
  have "MsgId_name i = Some n \<longleftrightarrow> (i, n) \<in> set MsgId_name_entries"
    by (simp add: MsgId_name_def MsgId_name_keys)
  also have "\<dots> \<longleftrightarrow> (n, i) \<in> set MsgId_value_entries"
    by (auto simp: MsgId_tables_inverse_entries)
  also have "\<dots> \<longleftrightarrow> MsgId_value n = Some i"
    by (simp add: MsgId_value_def MsgId_value_keys)
  finally show ?thesis .
qed

text \<open>The messages that travel in an envelope are those of \<^verbatim>\<open>chat.proto\<close> that are not parts of others.\<close>

definition has_id :: "proto_msg \<Rightarrow> bool" where
  "has_id m = (case MsgId_value (''P'' @ msg_name m) of None \<Rightarrow> False | Some i \<Rightarrow> i \<noteq> 0)"

definition msg_id :: "proto_msg \<Rightarrow> int" where
  "msg_id m = (case MsgId_value (''P'' @ msg_name m) of None \<Rightarrow> 0 | Some i \<Rightarrow> i)"

lemma has_id_msg_id: "has_id m \<Longrightarrow> MsgId_value (''P'' @ msg_name m) = Some (msg_id m) \<and> msg_id m \<noteq> 0"
  by (auto simp: has_id_def msg_id_def split: option.splits)

lemma has_id_name: "has_id m \<Longrightarrow> MsgId_name (msg_id m) = Some (CHR ''P'' # msg_name m)"
  using has_id_msg_id [of m] by (simp add: MsgId_name_value)

lemma msg_name_registered: "msg_name m \<in> set gen_messages"
  by (cases m) (simp_all add: gen_messages_def)

end
