(* ===== verification/Registry.thy ===== *)
theory Registry
  imports GoMap Proto
begin

text \<open>
  \<^verbatim>\<open>internal/grains/grain_registry.go\<close>: the registry of the grains activated on a node and the
  registry of chat rooms. Both are maps whose values carry their own key; \<open>keyed_by\<close> is that
  invariant, shared with the member table of a chat room. The locks make each operation atomic, so
  an operation is one function on the map. The registry of rooms holds pointers; the model stores the
  structs, which is what a reader that copies or serialises at once sees.
\<close>

section \<open>Maps whose values carry their key\<close>

definition keyed_by :: "('v \<Rightarrow> 'k) \<Rightarrow> ('k, 'v) gomap \<Rightarrow> bool" where
  "keyed_by f m \<longleftrightarrow> mwf m \<and> (\<forall>k v. mget m k = Some v \<longrightarrow> f v = k)"

lemma keyed_by_empty [wf_intros, simp]: "keyed_by f []"
  by (simp add: keyed_by_def)

lemma keyed_by_put [wf_intros]: "keyed_by f m \<Longrightarrow> f v = k \<Longrightarrow> keyed_by f (mput k v m)"
  by (auto simp: keyed_by_def)

lemma keyed_by_del [wf_intros]: "keyed_by f m \<Longrightarrow> keyed_by f (mdel k m)"
  by (auto simp: keyed_by_def)

lemma keyed_by_mwf: "keyed_by f m \<Longrightarrow> mwf m"
  by (simp add: keyed_by_def)

lemma keyed_by_key: "keyed_by f m \<Longrightarrow> mget m k = Some v \<Longrightarrow> f v = k"
  by (simp add: keyed_by_def)

text \<open>Ranging over such a map, in any order, lists distinct values, each under its key.\<close>

lemma keyed_by_values:
  assumes "keyed_by f m" "range_ok rng m"
  shows "map f (map snd (rng m)) = map fst (rng m)"
    and "distinct (map f (map snd (rng m)))"
    and "set (map snd (rng m)) = {v. mget m (f v) = Some v}"
proof -
  have key: "f v = k" if "(k, v) \<in> set (rng m)" for k v
    using that assms by (metis keyed_by_key keyed_by_mwf range_ok_get)
  then show eq: "map f (map snd (rng m)) = map fst (rng m)"
    by (auto simp: comp_def intro!: map_cong)
  show "distinct (map f (map snd (rng m)))"
    unfolding eq using assms by (simp add: keyed_by_mwf range_ok_distinct)
  show "set (map snd (rng m)) = {v. mget m (f v) = Some v}"
  proof (intro set_eqI iffI)
    fix v assume "v \<in> set (map snd (rng m))"
    then obtain k where "(k, v) \<in> set (rng m)" by auto
    with assms key show "v \<in> {v. mget m (f v) = Some v}"
      by (auto simp: range_ok_get keyed_by_mwf)
  next
    fix v assume "v \<in> {v. mget m (f v) = Some v}"
    with assms have "(f v, v) \<in> set (rng m)"
      by (simp add: range_ok_get keyed_by_mwf)
    then show "v \<in> set (map snd (rng m))" by force
  qed
qed

section \<open>GrainRegistry\<close>

record GrainInstance =
  gi_KindName :: string
  gi_Identity :: string

type_synonym GrainRegistry = "(string, GrainInstance) gomap"

definition NewGrainRegistry :: GrainRegistry where
  "NewGrainRegistry = []"

definition registry_key :: "string \<Rightarrow> string \<Rightarrow> string" where
  "registry_key kindName identity = kindName @ '':'' @ identity"

definition Register :: "string \<Rightarrow> string \<Rightarrow> GrainRegistry \<Rightarrow> GrainRegistry" where
  "Register kindName identity r =
     mput (registry_key kindName identity) \<lparr>gi_KindName = kindName, gi_Identity = identity\<rparr> r"

definition Unregister :: "string \<Rightarrow> string \<Rightarrow> GrainRegistry \<Rightarrow> GrainRegistry" where
  "Unregister kindName identity r = mdel (registry_key kindName identity) r"

definition GetInstances :: "(string, GrainInstance) ranger \<Rightarrow> GrainRegistry \<Rightarrow> GrainInstance list" where
  "GetInstances rng r = map snd (rng r)"

definition Count :: "GrainRegistry \<Rightarrow> int" where
  "Count r = int (mlen r)"

fun collect_kinds :: "(string, bool) gomap \<Rightarrow> (string \<times> GrainInstance) list \<Rightarrow> (string, bool) gomap" where
  "collect_kinds kinds [] = kinds"
| "collect_kinds kinds ((_, instance) # es) = collect_kinds (mput (gi_KindName instance) True kinds) es"

definition GetKindNames ::
    "(string, GrainInstance) ranger \<Rightarrow> (string, bool) ranger \<Rightarrow> GrainRegistry \<Rightarrow> string list" where
  "GetKindNames rng rngk r = map fst (rngk (collect_kinds [] (rng r)))"

definition instance_key :: "GrainInstance \<Rightarrow> string" where
  "instance_key i = registry_key (gi_KindName i) (gi_Identity i)"

abbreviation grain_registry_wf :: "GrainRegistry \<Rightarrow> bool" where
  "grain_registry_wf \<equiv> keyed_by instance_key"

lemma grain_registry_wf_new [wf_intros]: "grain_registry_wf NewGrainRegistry"
  by (simp add: NewGrainRegistry_def)

lemma grain_registry_wf_Register [wf_intros]: "grain_registry_wf r \<Longrightarrow> grain_registry_wf (Register k i r)"
  by (auto simp: Register_def instance_key_def intro!: keyed_by_put)

lemma grain_registry_wf_Unregister [wf_intros]:
  "grain_registry_wf r \<Longrightarrow> grain_registry_wf (Unregister k i r)"
  by (auto simp: Unregister_def intro: keyed_by_del)

text \<open>The set of kinds that \<open>GetKindNames\<close> collects.\<close>

lemma collect_kinds_wf: "mwf kinds \<Longrightarrow> mwf (collect_kinds kinds es)"
  by (induction kinds es rule: collect_kinds.induct) auto

lemma collect_kinds_dom:
  "dom (mget (collect_kinds kinds es)) = dom (mget kinds) \<union> gi_KindName ` snd ` set es"
  by (induction kinds es rule: collect_kinds.induct) auto

lemma GetKindNames_kinds:
  assumes "range_ok rng r" "range_ok rngk (collect_kinds [] (rng r))"
  shows "distinct (GetKindNames rng rngk r)"
    and "set (GetKindNames rng rngk r) = gi_KindName ` set (GetInstances rng r)"
proof -
  have wf: "mwf (collect_kinds [] (rng r))"
    by (simp add: collect_kinds_wf)
  then show "distinct (GetKindNames rng rngk r)"
    using assms by (simp add: GetKindNames_def range_ok_distinct)
  have "fst ` set (collect_kinds [] (rng r)) = gi_KindName ` snd ` set (rng r)"
    using collect_kinds_dom [of "[]" "rng r"] by (simp add: gm.dom_get)
  then show "set (GetKindNames rng rngk r) = gi_KindName ` set (GetInstances rng r)"
    using assms by (simp add: GetKindNames_def GetInstances_def range_ok_set)
qed

text \<open>Keys are unambiguous as long as kinds contain no colon.\<close>

lemma registry_key_inj:
  assumes "CHR '':'' \<notin> set k1" "CHR '':'' \<notin> set k2"
    and "registry_key k1 i1 = registry_key k2 i2"
  shows "k1 = k2 \<and> i1 = i2"
proof -
  have "takeWhile (\<lambda>c. c \<noteq> CHR '':'') (registry_key k i) = k" if "CHR '':'' \<notin> set k" for k i
    using that by (auto simp: registry_key_def takeWhile_append)
  then have "k1 = k2" using assms by metis
  with assms(3) show ?thesis by (simp add: registry_key_def)
qed

section \<open>RoomRegistry\<close>

type_synonym RoomRegistry = "(string, ChatRoomInfo) gomap"

definition NewRoomRegistry :: RoomRegistry where
  "NewRoomRegistry = []"

definition RegisterRoom :: "ChatRoomInfo \<Rightarrow> RoomRegistry \<Rightarrow> RoomRegistry" where
  "RegisterRoom room r = mput (cr_RoomId room) room r"

definition UnregisterRoom :: "string \<Rightarrow> RoomRegistry \<Rightarrow> RoomRegistry" where
  "UnregisterRoom roomId r = mdel roomId r"

definition GetRoom :: "string \<Rightarrow> RoomRegistry \<Rightarrow> ChatRoomInfo option" where
  "GetRoom roomId r = mget r roomId"

definition UpdateRoomMembers :: "string \<Rightarrow> int \<Rightarrow> RoomRegistry \<Rightarrow> RoomRegistry" where
  "UpdateRoomMembers roomId currentMembers r =
     (case mget r roomId of
        Some room \<Rightarrow> mput roomId (room\<lparr>cr_CurrentMembers := currentMembers\<rparr>) r
      | None \<Rightarrow> r)"

definition GetAllRooms :: "(string, ChatRoomInfo) ranger \<Rightarrow> RoomRegistry \<Rightarrow> ChatRoomInfo list" where
  "GetAllRooms rng r = map snd (rng r)"

definition GetRoomCount :: "RoomRegistry \<Rightarrow> int" where
  "GetRoomCount r = int (mlen r)"

abbreviation room_registry_wf :: "RoomRegistry \<Rightarrow> bool" where
  "room_registry_wf \<equiv> keyed_by cr_RoomId"

lemma room_registry_wf_new [wf_intros]: "room_registry_wf NewRoomRegistry"
  by (simp add: NewRoomRegistry_def)

lemma room_registry_wf_RegisterRoom [wf_intros]:
  "room_registry_wf r \<Longrightarrow> room_registry_wf (RegisterRoom room r)"
  by (auto simp: RegisterRoom_def intro: keyed_by_put)

lemma room_registry_wf_UnregisterRoom [wf_intros]:
  "room_registry_wf r \<Longrightarrow> room_registry_wf (UnregisterRoom i r)"
  by (auto simp: UnregisterRoom_def intro: keyed_by_del)

lemma room_registry_wf_UpdateRoomMembers [wf_intros]:
  "room_registry_wf r \<Longrightarrow> room_registry_wf (UpdateRoomMembers i n r)"
  by (auto simp: UpdateRoomMembers_def dest: keyed_by_key intro!: keyed_by_put split: option.splits)

lemma GetRoom_simps [simp]:
  "GetRoom i (RegisterRoom room r) = (if i = cr_RoomId room then Some room else GetRoom i r)"
  "GetRoom i (UnregisterRoom j r) = (if i = j then None else GetRoom i r)"
  "GetRoom i (UpdateRoomMembers j n r) =
     (if i = j then map_option (\<lambda>room. room\<lparr>cr_CurrentMembers := n\<rparr>) (GetRoom i r) else GetRoom i r)"
  by (auto simp: GetRoom_def RegisterRoom_def UnregisterRoom_def UpdateRoomMembers_def
      split: option.splits)

lemma GetRoomCount_Update [simp]:
  "room_registry_wf r \<Longrightarrow> GetRoomCount (UpdateRoomMembers i n r) = GetRoomCount r"
  by (auto simp: GetRoomCount_def UpdateRoomMembers_def mlen_put_old mhas_def keyed_by_mwf
      split: option.splits)

end
