(* ===== verification/GlobalRpc.thy ===== *)
theory GlobalRpc
  imports Registry
begin

text \<open>
  \<^verbatim>\<open>internal/global/global.go\<close>: the request/response bridge between the HTTP side and the grains, and
  the publication of room broadcasts. The actor framework is an argument: a \<open>cluster\<close> takes its
  state, the identity and kind addressed and the envelope, and gives the state after the call and
  what the future delivered. Tracing spans are not modelled; the trace id they put into the envelope
  is an argument. Errors are a datatype, one constructor per \<^verbatim>\<open>fmt.Errorf\<close>.
\<close>

datatype rpc_error =
    MissingParameter
  | UnknownMessageType string
  | MarshalFailed
  | GetGrainFailed
  | CallGrainFailed
  | CallFailed rpc_error
  | UnknownResponseId int \<comment> \<open>the text carries the request's id\<close>
  | SystemError int
  | MessageTypeNotFound string
  | UnmarshalFailed

datatype call_result =
    RequestErr \<comment> \<open>\<^verbatim>\<open>RequestFuture\<close> itself failed\<close>
  | FutureErr \<comment> \<open>\<^verbatim>\<open>future.Result\<close> failed\<close>
  | Replied RpcMsg
  | RepliedOther \<comment> \<open>a value of another type\<close>

type_synonym 'c cluster = "'c \<Rightarrow> string \<Rightarrow> string \<Rightarrow> RpcMsg \<Rightarrow> 'c \<times> call_result"

text \<open>The part of a node's state that grains share: the two global registries and what was published.\<close>

record node =
  grainReg :: GrainRegistry
  roomReg :: RoomRegistry
  published :: "(string \<times> RpcMsg) list"

definition new_node :: node where
  "new_node = \<lparr>grainReg = NewGrainRegistry, roomReg = NewRoomRegistry, published = []\<rparr>"

definition NewRpcMsg ::
    "codec \<Rightarrow> string \<Rightarrow> string \<Rightarrow> string \<Rightarrow> proto_msg \<Rightarrow> rpc_error + RpcMsg" where
  "NewRpcMsg cd identity kind name req =
     (case MsgId_value (''P'' @ msg_name req) of
        None \<Rightarrow> Inl (UnknownMessageType (msg_name req))
      | Some msgId \<Rightarrow>
          if msgId = 0 then Inl (UnknownMessageType (msg_name req))
          else (case marshal cd req of
              None \<Rightarrow> Inl MarshalFailed
            | Some data \<Rightarrow>
                Inr \<lparr>Kind = kind, Identity = identity, TraceID = '''', Name = name, Code = 0,
                  MsgId = msgId, Data = Some data\<rparr>))"

definition Publish :: "codec \<Rightarrow> string \<Rightarrow> proto_msg \<Rightarrow> node \<Rightarrow> node \<times> rpc_error option" where
  "Publish cd topic req w =
     (case NewRpcMsg cd topic topic ''broadcast'' req of
        Inl e \<Rightarrow> (w, Some e)
      | Inr rpcMsg \<Rightarrow> (w\<lparr>published := published w @ [(topic, rpcMsg)]\<rparr>, None))"

text \<open>\<open>req = None\<close> is a nil pointer: its field \<^verbatim>\<open>Name\<close> is read before the nil check.\<close>

definition RequestFuture ::
    "'c cluster \<Rightarrow> string \<Rightarrow> RpcMsg option \<Rightarrow> 'c \<Rightarrow> ('c \<times> (rpc_error + RpcMsg)) outcome" where
  "RequestFuture cl traceId req c =
     (case req of
        None \<Rightarrow> Panic NilDereference
      | Some r \<Rightarrow>
          if Name r = '''' \<or> Kind r = '''' \<or> Identity r = '''' then Ok (c, Inl MissingParameter)
          else (let r = r\<lparr>TraceID := traceId\<rparr>
            in case cl c (Identity r) (Kind r) r of
                 (c, RequestErr) \<Rightarrow> Ok (c, Inl GetGrainFailed)
               | (c, FutureErr) \<Rightarrow> Ok (c, Inl CallGrainFailed)
               | (c, Replied resp) \<Rightarrow> Ok (c, Inr resp)
               | (c, RepliedOther) \<Rightarrow> Panic TypeAssertion))"

text \<open>The second half of \<^verbatim>\<open>Rpc\<close>: from the envelope that came back to the message.\<close>

definition open_response :: "codec \<Rightarrow> int \<Rightarrow> RpcMsg \<Rightarrow> rpc_error + proto_msg" where
  "open_response cd msgId resp =
     (case MsgId_name (MsgId resp) of
        None \<Rightarrow> Inl (UnknownResponseId msgId)
      | Some respName \<Rightarrow>
          if respName = '''' then Inl (UnknownResponseId msgId)
          else if Code resp \<noteq> ErrorCode_OK \<or> Data resp = None then Inl (SystemError (Code resp))
          else if tl respName \<notin> set gen_messages then Inl (MessageTypeNotFound (''gen.'' @ tl respName))
          else (case unmarshal cd (tl respName) (the (Data resp)) of
              None \<Rightarrow> Inl UnmarshalFailed
            | Some msg \<Rightarrow> Inr msg))"

definition Rpc ::
    "'c cluster \<Rightarrow> codec \<Rightarrow> string \<Rightarrow> string \<Rightarrow> string \<Rightarrow> string \<Rightarrow> proto_msg \<Rightarrow> 'c \<Rightarrow>
       ('c \<times> (rpc_error + proto_msg)) outcome" where
  "Rpc cl cd traceId identity kind name req c =
     (if identity = '''' \<or> kind = '''' \<or> name = '''' then Ok (c, Inl MissingParameter)
      else case MsgId_value (''P'' @ msg_name req) of
        None \<Rightarrow> Ok (c, Inl (UnknownMessageType (msg_name req)))
      | Some msgId \<Rightarrow>
          if msgId = 0 then Ok (c, Inl (UnknownMessageType (msg_name req)))
          else (case marshal cd req of
              None \<Rightarrow> Ok (c, Inl MarshalFailed)
            | Some data \<Rightarrow>
                obind (RequestFuture cl traceId (Some \<lparr>Kind = kind, Identity = identity, TraceID = '''',
                    Name = name, Code = 0, MsgId = msgId, Data = Some data\<rparr>) c)
                  (\<lambda>(c, r). Ok (c, case r of
                      Inl e \<Rightarrow> Inl (CallFailed e)
                    | Inr resp \<Rightarrow> open_response cd msgId resp))))"

section \<open>Facts\<close>

lemma NewRpcMsg_Inr:
  "NewRpcMsg cd i k n req = Inr m \<longleftrightarrow>
     has_id req \<and> (\<exists>b. marshal cd req = Some b \<and>
       m = \<lparr>Kind = k, Identity = i, TraceID = '''', Name = n, Code = 0, MsgId = msg_id req, Data = Some b\<rparr>)"
  by (auto simp: NewRpcMsg_def has_id_def msg_id_def split: option.splits)

lemma Publish_frame [simp]:
  "grainReg (fst (Publish cd t r w)) = grainReg w"
  "roomReg (fst (Publish cd t r w)) = roomReg w"
  by (auto simp: Publish_def split: sum.splits)

text \<open>The envelope a request travels in.\<close>

definition request_of :: "string \<Rightarrow> string \<Rightarrow> string \<Rightarrow> string \<Rightarrow> proto_msg \<Rightarrow> bytes \<Rightarrow> RpcMsg" where
  "request_of traceId identity kind name req b =
     \<lparr>Kind = kind, Identity = identity, TraceID = traceId, Name = name, Code = 0, MsgId = msg_id req,
      Data = Some b\<rparr>"

lemma Rpc_sent:
  assumes "has_id req" "marshal cd req = Some b" "identity \<noteq> ''''" "kind \<noteq> ''''" "name \<noteq> ''''"
  shows "Rpc cl cd t identity kind name req c =
    (case cl c identity kind (request_of t identity kind name req b) of
       (c, RequestErr) \<Rightarrow> Ok (c, Inl (CallFailed GetGrainFailed))
     | (c, FutureErr) \<Rightarrow> Ok (c, Inl (CallFailed CallGrainFailed))
     | (c, Replied resp) \<Rightarrow> Ok (c, open_response cd (msg_id req) resp)
     | (c, RepliedOther) \<Rightarrow> Panic TypeAssertion)"
  using has_id_msg_id [OF assms(1)] assms(2-)
  by (auto simp: Rpc_def RequestFuture_def request_of_def split: prod.splits call_result.splits)

text \<open>Opening an envelope whose code is not OK gives an error, whatever it carries.\<close>

lemma open_response_code: "open_response cd i resp = Inr m \<Longrightarrow> Code resp = ErrorCode_OK \<and> Data resp \<noteq> None"
  by (auto simp: open_response_def split: option.splits if_splits)

lemma open_response_ok:
  assumes "codec_rt cd m" "marshal cd m = Some b" "has_id m"
    and "MsgId resp = msg_id m" "Code resp = ErrorCode_OK" "Data resp = Some b"
  shows "open_response cd i resp = Inr m"
  using assms has_id_name [of m] msg_name_registered [of m]
  by (auto simp: open_response_def codec_rt_def)

end
