(* ===== verification/BaseGrain.thy ===== *)
theory BaseGrain
  imports GlobalRpc
begin

text \<open>
  \<^verbatim>\<open>internal/grains/base_grain.go\<close>: the part every grain embeds. Go's embedding is record extension,
  so the operations below work on any \<open>base_grain_scheme\<close>. The handler table maps a message id to a
  handler; the grain kinds name their handlers by a datatype \<open>'h\<close>, and \<open>invoke\<close>, an argument of
  \<open>Receive\<close>, runs a handler on the grain and the node. One mailbox message is one call of \<open>Receive\<close>;
  the actor framework runs them one after another (\<open>mailbox\<close>).
\<close>

section \<open>State and registration\<close>

record 'h base_grain =
  PID :: "string option"
  gKind :: string
  gIdentity :: string
  CallCount :: int
  IsActive :: bool
  hasCluster :: bool \<comment> \<open>whether the pointer \<^verbatim>\<open>Cluster\<close> is set\<close>
  MsgFunc :: "(MsgId, 'h) gomap option" \<comment> \<open>\<open>None\<close>: the nil map\<close>

text \<open>\<^verbatim>\<open>BaseGrain{}\<close>, the zero value.\<close>

definition zero_base :: "'h base_grain" where
  "zero_base = \<lparr>PID = None, gKind = '''', gIdentity = '''', CallCount = 0, IsActive = False,
     hasCluster = False, MsgFunc = None\<rparr>"

definition RegisterMsgHandler ::
    "MsgId \<Rightarrow> 'h \<Rightarrow> ('h, 'z) base_grain_scheme \<Rightarrow> ('h, 'z) base_grain_scheme" where
  "RegisterMsgHandler messageId handler g =
     (let f = (case MsgFunc g of None \<Rightarrow> [] | Some f \<Rightarrow> f)
      in if mhas f messageId then g\<lparr>MsgFunc := Some f\<rparr>
         else g\<lparr>MsgFunc := Some (mput messageId handler f)\<rparr>)"

definition find_handler :: "('h, 'z) base_grain_scheme \<Rightarrow> MsgId \<Rightarrow> 'h option" where
  "find_handler g i = (case MsgFunc g of None \<Rightarrow> None | Some f \<Rightarrow> mget f i)"

definition GetKind :: "('h, 'z) base_grain_scheme \<Rightarrow> string" where
  "GetKind g = gKind g"

definition GetIdentity :: "('h, 'z) base_grain_scheme \<Rightarrow> string" where
  "GetIdentity g = gIdentity g"

definition GetCallCount :: "('h, 'z) base_grain_scheme \<Rightarrow> int" where
  "GetCallCount g = CallCount g"

definition SetIdentity :: "string \<Rightarrow> ('h, 'z) base_grain_scheme \<Rightarrow> ('h, 'z) base_grain_scheme" where
  "SetIdentity i g = g\<lparr>gIdentity := i\<rparr>"

definition SetKind :: "string \<Rightarrow> ('h, 'z) base_grain_scheme \<Rightarrow> ('h, 'z) base_grain_scheme" where
  "SetKind k g = g\<lparr>gKind := k\<rparr>"

definition BaseGrain_Init :: "('h, 'z) base_grain_scheme \<Rightarrow> ('h, 'z) base_grain_scheme" where
  "BaseGrain_Init g = g\<lparr>hasCluster := True\<rparr>"

text \<open>What the actor context gives a message: the actor's own id and the cluster identity, if any.\<close>

record actor_ctx =
  selfId :: string
  clusterIdentity :: "(string \<times> string) option" \<comment> \<open>kind, identity\<close>

definition onStarted ::
    "actor_ctx \<Rightarrow> ('h, 'z) base_grain_scheme \<Rightarrow> 'n node_scheme \<Rightarrow> ('h, 'z) base_grain_scheme \<times> 'n node_scheme" where
  "onStarted ctx g w =
     (let g = g\<lparr>PID := Some (selfId ctx)\<rparr>;
          g = (case clusterIdentity ctx of
                 None \<Rightarrow> g
               | Some (k, i) \<Rightarrow> g\<lparr>gKind := k, gIdentity := i\<rparr>);
          g = (if gKind g = '''' then g\<lparr>gKind := ''local_actor''\<rparr> else g);
          g = (if gIdentity g = '''' then g\<lparr>gIdentity := selfId ctx\<rparr> else g);
          w = w\<lparr>grainReg := Register (gKind g) (gIdentity g) (grainReg w)\<rparr>
      in (g\<lparr>IsActive := True\<rparr>, w))"

section \<open>Receive\<close>

datatype actor_msg =
    Started
  | Envelope RpcMsg
  | OtherMessage \<comment> \<open>any other type, \<^verbatim>\<open>actor.Stopped\<close> and bare requests included\<close>

text \<open>A handler gives the grain, the node, the response (nil: \<open>None\<close>) and the error code.\<close>

type_synonym ('g, 'n) handled = "('g \<times> 'n node_scheme \<times> proto_msg option \<times> ErrorCode) outcome"

text \<open>How the envelope is turned into the reply after the handler returned.\<close>

definition reply :: "codec \<Rightarrow> RpcMsg \<Rightarrow> proto_msg option \<Rightarrow> ErrorCode \<Rightarrow> RpcMsg" where
  "reply cd msg resp errCode =
     (let msg = (case resp of
           None \<Rightarrow> msg
         | Some r \<Rightarrow>
             (let v = MsgId_value (''P'' @ msg_name r);
                  msgId = (case v of None \<Rightarrow> 0 | Some i \<Rightarrow> i);
                  msg = (if v = None \<or> msgId = 0 then msg\<lparr>Code := ErrorCode_SerializeError\<rparr> else msg);
                  msg = msg\<lparr>MsgId := msgId\<rparr>
              in case marshal cd r of
                   None \<Rightarrow> msg\<lparr>Code := ErrorCode_SerializeError\<rparr>
                 | Some b \<Rightarrow> msg\<lparr>Data := Some b\<rparr>))
      in msg\<lparr>Code := errCode\<rparr>)"

definition Receive ::
    "codec \<Rightarrow> ('h \<Rightarrow> ('h, 'z) base_grain_scheme \<Rightarrow> 'n node_scheme \<Rightarrow> RpcMsg \<Rightarrow> (('h, 'z) base_grain_scheme, 'n) handled) \<Rightarrow>
       actor_ctx \<Rightarrow> actor_msg \<Rightarrow> ('h, 'z) base_grain_scheme \<Rightarrow> 'n node_scheme \<Rightarrow>
       (('h, 'z) base_grain_scheme \<times> 'n node_scheme \<times> RpcMsg option) outcome" where
  "Receive cd invoke ctx am g w =
     (case am of
        Started \<Rightarrow> (let (g, w) = onStarted ctx g w in Ok (g, w, None))
      | Envelope msg \<Rightarrow>
          (case find_handler g (MsgId msg) of
             Some h \<Rightarrow> obind (invoke h g w msg)
               (\<lambda>(g, w, resp, errCode). Ok (g, w, Some (reply cd msg resp errCode)))
           | None \<Rightarrow> Ok (g, w, Some (msg\<lparr>Code := ErrorCode_UnknownMsgId\<rparr>)))
      | OtherMessage \<Rightarrow> Ok (g, w, None))"

text \<open>The mailbox: messages in order, each with its own environment \<open>e\<close>; the replies in order.\<close>

fun mailbox ::
    "('e \<Rightarrow> codec) \<Rightarrow>
       ('e \<Rightarrow> 'h \<Rightarrow> ('h, 'z) base_grain_scheme \<Rightarrow> 'n node_scheme \<Rightarrow> RpcMsg \<Rightarrow> (('h, 'z) base_grain_scheme, 'n) handled) \<Rightarrow>
       ('e \<times> actor_ctx \<times> actor_msg) list \<Rightarrow> ('h, 'z) base_grain_scheme \<Rightarrow> 'n node_scheme \<Rightarrow>
       (('h, 'z) base_grain_scheme \<times> 'n node_scheme \<times> RpcMsg list) outcome" where
  "mailbox cd invoke [] g w = Ok (g, w, [])"
| "mailbox cd invoke ((e, ctx, am) # ms) g w =
     obind (Receive (cd e) (invoke e) ctx am g w) (\<lambda>(g, w, r).
       obind (mailbox cd invoke ms g w) (\<lambda>(g, w, rs).
         Ok (g, w, (case r of None \<Rightarrow> rs | Some m \<Rightarrow> m # rs))))"

section \<open>Facts shared by the grains\<close>

lemma onStarted_simps [simp]:
  "MsgFunc (fst (onStarted ctx g w)) = MsgFunc g"
  "CallCount (fst (onStarted ctx g w)) = CallCount g"
  "IsActive (fst (onStarted ctx g w))"
  "roomReg (snd (onStarted ctx g w)) = roomReg w"
  "published (snd (onStarted ctx g w)) = published w"
  by (auto simp: onStarted_def Let_def split: option.splits)

lemma onStarted_registers:
  "grainReg (snd (onStarted ctx g w)) =
     Register (gKind (fst (onStarted ctx g w))) (gIdentity (fst (onStarted ctx g w))) (grainReg w)"
  by (auto simp: onStarted_def Let_def split: option.splits)

lemma onStarted_cluster:
  assumes "clusterIdentity ctx = Some (k, i)" "k \<noteq> ''''" "i \<noteq> ''''"
  shows "gKind (fst (onStarted ctx g w)) = k" "gIdentity (fst (onStarted ctx g w)) = i"
  using assms by (auto simp: onStarted_def Let_def)

lemma find_handler_start [simp]: "find_handler (fst (onStarted ctx g w)) i = find_handler g i"
  by (simp add: find_handler_def)

lemma find_handler_register:
  "find_handler (RegisterMsgHandler i h g) j =
     (if j = i then (case find_handler g i of None \<Rightarrow> Some h | Some h' \<Rightarrow> Some h') else find_handler g j)"
  by (auto simp: find_handler_def RegisterMsgHandler_def mhas_def Let_def split: option.splits)

lemma reply_simps [simp]:
  "Code (reply cd msg resp c) = c"
  "Identity (reply cd msg resp c) = Identity msg"
  "Kind (reply cd msg resp c) = Kind msg"
  "Name (reply cd msg resp c) = Name msg"
  by (auto simp: reply_def Let_def split: option.splits)

lemma reply_ok:
  "has_id r \<Longrightarrow> marshal cd r = Some b \<Longrightarrow>
     MsgId (reply cd msg (Some r) c) = msg_id r \<and> Data (reply cd msg (Some r) c) = Some b"
  using has_id_msg_id [of r] by (auto simp: reply_def)

lemma reply_None: "reply cd msg None c = msg\<lparr>Code := c\<rparr>"
  by (simp add: reply_def)

text \<open>A response that cannot be serialised leaves the request's data in the reply.\<close>

lemma reply_marshal_error:
  "marshal cd r = None \<Longrightarrow> Data (reply cd msg (Some r) c) = Data msg"
  by (auto simp: reply_def Let_def)

lemma Receive_unknown:
  "find_handler g (MsgId msg) = None \<Longrightarrow>
     Receive cd invoke ctx (Envelope msg) g w = Ok (g, w, Some (msg\<lparr>Code := ErrorCode_UnknownMsgId\<rparr>))"
  by (simp add: Receive_def)

section \<open>What Receive asks of a grain\<close>

text \<open>An activated grain, and a context that is its own: starting it again keeps its identity.\<close>

definition same_actor :: "('h, 'z) base_grain_scheme \<Rightarrow> actor_ctx \<Rightarrow> bool" where
  "same_actor g ctx \<longleftrightarrow> gIdentity g \<noteq> '''' \<and>
     (case clusterIdentity ctx of None \<Rightarrow> True | Some (k, i) \<Rightarrow> i = gIdentity g)"

lemma same_actor_identity: "same_actor g ctx \<Longrightarrow> gIdentity (fst (onStarted ctx g w)) = gIdentity g"
  by (auto simp: same_actor_def onStarted_def Let_def split: option.splits)

lemma same_actor_cong: "gIdentity g' = gIdentity g \<Longrightarrow> same_actor g' ctx = same_actor g ctx"
  by (simp add: same_actor_def split: option.split prod.split)

text \<open>
  The contract between \<^verbatim>\<open>BaseGrain.Receive\<close> and the grains that embed it: an invariant of grain and
  node that starting the actor and every handler keep; no handler panics where it holds, and none
  renames the grain.
\<close>

locale grain_contract =
  fixes invoke :: "'e \<Rightarrow> 'h \<Rightarrow> ('h, 'z) base_grain_scheme \<Rightarrow> 'n node_scheme \<Rightarrow> RpcMsg \<Rightarrow> (('h, 'z) base_grain_scheme, 'n) handled"
    and inv :: "('h, 'z) base_grain_scheme \<Rightarrow> 'n node_scheme \<Rightarrow> bool"
  assumes invoke_ok: "inv g w \<Longrightarrow> \<exists>g' w' r c. invoke e h g w m = Ok (g', w', r, c) \<and> inv g' w'"
    and invoke_identity: "invoke e h g w m = Ok (g', w', r, c) \<Longrightarrow> gIdentity g' = gIdentity g"
    and start_inv: "inv g w \<Longrightarrow> same_actor g ctx \<Longrightarrow> inv (fst (onStarted ctx g w)) (snd (onStarted ctx g w))"
begin

lemma receive_ok:
  assumes "inv g w" "same_actor g ctx"
  shows "\<exists>g' w' r. Receive cd (invoke e) ctx am g w = Ok (g', w', r) \<and> inv g' w' \<and>
    gIdentity g' = gIdentity g"
proof (cases am)
  case Started
  with assms show ?thesis
    using start_inv [of g w ctx] same_actor_identity [of g ctx w]
    by (auto simp: Receive_def split: prod.splits)
next
  case (Envelope m)
  show ?thesis
  proof (cases "find_handler g (MsgId m)")
    case None
    with Envelope assms show ?thesis by (simp add: Receive_def)
  next
    case (Some h)
    obtain g' w' r c where i: "invoke e h g w m = Ok (g', w', r, c)" "inv g' w'"
      using invoke_ok assms(1) by blast
    with Envelope Some show ?thesis
      using invoke_identity [OF i(1)] by (simp add: Receive_def)
  qed
next
  case OtherMessage
  with assms show ?thesis by (simp add: Receive_def)
qed

lemma mailbox_ok:
  assumes "inv g w" "\<forall>(e, ctx, am) \<in> set ms. same_actor g ctx"
  shows "\<exists>g' w' rs. mailbox cd invoke ms g w = Ok (g', w', rs) \<and> inv g' w' \<and>
    gIdentity g' = gIdentity g"
  using assms
proof (induction ms arbitrary: g w)
  case Nil
  then show ?case by simp
next
  case (Cons em ms)
  obtain e ctx am where em: "em = (e, ctx, am)" by (cases em)
  from Cons.prems em have "inv g w" "same_actor g ctx" by auto
  from receive_ok [OF this, of "cd e" e am]
  obtain g1 w1 r where r: "Receive (cd e) (invoke e) ctx am g w = Ok (g1, w1, r)" "inv g1 w1"
    and i: "gIdentity g1 = gIdentity g" by blast
  from Cons.prems i have "\<forall>(e, ctx, am) \<in> set ms. same_actor g1 ctx"
    by (auto simp: same_actor_cong [OF i])
  from Cons.IH [OF r(2) this] obtain g' w' rs
    where "mailbox cd invoke ms g1 w1 = Ok (g', w', rs)" "inv g' w'" "gIdentity g' = gIdentity g1" by blast
  with r em i show ?case by simp
qed

end

text \<open>
  Refinement of a grain: the handler table is \<open>tbl\<close>, \<open>dec\<close> reads the request a handler acts on, and
  each handler acts on the abstraction \<open>abs\<close> as the specification \<open>spec\<close> of its request says. Whole
  mailboxes then refine the fold of the specification over the requests they hold.
\<close>

definition request_in ::
    "(MsgId \<Rightarrow> 'h option) \<Rightarrow> ('e \<Rightarrow> 'h \<Rightarrow> RpcMsg \<Rightarrow> 'q option) \<Rightarrow> 'e \<Rightarrow> actor_msg \<Rightarrow> 'q option" where
  "request_in tbl dec e am =
     (case am of
        Envelope m \<Rightarrow> (case tbl (MsgId m) of None \<Rightarrow> None | Some h \<Rightarrow> dec e h m)
      | _ \<Rightarrow> None)"

definition spec_event :: "('q \<Rightarrow> 'a \<Rightarrow> 'a) \<Rightarrow> 'q option \<Rightarrow> 'a \<Rightarrow> 'a" where
  "spec_event spec q a = (case q of None \<Rightarrow> a | Some q \<Rightarrow> spec q a)"

definition spec_run ::
    "(MsgId \<Rightarrow> 'h option) \<Rightarrow> ('e \<Rightarrow> 'h \<Rightarrow> RpcMsg \<Rightarrow> 'q option) \<Rightarrow> ('q \<Rightarrow> 'a \<Rightarrow> 'a) \<Rightarrow>
       ('e \<times> actor_ctx \<times> actor_msg) list \<Rightarrow> 'a \<Rightarrow> 'a" where
  "spec_run tbl dec spec ms a = fold (\<lambda>(e, ctx, am). spec_event spec (request_in tbl dec e am)) ms a"

definition is_envelope :: "actor_msg \<Rightarrow> bool" where
  "is_envelope am = (case am of Envelope m \<Rightarrow> True | _ \<Rightarrow> False)"

lemma mailbox_replies:
  "mailbox cd invoke ms g w = Ok (g', w', rs) \<Longrightarrow>
     length rs = length (filter (\<lambda>(e, ctx, am). is_envelope am) ms)"
proof (induction ms arbitrary: g w rs)
  case Nil
  then show ?case by simp
next
  case (Cons em ms)
  obtain e ctx am where em: "em = (e, ctx, am)" by (cases em)
  from Cons.prems obtain g1 w1 r rs' where
      1: "Receive (cd e) (invoke e) ctx am g w = Ok (g1, w1, r)"
    and 2: "mailbox cd invoke ms g1 w1 = Ok (g', w', rs')"
    and rs: "rs = (case r of None \<Rightarrow> rs' | Some m \<Rightarrow> m # rs')"
    by (auto simp: em obind_Ok_iff)
  from 1 have "r = None \<longleftrightarrow> \<not> is_envelope am"
    by (auto simp: Receive_def is_envelope_def obind_Ok_iff split: actor_msg.splits option.splits prod.splits)
  with Cons.IH [OF 2] rs em show ?case by (auto split: option.splits)
qed

locale grain_refinement = grain_contract invoke inv
  for invoke :: "'e \<Rightarrow> 'h \<Rightarrow> ('h, 'z) base_grain_scheme \<Rightarrow> 'n node_scheme \<Rightarrow> RpcMsg \<Rightarrow> (('h, 'z) base_grain_scheme, 'n) handled"
    and inv :: "('h, 'z) base_grain_scheme \<Rightarrow> 'n node_scheme \<Rightarrow> bool" +
  fixes tbl :: "MsgId \<Rightarrow> 'h option"
    and dec :: "'e \<Rightarrow> 'h \<Rightarrow> RpcMsg \<Rightarrow> 'q option"
    and abs :: "('h, 'z) base_grain_scheme \<Rightarrow> 'a"
    and spec :: "'q \<Rightarrow> 'a \<Rightarrow> 'a"
  assumes table: "inv g w \<Longrightarrow> find_handler g i = tbl i"
    and simulate: "inv g w \<Longrightarrow> invoke e h g w m = Ok (g', w', r, c) \<Longrightarrow>
      abs g' = spec_event spec (dec e h m) (abs g)"
    and start_abs: "abs (fst (onStarted ctx g w)) = abs g"
begin

lemma receive_refines:
  assumes "inv g w" "Receive cd (invoke e) ctx am g w = Ok (g', w', r)"
  shows "abs g' = spec_event spec (request_in tbl dec e am) (abs g)"
proof (cases am)
  case Started
  with assms show ?thesis
    by (auto simp: Receive_def request_in_def spec_event_def start_abs split: prod.splits
        dest: sym [of "onStarted _ _ _"]) (metis fst_conv start_abs)
next
  case (Envelope m)
  show ?thesis
  proof (cases "tbl (MsgId m)")
    case None
    with Envelope assms show ?thesis
      by (simp add: Receive_def request_in_def spec_event_def table [OF assms(1)])
  next
    case (Some h)
    with Envelope assms obtain c r' where "invoke e h g w m = Ok (g', w', r', c)"
      by (auto simp: Receive_def table [OF assms(1)] obind_Ok_iff)
    from simulate [OF assms(1) this] Envelope Some show ?thesis
      by (simp add: request_in_def)
  qed
next
  case OtherMessage
  with assms show ?thesis by (simp add: Receive_def request_in_def spec_event_def)
qed

lemma mailbox_refines:
  assumes "inv g w" "\<forall>(e, ctx, am) \<in> set ms. same_actor g ctx"
  shows "\<exists>g' w' rs. mailbox cd invoke ms g w = Ok (g', w', rs) \<and> inv g' w' \<and>
    abs g' = spec_run tbl dec spec ms (abs g)"
  using assms
proof (induction ms arbitrary: g w)
  case Nil
  then show ?case by (simp add: spec_run_def)
next
  case (Cons em ms)
  obtain e ctx am where em: "em = (e, ctx, am)" by (cases em)
  from Cons.prems em have "inv g w" "same_actor g ctx" by auto
  from receive_ok [OF this, of "cd e" e am]
  obtain g1 w1 r where r: "Receive (cd e) (invoke e) ctx am g w = Ok (g1, w1, r)" "inv g1 w1"
    and i: "gIdentity g1 = gIdentity g" by blast
  have a: "abs g1 = spec_event spec (request_in tbl dec e am) (abs g)"
    by (rule receive_refines [OF Cons.prems(1) r(1)])
  from Cons.prems i have "\<forall>(e, ctx, am) \<in> set ms. same_actor g1 ctx"
    by (auto simp: same_actor_cong [OF i])
  from Cons.IH [OF r(2) this] obtain g' w' rs where "mailbox cd invoke ms g1 w1 = Ok (g', w', rs)"
    "inv g' w'" "abs g' = spec_run tbl dec spec ms (abs g1)" by blast
  with r em a show ?case by (simp add: spec_run_def)
qed

end

end
