(* ===== verification/Texts.thy ===== *)
theory Texts
  imports Main
begin

text \<open>
  The user-visible string literals of the source that are not ASCII, as the UTF-8 bytes a Go string
  holds. Each is annotated with its meaning.
\<close>

definition t_success :: string where \<comment> \<open>success\<close>
  "t_success =
    [CHR 0xE6, CHR 0x88, CHR 0x90, CHR 0xE5, CHR 0x8A, CHR 0x9F]"

definition t_not_in_room :: string where \<comment> \<open>the user is not in the room\<close>
  "t_not_in_room =
    [CHR 0xE7, CHR 0x94, CHR 0xA8, CHR 0xE6, CHR 0x88, CHR 0xB7, CHR 0xE4, CHR 0xB8, CHR 0x8D,
     CHR 0xE5, CHR 0x9C, CHR 0xA8, CHR 0xE6, CHR 0x88, CHR 0xBF, CHR 0xE9, CHR 0x97, CHR 0xB4,
     CHR 0xE4, CHR 0xB8, CHR 0xAD]"

definition t_message_sent :: string where \<comment> \<open>the message was sent\<close>
  "t_message_sent =
    [CHR 0xE6, CHR 0xB6, CHR 0x88, CHR 0xE6, CHR 0x81, CHR 0xAF, CHR 0xE5, CHR 0x8F, CHR 0x91,
     CHR 0xE9, CHR 0x80, CHR 0x81, CHR 0xE6, CHR 0x88, CHR 0x90, CHR 0xE5, CHR 0x8A, CHR 0x9F]"

definition t_left_room :: string where \<comment> \<open>the room was left\<close>
  "t_left_room =
    [CHR 0xE7, CHR 0xA6, CHR 0xBB, CHR 0xE5, CHR 0xBC, CHR 0x80, CHR 0xE6, CHR 0x88, CHR 0xBF,
     CHR 0xE9, CHR 0x97, CHR 0xB4, CHR 0xE6, CHR 0x88, CHR 0x90, CHR 0xE5, CHR 0x8A, CHR 0x9F]"

definition t_left_notice :: string where \<comment> \<open>(the user) left the room\<close>
  "t_left_notice =
    [CHR 0x20, CHR 0xE7, CHR 0xA6, CHR 0xBB, CHR 0xE5, CHR 0xBC, CHR 0x80, CHR 0xE4, CHR 0xBA,
     CHR 0x86, CHR 0xE6, CHR 0x88, CHR 0xBF, CHR 0xE9, CHR 0x97, CHR 0xB4]"

definition t_room_full :: string where \<comment> \<open>the room is full\<close>
  "t_room_full =
    [CHR 0xE6, CHR 0x88, CHR 0xBF, CHR 0xE9, CHR 0x97, CHR 0xB4, CHR 0xE5, CHR 0xB7, CHR 0xB2,
     CHR 0xE6, CHR 0xBB, CHR 0xA1]"

definition t_already_in_room :: string where \<comment> \<open>the user is already in the room\<close>
  "t_already_in_room =
    [CHR 0xE7, CHR 0x94, CHR 0xA8, CHR 0xE6, CHR 0x88, CHR 0xB7, CHR 0xE5, CHR 0xB7, CHR 0xB2,
     CHR 0xE5, CHR 0x9C, CHR 0xA8, CHR 0xE6, CHR 0x88, CHR 0xBF, CHR 0xE9, CHR 0x97, CHR 0xB4,
     CHR 0xE4, CHR 0xB8, CHR 0xAD]"

definition t_joined_notice :: string where \<comment> \<open>(the user) joined the room\<close>
  "t_joined_notice =
    [CHR 0x20, CHR 0xE5, CHR 0x8A, CHR 0xA0, CHR 0xE5, CHR 0x85, CHR 0xA5, CHR 0xE4, CHR 0xBA,
     CHR 0x86, CHR 0xE6, CHR 0x88, CHR 0xBF, CHR 0xE9, CHR 0x97, CHR 0xB4]"

definition t_joined_room :: string where \<comment> \<open>the room was joined\<close>
  "t_joined_room =
    [CHR 0xE5, CHR 0x8A, CHR 0xA0, CHR 0xE5, CHR 0x85, CHR 0xA5, CHR 0xE6, CHR 0x88, CHR 0xBF,
     CHR 0xE9, CHR 0x97, CHR 0xB4, CHR 0xE6, CHR 0x88, CHR 0x90, CHR 0xE5, CHR 0x8A, CHR 0x9F]"

definition t_room_created :: string where \<comment> \<open>the room was created\<close>
  "t_room_created =
    [CHR 0xE6, CHR 0x88, CHR 0xBF, CHR 0xE9, CHR 0x97, CHR 0xB4, CHR 0xE5, CHR 0x88, CHR 0x9B,
     CHR 0xE5, CHR 0xBB, CHR 0xBA, CHR 0xE6, CHR 0x88, CHR 0x90, CHR 0xE5, CHR 0x8A, CHR 0x9F]"

definition t_logged_out :: string where \<comment> \<open>logged out\<close>
  "t_logged_out =
    [CHR 0xE7, CHR 0x99, CHR 0xBB, CHR 0xE5, CHR 0x87, CHR 0xBA, CHR 0xE6, CHR 0x88, CHR 0x90,
     CHR 0xE5, CHR 0x8A, CHR 0x9F]"

definition t_logged_in :: string where \<comment> \<open>logged in\<close>
  "t_logged_in =
    [CHR 0xE7, CHR 0x99, CHR 0xBB, CHR 0xE5, CHR 0xBD, CHR 0x95, CHR 0xE6, CHR 0x88, CHR 0x90,
     CHR 0xE5, CHR 0x8A, CHR 0x9F]"

definition t_unknown_type :: string where \<comment> \<open>unknown message type\<close>
  "t_unknown_type =
    [CHR 0xE6, CHR 0x9C, CHR 0xAA, CHR 0xE7, CHR 0x9F, CHR 0xA5, CHR 0xE6, CHR 0xB6, CHR 0x88,
     CHR 0xE6, CHR 0x81, CHR 0xAF, CHR 0xE7, CHR 0xB1, CHR 0xBB, CHR 0xE5, CHR 0x9E, CHR 0x8B]"

definition t_bad_format :: string where \<comment> \<open>invalid message format\<close>
  "t_bad_format =
    [CHR 0xE6, CHR 0x97, CHR 0xA0, CHR 0xE6, CHR 0x95, CHR 0x88, CHR 0xE7, CHR 0x9A, CHR 0x84,
     CHR 0xE6, CHR 0xB6, CHR 0x88, CHR 0xE6, CHR 0x81, CHR 0xAF, CHR 0xE6, CHR 0xA0, CHR 0xBC,
     CHR 0xE5, CHR 0xBC, CHR 0x8F]"

definition t_already_online :: string where \<comment> \<open>the user is already online\<close>
  "t_already_online =
    [CHR 0xE7, CHR 0x94, CHR 0xA8, CHR 0xE6, CHR 0x88, CHR 0xB7, CHR 0xE5, CHR 0xB7, CHR 0xB2,
     CHR 0xE5, CHR 0x9C, CHR 0xA8, CHR 0xE7, CHR 0xBA, CHR 0xBF]"

definition t_login_failed :: string where \<comment> \<open>login failed\<close>
  "t_login_failed =
    [CHR 0xE7, CHR 0x99, CHR 0xBB, CHR 0xE5, CHR 0xBD, CHR 0x95, CHR 0xE5, CHR 0xA4, CHR 0xB1,
     CHR 0xE8, CHR 0xB4, CHR 0xA5]"

definition t_logout_failed :: string where \<comment> \<open>logout failed\<close>
  "t_logout_failed =
    [CHR 0xE7, CHR 0x99, CHR 0xBB, CHR 0xE5, CHR 0x87, CHR 0xBA, CHR 0xE5, CHR 0xA4, CHR 0xB1,
     CHR 0xE8, CHR 0xB4, CHR 0xA5]"

definition t_login_first :: string where \<comment> \<open>log in first\<close>
  "t_login_first =
    [CHR 0xE8, CHR 0xAF, CHR 0xB7, CHR 0xE5, CHR 0x85, CHR 0x88, CHR 0xE7, CHR 0x99, CHR 0xBB,
     CHR 0xE5, CHR 0xBD, CHR 0x95]"

definition t_create_failed :: string where \<comment> \<open>creating the room failed\<close>
  "t_create_failed =
    [CHR 0xE5, CHR 0x88, CHR 0x9B, CHR 0xE5, CHR 0xBB, CHR 0xBA, CHR 0xE6, CHR 0x88, CHR 0xBF,
     CHR 0xE9, CHR 0x97, CHR 0xB4, CHR 0xE5, CHR 0xA4, CHR 0xB1, CHR 0xE8, CHR 0xB4, CHR 0xA5]"

definition t_join_failed :: string where \<comment> \<open>joining the room failed\<close>
  "t_join_failed =
    [CHR 0xE5, CHR 0x8A, CHR 0xA0, CHR 0xE5, CHR 0x85, CHR 0xA5, CHR 0xE6, CHR 0x88, CHR 0xBF,
     CHR 0xE9, CHR 0x97, CHR 0xB4, CHR 0xE5, CHR 0xA4, CHR 0xB1, CHR 0xE8, CHR 0xB4, CHR 0xA5]"

definition t_leave_failed :: string where \<comment> \<open>leaving the room failed\<close>
  "t_leave_failed =
    [CHR 0xE7, CHR 0xA6, CHR 0xBB, CHR 0xE5, CHR 0xBC, CHR 0x80, CHR 0xE6, CHR 0x88, CHR 0xBF,
     CHR 0xE9, CHR 0x97, CHR 0xB4, CHR 0xE5, CHR 0xA4, CHR 0xB1, CHR 0xE8, CHR 0xB4, CHR 0xA5]"

definition t_join_first :: string where \<comment> \<open>join a room first\<close>
  "t_join_first =
    [CHR 0xE8, CHR 0xAF, CHR 0xB7, CHR 0xE5, CHR 0x85, CHR 0x88, CHR 0xE5, CHR 0x8A, CHR 0xA0,
     CHR 0xE5, CHR 0x85, CHR 0xA5, CHR 0xE6, CHR 0x88, CHR 0xBF, CHR 0xE9, CHR 0x97, CHR 0xB4]"

definition t_send_failed :: string where \<comment> \<open>sending the message failed\<close>
  "t_send_failed =
    [CHR 0xE5, CHR 0x8F, CHR 0x91, CHR 0xE9, CHR 0x80, CHR 0x81, CHR 0xE6, CHR 0xB6, CHR 0x88,
     CHR 0xE6, CHR 0x81, CHR 0xAF, CHR 0xE5, CHR 0xA4, CHR 0xB1, CHR 0xE8, CHR 0xB4, CHR 0xA5]"

definition t_users_failed :: string where \<comment> \<open>listing the room's users failed\<close>
  "t_users_failed =
    [CHR 0xE8, CHR 0x8E, CHR 0xB7, CHR 0xE5, CHR 0x8F, CHR 0x96, CHR 0xE6, CHR 0x88, CHR 0xBF,
     CHR 0xE9, CHR 0x97, CHR 0xB4, CHR 0xE7, CHR 0x94, CHR 0xA8, CHR 0xE6, CHR 0x88, CHR 0xB7,
     CHR 0xE5, CHR 0x88, CHR 0x97, CHR 0xE8, CHR 0xA1, CHR 0xA8, CHR 0xE5, CHR 0xA4, CHR 0xB1,
     CHR 0xE8, CHR 0xB4, CHR 0xA5]"

definition t_kv_missing :: string where \<comment> \<open>the KVStore is not initialised\<close>
  "t_kv_missing =
    [CHR 0x4B, CHR 0x56, CHR 0x53, CHR 0x74, CHR 0x6F, CHR 0x72, CHR 0x65, CHR 0xE6, CHR 0x9C,
     CHR 0xAA, CHR 0xE5, CHR 0x88, CHR 0x9D, CHR 0xE5, CHR 0xA7, CHR 0x8B, CHR 0xE5, CHR 0x8C,
     CHR 0x96]"

definition t_key_missing :: string where \<comment> \<open>the parameter key is missing\<close>
  "t_key_missing =
    [CHR 0xE7, CHR 0xBC, CHR 0xBA, CHR 0xE5, CHR 0xB0, CHR 0x91, CHR 0x6B, CHR 0x65, CHR 0x79,
     CHR 0xE5, CHR 0x8F, CHR 0x82, CHR 0xE6, CHR 0x95, CHR 0xB0]"

definition t_key_absent :: string where \<comment> \<open>the key does not exist\<close>
  "t_key_absent =
    [CHR 0x6B, CHR 0x65, CHR 0x79, CHR 0xE4, CHR 0xB8, CHR 0x8D, CHR 0xE5, CHR 0xAD, CHR 0x98,
     CHR 0xE5, CHR 0x9C, CHR 0xA8]"

definition t_name_missing :: string where \<comment> \<open>the parameter name is missing\<close>
  "t_name_missing =
    [CHR 0xE7, CHR 0xBC, CHR 0xBA, CHR 0xE5, CHR 0xB0, CHR 0x91, CHR 0x6E, CHR 0x61, CHR 0x6D,
     CHR 0x65, CHR 0xE5, CHR 0x8F, CHR 0x82, CHR 0xE6, CHR 0x95, CHR 0xB0]"

definition t_members_failed :: string where \<comment> \<open>listing the cluster members failed\<close>
  "t_members_failed =
    [CHR 0xE8, CHR 0x8E, CHR 0xB7, CHR 0xE5, CHR 0x8F, CHR 0x96, CHR 0xE9, CHR 0x9B, CHR 0x86,
     CHR 0xE7, CHR 0xBE, CHR 0xA4, CHR 0xE6, CHR 0x88, CHR 0x90, CHR 0xE5, CHR 0x91, CHR 0x98,
     CHR 0xE5, CHR 0xA4, CHR 0xB1, CHR 0xE8, CHR 0xB4, CHR 0xA5, CHR 0x3A, CHR 0x20]"

definition t_status_failed :: string where \<comment> \<open>reading the cluster status failed\<close>
  "t_status_failed =
    [CHR 0xE8, CHR 0x8E, CHR 0xB7, CHR 0xE5, CHR 0x8F, CHR 0x96, CHR 0xE9, CHR 0x9B, CHR 0x86,
     CHR 0xE7, CHR 0xBE, CHR 0xA4, CHR 0xE7, CHR 0x8A, CHR 0xB6, CHR 0xE6, CHR 0x80, CHR 0x81,
     CHR 0xE5, CHR 0xA4, CHR 0xB1, CHR 0xE8, CHR 0xB4, CHR 0xA5, CHR 0x3A, CHR 0x20]"

lemmas text_defs =
  t_success_def t_not_in_room_def t_message_sent_def t_left_room_def
  t_left_notice_def t_room_full_def t_already_in_room_def t_joined_notice_def
  t_joined_room_def t_room_created_def t_logged_out_def t_logged_in_def
  t_unknown_type_def t_bad_format_def t_already_online_def t_login_failed_def
  t_logout_failed_def t_login_first_def t_create_failed_def t_join_failed_def
  t_leave_failed_def t_join_first_def t_send_failed_def t_users_failed_def
  t_kv_missing_def t_key_missing_def t_key_absent_def t_name_missing_def
  t_members_failed_def t_status_failed_def

end
