(* ===== verification/ChatGrain.thy ===== *)
theory ChatGrain
  imports BaseGrain Texts
begin

text \<open>
  \<^verbatim>\<open>internal/grains/chat_grain.go\<close>: one chat room. The record \<open>chat_grain\<close> extends \<open>base_grain\<close> as the
  struct embeds \<^verbatim>\<open>BaseGrain\<close>; each handler of the source is one function that decodes the request and
  gives the room, the node (registry of rooms, published broadcasts), the response and the error
  code. The environment \<open>chat_env\<close> holds what the code does not decide: the protobuf codec, the
  readings of \<^verbatim>\<open>time.Now()\<close> in the order the handler takes them, and the iteration orders of the two
  maps that are listed. The room's lock is held for a whole handler and the mailbox is sequential, so
  a handler is atomic.
\<close>

section \<open>State\<close>

datatype chat_handler =
    HCreateRoom | HJoinRoom | HLeaveRoom | HSendMessage | HGetRoomInfo | HGetRoomUsers
  | HGetMessages | HGetRoomList

record chat_grain = "chat_handler base_grain" +
  roomName :: string
  creatorId :: int
  creatorName :: string
  maxMembers :: int
  createdAt :: int
  members :: "(int, ChatUserInfo) gomap"
  messages :: "ChatMessage list"

record chat_env =
  codec_of :: codec
  now :: "nat \<Rightarrow> go_time"
  range_users :: "(int, ChatUserInfo) ranger"
  range_rooms :: "(string, ChatRoomInfo) ranger"

definition zero_chat :: chat_grain where
  "zero_chat = base_grain.extend zero_base
     \<lparr>roomName = '''', creatorId = 0, creatorName = '''', maxMembers = 0, createdAt = 0, members = [],
      messages = []\<rparr>"

definition ChatGrain_Init :: "chat_grain \<Rightarrow> chat_grain" where
  "ChatGrain_Init g =
     (let g = g\<lparr>members := [], messages := [], maxMembers := 50\<rparr>;
          g = RegisterMsgHandler MsgId_PChatCreateRoomReq HCreateRoom g;
          g = RegisterMsgHandler MsgId_PChatJoinRoomReq HJoinRoom g;
          g = RegisterMsgHandler MsgId_PChatLeaveRoomReq HLeaveRoom g;
          g = RegisterMsgHandler MsgId_PChatSendMessageReq HSendMessage g;
          g = RegisterMsgHandler MsgId_PChatGetRoomInfoReq HGetRoomInfo g;
          g = RegisterMsgHandler MsgId_PChatGetRoomUsersReq HGetRoomUsers g;
          g = RegisterMsgHandler MsgId_PChatGetMessagesReq HGetMessages g
      in RegisterMsgHandler MsgId_PChatGetRoomListReq HGetRoomList g)"

definition NewChatGrain :: chat_grain where
  "NewChatGrain = ChatGrain_Init zero_chat"

section \<open>Helpers\<close>

text \<open>\<^verbatim>\<open>time.Now().Format("20060102150405.000")\<close>.\<close>

definition generateMsgId :: "go_time \<Rightarrow> string" where
  "generateMsgId t = pad 4 (year t) @ pad 2 (month t) @ pad 2 (day t) @ pad 2 (hour t) @
     pad 2 (minute t) @ pad 2 (second t) @ ''.'' @ pad 3 (milli t)"

definition getUserIdentity :: "int \<Rightarrow> string" where
  "getUserIdentity userId = ''user-'' @ show_int userId"

text \<open>
  \<^verbatim>\<open>g.messages[len(g.messages)-limit:]\<close> panics for a negative \<open>limit\<close>: the slice would start past the
  end.
\<close>

definition getRecentMessages :: "chat_grain \<Rightarrow> int \<Rightarrow> ChatMessage list outcome" where
  "getRecentMessages g limit =
     (if int (length (messages g)) \<le> limit then Ok (messages g)
      else if limit < 0 then Panic IndexOutOfRange
      else Ok (drop (nat (int (length (messages g)) - limit)) (messages g)))"

text \<open>The parameter \<^verbatim>\<open>excludeUserId\<close> of the source is not used there; the error is only logged.\<close>

definition broadcastToMembers :: "chat_env \<Rightarrow> chat_grain \<Rightarrow> proto_msg \<Rightarrow> int \<Rightarrow> node \<Rightarrow> node" where
  "broadcastToMembers e g message excludeUserId w =
     fst (Publish (codec_of e) (gIdentity g) message w)"

definition room_info :: "chat_grain \<Rightarrow> int \<Rightarrow> ChatRoomInfo" where
  "room_info g currentMembers =
     \<lparr>cr_RoomId = gIdentity g, cr_RoomName = roomName g, cr_CreatorName = creatorName g,
      cr_CreatorId = creatorId g, cr_MaxMembers = maxMembers g, cr_CurrentMembers = currentMembers,
      cr_CreatedAt = createdAt g\<rparr>"

definition member_count :: "chat_grain \<Rightarrow> int" where
  "member_count g = i32 (int (mlen (members g)))"

section \<open>Handlers\<close>

text \<open>A page of the list of all rooms; \<^verbatim>\<open>page\<close> and \<^verbatim>\<open>pageSize\<close> are 64-bit.\<close>

definition room_page :: "int \<Rightarrow> int \<Rightarrow> ChatRoomInfo list \<Rightarrow> ChatRoomInfo list" where
  "room_page page pageSize allRooms =
     (let page = (if page \<le> 0 then 1 else page);
          pageSize = (if pageSize \<le> 0 \<or> pageSize > 100 then 50 else pageSize);
          startIdx = i64 ((page - 1) * pageSize)
      in if startIdx \<ge> int (length allRooms) then []
         else (let endIdx = i64 (startIdx + pageSize);
                   endIdx = (if endIdx > int (length allRooms) then int (length allRooms) else endIdx)
               in take (nat endIdx - nat startIdx) (drop (nat startIdx) allRooms)))"

definition ChatGetRoomListReq ::
    "chat_env \<Rightarrow> chat_grain \<Rightarrow> node \<Rightarrow> RpcMsg \<Rightarrow> (chat_grain, unit) handled" where
  "ChatGetRoomListReq e g w inp =
     (case decode (codec_of e) ''ChatGetRoomListReq'' inp of
        Some (proto_msg.ChatGetRoomListReq page pageSize) \<Rightarrow>
          (let allRooms = GetAllRooms (range_rooms e) (roomReg w);
               total = i32 (int (length allRooms))
           in Ok (g, w, Some (ChatGetRoomListResp ErrorCode_OK t_success
                (room_page page pageSize allRooms) total), ErrorCode_OK))
      | _ \<Rightarrow> Ok (g, w, None, ErrorCode_DeSerializeError))"

definition ChatGetMessagesReq ::
    "chat_env \<Rightarrow> chat_grain \<Rightarrow> node \<Rightarrow> RpcMsg \<Rightarrow> (chat_grain, unit) handled" where
  "ChatGetMessagesReq e g w inp =
     (case decode (codec_of e) ''ChatGetMessagesReq'' inp of
        Some (proto_msg.ChatGetMessagesReq roomId limit beforeTimestamp) \<Rightarrow>
          (let limit = (if limit \<le> 0 \<or> limit > 50 then 20 else limit)
           in obind (getRecentMessages g limit)
             (\<lambda>ms. Ok (g, w, Some (ChatGetMessagesResp ErrorCode_OK t_success ms), ErrorCode_OK)))
      | _ \<Rightarrow> Ok (g, w, None, ErrorCode_DeSerializeError))"

definition ChatGetRoomUsersReq ::
    "chat_env \<Rightarrow> chat_grain \<Rightarrow> node \<Rightarrow> RpcMsg \<Rightarrow> (chat_grain, unit) handled" where
  "ChatGetRoomUsersReq e g w inp =
     (case decode (codec_of e) ''ChatGetRoomUsersReq'' inp of
        Some (proto_msg.ChatGetRoomUsersReq roomId) \<Rightarrow>
          Ok (g, w, Some (ChatGetRoomUsersResp ErrorCode_OK t_success
            (map snd (range_users e (members g)))), ErrorCode_OK)
      | _ \<Rightarrow> Ok (g, w, None, ErrorCode_DeSerializeError))"

definition ChatGetRoomInfoReq ::
    "chat_env \<Rightarrow> chat_grain \<Rightarrow> node \<Rightarrow> RpcMsg \<Rightarrow> (chat_grain, unit) handled" where
  "ChatGetRoomInfoReq e g w inp =
     (case decode (codec_of e) ''ChatGetRoomInfoReq'' inp of
        Some (proto_msg.ChatGetRoomInfoReq roomId) \<Rightarrow>
          Ok (g, w, Some (ChatGetRoomInfoResp ErrorCode_OK t_success
            (Some (room_info g (member_count g)))), ErrorCode_OK)
      | _ \<Rightarrow> Ok (g, w, None, ErrorCode_DeSerializeError))"

definition ChatSendMessageReq ::
    "chat_env \<Rightarrow> chat_grain \<Rightarrow> node \<Rightarrow> RpcMsg \<Rightarrow> (chat_grain, unit) handled" where
  "ChatSendMessageReq e g w inp =
     (case decode (codec_of e) ''ChatSendMessageReq'' inp of
        Some (proto_msg.ChatSendMessageReq roomId senderId senderName content type) \<Rightarrow>
          if \<not> mhas (members g) senderId
          then Ok (g, w, Some (ChatSendMessageResp ErrorCode_OK t_not_in_room None), ErrorCode_OK)
          else
            (let chatMsg = \<lparr>cm_MsgId = generateMsgId (now e 0), cm_SenderId = senderId,
                   cm_SenderName = senderName, cm_RoomId = gIdentity g, cm_Type = type,
                   cm_Content = content, cm_Timestamp = unixMilli (now e 1)\<rparr>;
                 g = g\<lparr>messages := messages g @ [chatMsg]\<rparr>;
                 w = broadcastToMembers e g (proto_msg.ChatUserMessage (Some chatMsg)) 0 w;
                 g = (if length (messages g) > 100
                      then g\<lparr>messages := drop (length (messages g) - 100) (messages g)\<rparr> else g)
             in Ok (g, w, Some (ChatSendMessageResp ErrorCode_OK t_message_sent (Some chatMsg)),
                  ErrorCode_OK))
      | _ \<Rightarrow> Ok (g, w, None, ErrorCode_DeSerializeError))"

definition ChatLeaveRoomReq ::
    "chat_env \<Rightarrow> chat_grain \<Rightarrow> node \<Rightarrow> RpcMsg \<Rightarrow> (chat_grain, unit) handled" where
  "ChatLeaveRoomReq e g w inp =
     (case decode (codec_of e) ''ChatLeaveRoomReq'' inp of
        Some (proto_msg.ChatLeaveRoomReq roomId userId username) \<Rightarrow>
          if \<not> mhas (members g) userId
          then Ok (g, w, Some (ChatLeaveRoomResp ErrorCode_OK t_not_in_room), ErrorCode_OK)
          else
            (let g = g\<lparr>members := mdel userId (members g)\<rparr>;
                 systemMsg = \<lparr>cm_MsgId = generateMsgId (now e 0), cm_SenderId = 0,
                   cm_SenderName = ''System'', cm_RoomId = gIdentity g, cm_Type = ChatMsgType_LEAVE,
                   cm_Content = username @ t_left_notice, cm_Timestamp = unixMilli (now e 1)\<rparr>;
                 g = g\<lparr>messages := messages g @ [systemMsg]\<rparr>;
                 w = w\<lparr>roomReg := UpdateRoomMembers (gIdentity g) (member_count g) (roomReg w)\<rparr>
             in Ok (g, w, Some (ChatLeaveRoomResp ErrorCode_OK t_left_room), ErrorCode_OK))
      | _ \<Rightarrow> Ok (g, w, None, ErrorCode_DeSerializeError))"

definition ChatJoinRoomReq ::
    "chat_env \<Rightarrow> chat_grain \<Rightarrow> node \<Rightarrow> RpcMsg \<Rightarrow> (chat_grain, unit) handled" where
  "ChatJoinRoomReq e g w inp =
     (case decode (codec_of e) ''ChatJoinRoomReq'' inp of
        Some (proto_msg.ChatJoinRoomReq roomId userId username) \<Rightarrow>
          if member_count g \<ge> maxMembers g
          then Ok (g, w, Some (ChatJoinRoomResp ErrorCode_RoomFull t_room_full None []), ErrorCode_RoomFull)
          else if mhas (members g) userId
          then Ok (g, w, Some (ChatJoinRoomResp ErrorCode_OK t_already_in_room
            (Some (room_info g (member_count g))) []), ErrorCode_OK)
          else
            (let userInfo = \<lparr>cu_UserId = userId, cu_Username = username, cu_IsOnline = True,
                   cu_CurrentRoomId = gIdentity g, cu_LoginTime = unixMilli (now e 0)\<rparr>;
                 g = g\<lparr>members := mput userId userInfo (members g)\<rparr>;
                 systemMsg = \<lparr>cm_MsgId = generateMsgId (now e 1), cm_SenderId = 0,
                   cm_SenderName = ''System'', cm_RoomId = gIdentity g, cm_Type = ChatMsgType_JOIN,
                   cm_Content = username @ t_joined_notice, cm_Timestamp = unixMilli (now e 2)\<rparr>;
                 g = g\<lparr>messages := messages g @ [systemMsg]\<rparr>
             in obind (getRecentMessages g 20) (\<lambda>recentMessages.
                  Ok (g, w, Some (ChatJoinRoomResp ErrorCode_OK t_joined_room
                    (Some (room_info g (member_count g))) recentMessages), ErrorCode_OK)))
      | _ \<Rightarrow> Ok (g, w, None, ErrorCode_DeSerializeError))"

text \<open>The request's \<^verbatim>\<open>MaxMembers\<close> is an \<^verbatim>\<open>int32\<close>.\<close>

definition ChatCreateRoomReq ::
    "chat_env \<Rightarrow> chat_grain \<Rightarrow> node \<Rightarrow> RpcMsg \<Rightarrow> (chat_grain, unit) handled" where
  "ChatCreateRoomReq e g w inp =
     (case decode (codec_of e) ''ChatCreateRoomReq'' inp of
        Some (proto_msg.ChatCreateRoomReq name creator creatorname maxm) \<Rightarrow>
          (let g = g\<lparr>roomName := name, creatorId := creator, creatorName := creatorname\<rparr>;
               g = (if i32 maxm > 0 then g\<lparr>maxMembers := i32 maxm\<rparr> else g);
               g = g\<lparr>createdAt := unixMilli (now e 0)\<rparr>;
               roomInfo = room_info g 0;
               w = w\<lparr>roomReg := RegisterRoom roomInfo (roomReg w)\<rparr>
           in Ok (g, w, Some (ChatCreateRoomResp ErrorCode_OK t_room_created (Some roomInfo)),
                ErrorCode_OK))
      | _ \<Rightarrow> Ok (g, w, None, ErrorCode_DeSerializeError))"

primrec chat_invoke ::
    "chat_env \<Rightarrow> chat_handler \<Rightarrow> chat_grain \<Rightarrow> node \<Rightarrow> RpcMsg \<Rightarrow> (chat_grain, unit) handled" where
  "chat_invoke e HCreateRoom = ChatCreateRoomReq e"
| "chat_invoke e HJoinRoom = ChatJoinRoomReq e"
| "chat_invoke e HLeaveRoom = ChatLeaveRoomReq e"
| "chat_invoke e HSendMessage = ChatSendMessageReq e"
| "chat_invoke e HGetRoomInfo = ChatGetRoomInfoReq e"
| "chat_invoke e HGetRoomUsers = ChatGetRoomUsersReq e"
| "chat_invoke e HGetMessages = ChatGetMessagesReq e"
| "chat_invoke e HGetRoomList = ChatGetRoomListReq e"

lemmas chat_handlers [handler_defs] =
  ChatCreateRoomReq_def ChatJoinRoomReq_def ChatLeaveRoomReq_def ChatSendMessageReq_def
  ChatGetRoomInfoReq_def ChatGetRoomUsersReq_def ChatGetMessagesReq_def ChatGetRoomListReq_def

end
