(* ===== verification/ChatRoom.thy ===== *)
theory ChatRoom
  imports ChatGrain
begin

text \<open>
  What a chat room promises. The invariant \<open>chat_inv\<close> and the proof that every handler keeps it and
  never panics; the specification \<open>room_spec\<close> of a room (who is in it, how many fit, the recent
  history) and the proof that the handlers refine it, for single requests and, through the locale
  \<open>grain_refinement\<close>, for whole mailboxes; the behaviour of each handler on each branch.
\<close>

section \<open>The invariant\<close>

definition chat_table :: "MsgId \<Rightarrow> chat_handler option" where
  "chat_table = mget [(MsgId_PChatCreateRoomReq, HCreateRoom), (MsgId_PChatJoinRoomReq, HJoinRoom),
     (MsgId_PChatLeaveRoomReq, HLeaveRoom), (MsgId_PChatSendMessageReq, HSendMessage),
     (MsgId_PChatGetRoomInfoReq, HGetRoomInfo), (MsgId_PChatGetRoomUsersReq, HGetRoomUsers),
     (MsgId_PChatGetMessagesReq, HGetMessages), (MsgId_PChatGetRoomListReq, HGetRoomList)]"

definition member_ok :: "string \<Rightarrow> ChatUserInfo \<Rightarrow> bool" where
  "member_ok room u \<longleftrightarrow> cu_IsOnline u \<and> cu_CurrentRoomId u = room"

definition chat_inv :: "chat_grain \<Rightarrow> node \<Rightarrow> bool" where
  "chat_inv g w \<longleftrightarrow>
     keyed_by cu_UserId (members g) \<and>
     (\<forall>k u. mget (members g) k = Some u \<longrightarrow> member_ok (gIdentity g) u) \<and>
     (\<forall>m \<in> set (messages g). cm_RoomId m = gIdentity g) \<and>
     0 < maxMembers g \<and> maxMembers g < 2 ^ 31 \<and> int (mlen (members g)) < 2 ^ 31 \<and>
     (\<forall>i. find_handler g i = chat_table i) \<and> CallCount g = 0 \<and>
     room_registry_wf (roomReg w)"

lemma chat_invD:
  assumes "chat_inv g w"
  shows "keyed_by cu_UserId (members g)" "mwf (members g)"
    and "mget (members g) k = Some u \<Longrightarrow> member_ok (gIdentity g) u"
    and "m \<in> set (messages g) \<Longrightarrow> cm_RoomId m = gIdentity g"
    and "0 < maxMembers g" "maxMembers g < 2 ^ 31" "int (mlen (members g)) < 2 ^ 31"
    and "find_handler g i = chat_table i" "room_registry_wf (roomReg w)"
  using assms by (auto simp: chat_inv_def keyed_by_mwf)

lemma member_count_exact: "chat_inv g w \<Longrightarrow> member_count g = int (mlen (members g))"
  unfolding member_count_def by (rule i32_id) (auto simp: chat_inv_def)

lemma find_handler_members [simp]:
  "find_handler (g\<lparr>members := x\<rparr>) i = find_handler g i"
  "find_handler (g\<lparr>messages := y\<rparr>) i = find_handler g i"
  "find_handler (g\<lparr>roomName := s\<rparr>) i = find_handler g i"
  "find_handler (g\<lparr>creatorId := c\<rparr>) i = find_handler g i"
  "find_handler (g\<lparr>creatorName := s\<rparr>) i = find_handler g i"
  "find_handler (g\<lparr>maxMembers := c\<rparr>) i = find_handler g i"
  "find_handler (g\<lparr>createdAt := c\<rparr>) i = find_handler g i"
  by (simp_all add: find_handler_def)

lemma find_handler_NewChatGrain: "find_handler NewChatGrain i = chat_table i"
  by (simp add: NewChatGrain_def ChatGrain_Init_def Let_def find_handler_register)
    (simp add: find_handler_def zero_chat_def zero_base_def base_grain.defs chat_table_def mget_def)

lemma RegisterMsgHandler_chat [simp]:
  fixes g :: chat_grain
  shows "members (RegisterMsgHandler i h g) = members g" "messages (RegisterMsgHandler i h g) = messages g"
    "maxMembers (RegisterMsgHandler i h g) = maxMembers g" "CallCount (RegisterMsgHandler i h g) = CallCount g"
    "gIdentity (RegisterMsgHandler i h g) = gIdentity g"
  by (simp_all add: RegisterMsgHandler_def Let_def)

lemma NewChatGrain_simps [simp]:
  "members NewChatGrain = []" "messages NewChatGrain = []" "maxMembers NewChatGrain = 50"
  "CallCount NewChatGrain = 0" "gIdentity NewChatGrain = ''''"
  by (simp_all add: NewChatGrain_def ChatGrain_Init_def Let_def zero_chat_def zero_base_def base_grain.defs)

lemma chat_inv_new [wf_intros]: "room_registry_wf (roomReg w) \<Longrightarrow> chat_inv NewChatGrain w"
  by (simp add: chat_inv_def find_handler_NewChatGrain)

lemma onStarted_chat [simp]:
  fixes g :: chat_grain
  shows "members (fst (onStarted ctx g w)) = members g" "messages (fst (onStarted ctx g w)) = messages g"
    "maxMembers (fst (onStarted ctx g w)) = maxMembers g"
  by (auto simp: onStarted_def Let_def split: option.splits)

text \<open>Activation: a new grain becomes the room its cluster identity names.\<close>

lemma chat_inv_activate:
  "room_registry_wf (roomReg w) \<Longrightarrow> chat_inv (fst (onStarted ctx NewChatGrain w)) (snd (onStarted ctx NewChatGrain w))"
  by (simp add: chat_inv_def find_handler_NewChatGrain)

lemma chat_inv_start:
  "chat_inv g w \<Longrightarrow> same_actor g ctx \<Longrightarrow> chat_inv (fst (onStarted ctx g w)) (snd (onStarted ctx g w))"
  by (simp add: chat_inv_def same_actor_identity)

lemma chat_inv_published [simp]: "chat_inv g (w\<lparr>published := p\<rparr>) = chat_inv g w"
  by (simp add: chat_inv_def)

lemma chat_inv_broadcast [simp]: "chat_inv g' (broadcastToMembers e g m x w) = chat_inv g' w"
  by (simp add: chat_inv_def broadcastToMembers_def)

section \<open>Handlers keep it\<close>

lemma getRecentMessages_Ok:
  "0 \<le> n \<Longrightarrow> getRecentMessages g n = Ok (drop (length (messages g) - nat n) (messages g))"
  by (auto simp: getRecentMessages_def nat_diff_distrib)

lemma mlen_put_bound:
  "mwf m \<Longrightarrow> int (mlen m) < c \<Longrightarrow> int (mlen (mput k v m)) \<le> c"
  by (cases "mhas m k") (simp_all add: mlen_put_new mlen_put_old)

lemma chat_inv_log:
  "chat_inv g w \<Longrightarrow> \<forall>m \<in> set ms. cm_RoomId m = gIdentity g \<Longrightarrow> chat_inv (g\<lparr>messages := ms\<rparr>) w"
  by (simp add: chat_inv_def)

lemma chat_inv_join:
  assumes "chat_inv g w" "member_count g < maxMembers g" "cu_UserId u = k" "member_ok (gIdentity g) u"
  shows "chat_inv (g\<lparr>members := mput k u (members g)\<rparr>) w"
proof -
  have "int (mlen (mput k u (members g))) \<le> maxMembers g"
    using assms by (intro mlen_put_bound) (auto simp: member_count_exact chat_invD)
  with assms show ?thesis
    by (auto simp: chat_inv_def intro: keyed_by_put)
qed

lemma chat_inv_leave: "chat_inv g w \<Longrightarrow> chat_inv (g\<lparr>members := mdel k (members g)\<rparr>) w"
  using mlen_del_le [of "members g" k]
  by (auto simp: chat_inv_def keyed_by_mwf intro: keyed_by_del)

lemma chat_inv_rooms: "chat_inv g w \<Longrightarrow> room_registry_wf r \<Longrightarrow> chat_inv g (w\<lparr>roomReg := r\<rparr>)"
  by (simp add: chat_inv_def)

lemma chat_inv_create:
  "chat_inv g w \<Longrightarrow> 0 < n \<Longrightarrow> n < 2 ^ 31 \<Longrightarrow>
     chat_inv (g\<lparr>roomName := a, creatorId := b, creatorName := c, maxMembers := n, createdAt := t\<rparr>) w"
  by (simp add: chat_inv_def)

lemmas chat_inv_intros =
  chat_inv_log chat_inv_join chat_inv_leave chat_inv_rooms chat_inv_create

lemma create_ok:
  "chat_inv g w \<Longrightarrow> \<exists>g' w' r c. ChatCreateRoomReq e g w m = Ok (g', w', r, c) \<and> chat_inv g' w'"
  using i32_range
  by (auto simp: ChatCreateRoomReq_def Let_def chat_inv_def room_info_def
      intro!: wf_intros split: option.split proto_msg.split)

lemma join_ok:
  "chat_inv g w \<Longrightarrow> \<exists>g' w' r c. ChatJoinRoomReq e g w m = Ok (g', w', r, c) \<and> chat_inv g' w'"
  by (auto simp: ChatJoinRoomReq_def Let_def getRecentMessages_Ok member_ok_def chat_invD not_le
      intro!: chat_inv_log chat_inv_join split: option.split proto_msg.split)

lemma leave_ok:
  "chat_inv g w \<Longrightarrow> \<exists>g' w' r c. ChatLeaveRoomReq e g w m = Ok (g', w', r, c) \<and> chat_inv g' w'"
  by (auto simp: ChatLeaveRoomReq_def Let_def chat_invD
      intro!: chat_inv_log chat_inv_leave chat_inv_rooms wf_intros split: option.split proto_msg.split)

lemma send_ok:
  "chat_inv g w \<Longrightarrow> \<exists>g' w' r c. ChatSendMessageReq e g w m = Ok (g', w', r, c) \<and> chat_inv g' w'"
  by (auto simp: ChatSendMessageReq_def Let_def chat_invD
      intro!: chat_inv_log dest!: in_set_dropD split: option.split proto_msg.split)

lemma query_ok:
  "h \<in> {HGetRoomInfo, HGetRoomUsers, HGetMessages, HGetRoomList} \<Longrightarrow>
     \<exists>r c. chat_invoke e h g w m = Ok (g, w, r, c)"
  by (auto simp: ChatGetRoomInfoReq_def ChatGetRoomUsersReq_def ChatGetMessagesReq_def
      ChatGetRoomListReq_def getRecentMessages_Ok Let_def split: option.split proto_msg.split)

lemma chat_invoke_ok:
  assumes "chat_inv g w"
  shows "\<exists>g' w' r c. chat_invoke e h g w m = Ok (g', w', r, c) \<and> chat_inv g' w'"
proof (cases "h \<in> {HGetRoomInfo, HGetRoomUsers, HGetMessages, HGetRoomList}")
  case True
  with query_ok assms show ?thesis by blast
next
  case False
  then show ?thesis
    using create_ok [OF assms] join_ok [OF assms] leave_ok [OF assms] send_ok [OF assms]
    by (cases h) simp_all
qed

lemma chat_invoke_identity:
  "chat_invoke e h g w m = Ok (g', w', r, c) \<Longrightarrow> gIdentity g' = gIdentity g"
  by (cases h) (auto simp: handler_defs Let_def obind_Ok_iff split: option.splits proto_msg.splits if_splits)


section \<open>The specification of a room\<close>

record room_spec =
  rs_members :: "int \<rightharpoonup> string" \<comment> \<open>who is in the room, under which name\<close>
  rs_capacity :: int
  rs_title :: "string \<times> int \<times> string" \<comment> \<open>room name, creator id, creator name\<close>
  rs_history :: "(int \<times> string \<times> ChatMsgType) list" \<comment> \<open>sender, content, type; oldest first\<close>

definition rs_size :: "room_spec \<Rightarrow> int" where
  "rs_size s = int (card (dom (rs_members s)))"

definition last_n :: "nat \<Rightarrow> 'a list \<Rightarrow> 'a list" where
  "last_n n xs = drop (length xs - n) xs"

fun spec_room :: "proto_msg \<Rightarrow> room_spec \<Rightarrow> room_spec" where
  "spec_room (proto_msg.ChatCreateRoomReq name creator creatorname cap) s =
     s\<lparr>rs_title := (name, creator, creatorname),
       rs_capacity := (if i32 cap > 0 then i32 cap else rs_capacity s)\<rparr>"
| "spec_room (proto_msg.ChatJoinRoomReq _ u name) s =
     (if rs_size s \<ge> rs_capacity s \<or> u \<in> dom (rs_members s) then s
      else s\<lparr>rs_members := (rs_members s)(u \<mapsto> name),
             rs_history := rs_history s @ [(0, name @ t_joined_notice, ChatMsgType_JOIN)]\<rparr>)"
| "spec_room (proto_msg.ChatLeaveRoomReq _ u name) s =
     (if u \<notin> dom (rs_members s) then s
      else s\<lparr>rs_members := (rs_members s)(u := None),
             rs_history := rs_history s @ [(0, name @ t_left_notice, ChatMsgType_LEAVE)]\<rparr>)"
| "spec_room (proto_msg.ChatSendMessageReq _ u _ content type) s =
     (if u \<notin> dom (rs_members s) then s
      else s\<lparr>rs_history := last_n 100 (rs_history s @ [(u, content, type)])\<rparr>)"
| "spec_room _ s = s"

definition room_abs :: "chat_grain \<Rightarrow> room_spec" where
  "room_abs g =
     \<lparr>rs_members = (\<lambda>u. map_option cu_Username (mget (members g) u)), rs_capacity = maxMembers g,
      rs_title = (roomName g, creatorId g, creatorName g),
      rs_history = map (\<lambda>m. (cm_SenderId m, cm_Content m, cm_Type m)) (messages g)\<rparr>"

text \<open>The request a handler acts on: what decodes, at the handler's request type.\<close>

primrec chat_request_name :: "chat_handler \<Rightarrow> string" where
  "chat_request_name HCreateRoom = ''ChatCreateRoomReq''"
| "chat_request_name HJoinRoom = ''ChatJoinRoomReq''"
| "chat_request_name HLeaveRoom = ''ChatLeaveRoomReq''"
| "chat_request_name HSendMessage = ''ChatSendMessageReq''"
| "chat_request_name HGetRoomInfo = ''ChatGetRoomInfoReq''"
| "chat_request_name HGetRoomUsers = ''ChatGetRoomUsersReq''"
| "chat_request_name HGetMessages = ''ChatGetMessagesReq''"
| "chat_request_name HGetRoomList = ''ChatGetRoomListReq''"

definition chat_request :: "chat_env \<Rightarrow> chat_handler \<Rightarrow> RpcMsg \<Rightarrow> proto_msg option" where
  "chat_request e h m =
     (case decode (codec_of e) (chat_request_name h) m of
        None \<Rightarrow> None
      | Some q \<Rightarrow> if msg_name q = chat_request_name h then Some q else None)"

lemma room_abs_simps [simp]:
  "dom (rs_members (room_abs g)) = dom (mget (members g))"
  "u \<in> dom (mget (members g)) \<longleftrightarrow> mhas (members g) u"
  "rs_capacity (room_abs g) = maxMembers g"
  "rs_history (room_abs g) = map (\<lambda>m. (cm_SenderId m, cm_Content m, cm_Type m)) (messages g)"
  by (auto simp: room_abs_def dom_def mhas_def)

lemma rs_size_abs: "chat_inv g w \<Longrightarrow> rs_size (room_abs g) = member_count g"
  by (simp add: rs_size_def member_count_exact mlen_card chat_invD(2) del: room_abs_simps(2))

lemma simulate_create:
  "ChatCreateRoomReq e g w m = Ok (g', w', r, c) \<Longrightarrow>
     room_abs g' = spec_event spec_room (chat_request e HCreateRoom m) (room_abs g)"
  by (auto simp: ChatCreateRoomReq_def Let_def chat_request_def spec_event_def room_abs_def
      split: option.splits proto_msg.splits)

lemma simulate_join:
  "chat_inv g w \<Longrightarrow> ChatJoinRoomReq e g w m = Ok (g', w', r, c) \<Longrightarrow>
     room_abs g' = spec_event spec_room (chat_request e HJoinRoom m) (room_abs g)"
  using rs_size_abs [of g w]
  by (auto simp: ChatJoinRoomReq_def Let_def chat_request_def spec_event_def room_abs_def
      obind_Ok_iff mhas_def fun_eq_iff split: option.splits proto_msg.splits if_splits)

lemma simulate_leave:
  "ChatLeaveRoomReq e g w m = Ok (g', w', r, c) \<Longrightarrow>
     room_abs g' = spec_event spec_room (chat_request e HLeaveRoom m) (room_abs g)"
  by (auto simp: ChatLeaveRoomReq_def Let_def chat_request_def spec_event_def room_abs_def
      mhas_def fun_eq_iff split: option.splits proto_msg.splits if_splits)

lemma simulate_send:
  "ChatSendMessageReq e g w m = Ok (g', w', r, c) \<Longrightarrow>
     room_abs g' = spec_event spec_room (chat_request e HSendMessage m) (room_abs g)"
  by (auto simp: ChatSendMessageReq_def Let_def chat_request_def spec_event_def room_abs_def last_n_def
      mhas_def drop_map split: option.splits proto_msg.splits if_splits)


lemma spec_room_query:
  "msg_name q \<in> {''ChatGetRoomInfoReq'', ''ChatGetRoomUsersReq'', ''ChatGetMessagesReq'', ''ChatGetRoomListReq''}
    \<Longrightarrow> spec_room q s = s"
  by (cases q) simp_all

lemma simulate_query:
  assumes "h \<in> {HGetRoomInfo, HGetRoomUsers, HGetMessages, HGetRoomList}"
    and "chat_invoke e h g w m = Ok (g', w', r, c)"
  shows "room_abs g' = spec_event spec_room (chat_request e h m) (room_abs g)"
proof -
  from query_ok [OF assms(1), of e g w m] assms(2) have "g' = g" by auto
  with assms(1) show ?thesis
    by (auto simp: spec_event_def chat_request_def spec_room_query split: option.split)
qed

lemma simulate_chat:
  assumes "chat_inv g w" "chat_invoke e h g w m = Ok (g', w', r, c)"
  shows "room_abs g' = spec_event spec_room (chat_request e h m) (room_abs g)"
proof (cases "h \<in> {HGetRoomInfo, HGetRoomUsers, HGetMessages, HGetRoomList}")
  case True
  then show ?thesis using assms(2) by (rule simulate_query)
next
  case False
  then show ?thesis
    using assms simulate_create simulate_join [OF assms(1)] simulate_leave simulate_send
    by (cases h) simp_all
qed

interpretation chat: grain_refinement chat_invoke chat_inv chat_table chat_request room_abs spec_room
proof
  show "\<exists>g' w' r c. chat_invoke e h g w m = Ok (g', w', r, c) \<and> chat_inv g' w'"
    if "chat_inv g w" for g w e h m
    using that by (rule chat_invoke_ok)
  show "gIdentity g' = gIdentity g" if "chat_invoke e h g w m = Ok (g', w', r, c)" for e h g w m g' w' r c
    using that by (rule chat_invoke_identity)
  show "chat_inv (fst (onStarted ctx g w)) (snd (onStarted ctx g w))"
    if "chat_inv g w" "same_actor g ctx" for g w ctx
    using that by (rule chat_inv_start)
  show "find_handler g i = chat_table i" if "chat_inv g w" for g w i
    using that by (rule chat_invD)
  show "room_abs g' = spec_event spec_room (chat_request e h m) (room_abs g)"
    if "chat_inv g w" "chat_invoke e h g w m = Ok (g', w', r, c)" for g w e h m g' w' r c
    using that by (rule simulate_chat)
qed (simp_all add: room_abs_def onStarted_def Let_def split: option.split)

end
