(* ===== verification/Samples.thy ===== *)
theory Samples
  imports ChatRoom
begin

text \<open>
  Concrete inputs. \<open>table_codec ms\<close> is a codec that works: it writes a message of the table \<open>ms\<close> as its
  position and reads it back at the message's own type. With it, a clock and an iteration order, the
  hypotheses of the properties hold on rooms and users that are really built from the model.
\<close>

fun index_of :: "'a list \<Rightarrow> 'a \<Rightarrow> nat option" where
  "index_of [] x = None"
| "index_of (y # ys) x = (if x = y then Some 0 else map_option Suc (index_of ys x))"

definition table_codec :: "proto_msg list \<Rightarrow> codec" where
  "table_codec ms =
     \<lparr>marshal = \<lambda>m. map_option (\<lambda>i. [word_of_nat i]) (index_of ms m),
      unmarshal = \<lambda>n b. (case b of
          [i] \<Rightarrow> if unat i < length ms \<and> msg_name (ms ! unat i) = n then Some (ms ! unat i) else None
        | _ \<Rightarrow> None)\<rparr>"

lemma index_of_Some: "index_of ms m = Some i \<Longrightarrow> i < length ms \<and> ms ! i = m"
  by (induction ms arbitrary: i) (auto split: if_splits)

text \<open>The table codec meets the one assumption made about codecs, for every message it can write.\<close>

lemma table_codec_rt:
  assumes "index_of ms m = Some i" "length ms \<le> 256"
  shows "codec_rt (table_codec ms) m"
proof -
  from index_of_Some [OF assms(1)] assms(2) have "unat (word_of_nat i :: 8 word) = i"
    by (simp add: unat_of_nat take_bit_nat_eq_self)
  with assms index_of_Some [OF assms(1)] show ?thesis
    by (simp add: codec_rt_def table_codec_def)
qed

definition noon :: go_time where
  "noon = \<lparr>unixMilli = 1700000000123, year = 2023, month = 11, day = 14, hour = 22, minute = 13,
     second = 20, milli = 123\<rparr>"

definition sample_env :: "proto_msg list \<Rightarrow> chat_env" where
  "sample_env ms = \<lparr>codec_of = table_codec ms, now = (\<lambda>_. noon), range_users = (\<lambda>m. m), range_rooms = (\<lambda>m. m)\<rparr>"

text \<open>The envelope that carries the \<open>i\<close>-th message of the table to the room.\<close>

definition sample_rpc :: "proto_msg list \<Rightarrow> nat \<Rightarrow> RpcMsg" where
  "sample_rpc ms i = \<lparr>Kind = ''chat'', Identity = ''lobby'', TraceID = '''', Name = ''call'', Code = 0,
     MsgId = msg_id (ms ! i), Data = Some [word_of_nat i]\<rparr>"

definition lobby_ctx :: actor_ctx where
  "lobby_ctx = \<lparr>selfId = ''partition/lobby'', clusterIdentity = Some (''chat'', ''lobby'')\<rparr>"

definition lobby :: chat_grain where
  "lobby = fst (onStarted lobby_ctx NewChatGrain new_node)"

definition ann :: ChatUserInfo where
  "ann = \<lparr>cu_UserId = 7, cu_Username = ''ann'', cu_IsOnline = True, cu_CurrentRoomId = ''lobby'', cu_LoginTime = 1\<rparr>"

text \<open>The lobby with one member.\<close>

definition lobby_ann :: chat_grain where
  "lobby_ann = lobby\<lparr>members := [(7, ann)]\<rparr>"

lemma sample_env_simps [simp]:
  "codec_of (sample_env ms) = table_codec ms" "now (sample_env ms) = (\<lambda>_. noon)"
  "range_users (sample_env ms) m = m" "range_rooms (sample_env ms) r = r"
  by (simp_all add: sample_env_def)

lemma sample_decode:
  assumes "i < length ms" "length ms \<le> 256"
  shows "decode (table_codec ms) n (sample_rpc ms i) = (if msg_name (ms ! i) = n then Some (ms ! i) else None)"
proof -
  from assms have "unat (word_of_nat i :: 8 word) = i"
    by (simp add: unat_of_nat take_bit_nat_eq_self)
  with assms show ?thesis
    by (simp add: decode_def sample_rpc_def table_codec_def)
qed

lemma new_node_rooms [simp]: "roomReg new_node = []" "published new_node = []"
  by (simp_all add: new_node_def NewRoomRegistry_def)

lemma chat_inv_lobby: "chat_inv lobby new_node"
  by (simp add: lobby_def chat_inv_def find_handler_NewChatGrain new_node_def wf_intros)

lemma lobby_simps [simp]:
  "members lobby = []" "messages lobby = []" "maxMembers lobby = 50" "gIdentity lobby = ''lobby''"
  "gKind lobby = ''chat''"
  by (simp_all add: lobby_def) (simp_all add: onStarted_cluster lobby_ctx_def)

lemma lobby_ann_simps [simp]:
  "members lobby_ann = [(7, ann)]" "messages lobby_ann = []" "maxMembers lobby_ann = 50"
  "gIdentity lobby_ann = ''lobby''"
  by (simp_all add: lobby_ann_def)

lemma chat_inv_lobby_ann: "chat_inv lobby_ann new_node"
  using chat_inv_lobby
  by (auto simp: chat_inv_def keyed_by_def lobby_ann_def member_ok_def ann_def mget_def mwf_def mlen_def)

lemma same_actor_lobby [simp]: "same_actor lobby lobby_ctx" "same_actor lobby_ann lobby_ctx"
  by (simp_all add: same_actor_def lobby_ctx_def)

end
