(* ===== verification/ChatProps.thy ===== *)
theory ChatProps
  imports Samples
begin

text \<open>
  The properties of chat rooms: safety and refinement of whole mailboxes, the capacity of a room, who
  may broadcast and where, the effect of joining, leaving and sending, the recent history, the room
  list and message ids.
\<close>

section \<open>Whole mailboxes\<close>

text \<open>C8: A room that was just activated handles every sequence of messages, whatever the payloads
  and the codec: no handler panics, every envelope gets exactly one reply, and afterwards each member
  is stored under its own id as an online user of this room, every message of the history belongs to
  the room, the capacity is positive, and the handler table is the one that was registered.\<close>

theorem room_mailbox_safe:
  assumes "room_registry_wf (roomReg w)"
    and "g = fst (onStarted ctx NewChatGrain w)" and "w1 = snd (onStarted ctx NewChatGrain w)"
    and "\<forall>(e, c, am) \<in> set ms. same_actor g c"
  shows "\<exists>g' w' rs. mailbox codec_of chat_invoke ms g w1 = Ok (g', w', rs) \<and>
    length rs = length (filter (\<lambda>(e, c, am). is_envelope am) ms) \<and>
    chat_inv g' w' \<and> gIdentity g' = gIdentity g"
proof -
  have "chat_inv g w1"
    using assms(1) by (simp add: assms(2,3) chat_inv_activate)
  from chat.mailbox_ok [OF this assms(4), of codec_of] show ?thesis
    using mailbox_replies by blast
qed

definition sample_chat :: "proto_msg list" where
  "sample_chat = [proto_msg.ChatCreateRoomReq ''Lobby'' 7 ''ann'' 2, proto_msg.ChatJoinRoomReq ''lobby'' 7 ''ann'',
     proto_msg.ChatSendMessageReq ''lobby'' 7 ''ann'' ''hi'' ChatMsgType_TEXT,
     proto_msg.ChatLeaveRoomReq ''lobby'' 7 ''ann'', proto_msg.ChatGetMessagesReq ''lobby'' 0 0,
     proto_msg.ChatGetRoomListReq 1 10, proto_msg.ChatGetRoomUsersReq ''lobby'']"

definition sample_box :: "(chat_env \<times> actor_ctx \<times> actor_msg) list" where
  "sample_box = map (\<lambda>i. (sample_env sample_chat, lobby_ctx, Envelope (sample_rpc sample_chat i))) [1, 2, 3]"

theorem room_mailbox_safe_witness:
  "\<exists>g' w' rs. mailbox codec_of chat_invoke sample_box lobby (snd (onStarted lobby_ctx NewChatGrain new_node)) =
      Ok (g', w', rs) \<and>
    length rs = length (filter (\<lambda>(e, c, am). is_envelope am) sample_box) \<and>
    chat_inv g' w' \<and> gIdentity g' = gIdentity lobby"
  by (rule room_mailbox_safe [of new_node lobby lobby_ctx])
    (auto simp: lobby_def sample_box_def simp flip: lobby_def)

text \<open>C7: The handlers implement the specification of a room. After any sequence of messages the
  room's members, capacity, title and history are those of folding the specification over the
  requests that were in the mailbox; unknown message ids and payloads that do not decode change
  nothing.\<close>

theorem room_mailbox_refines:
  assumes "chat_inv g w" "\<forall>(e, c, am) \<in> set ms. same_actor g c"
    and "mailbox codec_of chat_invoke ms g w = Ok (g', w', rs)"
  shows "room_abs g' = spec_run chat_table chat_request spec_room ms (room_abs g)"
  using chat.mailbox_refines [OF assms(1,2), of codec_of] assms(3) by auto

theorem room_mailbox_refines_witness:
  "\<exists>g' w' rs. mailbox codec_of chat_invoke sample_box lobby_ann new_node = Ok (g', w', rs) \<and>
     room_abs g' = spec_run chat_table chat_request spec_room sample_box (room_abs lobby_ann)"
proof -
  have s: "\<forall>(e, c, am) \<in> set sample_box. same_actor lobby_ann c"
    by (auto simp: sample_box_def)
  from chat.mailbox_ok [OF chat_inv_lobby_ann s, of codec_of] obtain g' w' rs
    where "mailbox codec_of chat_invoke sample_box lobby_ann new_node = Ok (g', w', rs)" by blast
  with room_mailbox_refines [OF chat_inv_lobby_ann s this] show ?thesis by blast
qed

section \<open>Capacity\<close>

definition asks_create :: "proto_msg option \<Rightarrow> bool" where
  "asks_create q = (case q of None \<Rightarrow> False | Some q \<Rightarrow> msg_name q = ''ChatCreateRoomReq'')"

definition rs_fits :: "room_spec \<Rightarrow> bool" where
  "rs_fits s \<longleftrightarrow> finite (dom (rs_members s)) \<and> rs_size s \<le> rs_capacity s"

lemma spec_room_fits:
  assumes "rs_fits s" "msg_name q \<noteq> ''ChatCreateRoomReq''"
  shows "rs_fits (spec_room q s) \<and> rs_capacity (spec_room q s) = rs_capacity s"
proof (cases q)
  case (ChatLeaveRoomReq r u n)
  moreover have "card (dom (rs_members s) - {u}) \<le> card (dom (rs_members s))"
    using assms by (intro card_mono) (auto simp: rs_fits_def)
  ultimately show ?thesis
    using assms by (auto simp: rs_fits_def rs_size_def)
qed (use assms in \<open>auto simp: rs_fits_def rs_size_def card_insert_if\<close>)

lemma spec_run_fits:
  assumes "rs_fits s" "\<forall>(e, c, am) \<in> set ms. \<not> asks_create (request_in chat_table chat_request e am)"
  shows "rs_fits (spec_run chat_table chat_request spec_room ms s) \<and>
    rs_capacity (spec_run chat_table chat_request spec_room ms s) = rs_capacity s"
  using assms
proof (induction ms arbitrary: s)
  case Nil
  then show ?case by (simp add: spec_run_def)
next
  case (Cons em ms)
  obtain e c am where em: "em = (e, c, am)" by (cases em)
  let ?s = "spec_event spec_room (request_in chat_table chat_request e am) s"
  have s: "rs_fits ?s \<and> rs_capacity ?s = rs_capacity s"
    using Cons.prems spec_room_fits [OF Cons.prems(1)]
    by (auto simp: spec_event_def em asks_create_def split: option.splits)
  from Cons.prems have "\<forall>(e, c, am) \<in> set ms. \<not> asks_create (request_in chat_table chat_request e am)"
    by auto
  from Cons.IH [OF _ this, of ?s] s show ?case
    by (simp add: spec_run_def em)
qed

lemma rs_fits_abs: "chat_inv g w \<Longrightarrow> rs_fits (room_abs g) \<longleftrightarrow> int (mlen (members g)) \<le> maxMembers g"
  by (simp add: rs_fits_def rs_size_abs member_count_exact gm.finite_dom del: room_abs_simps(2))

text \<open>C9: A room that is not over capacity is never filled beyond it. Whatever is joined, left, sent
  or queried, in whatever order, the number of members stays at most the capacity, and only
  CreateRoom changes the capacity.\<close>

theorem room_never_overfull:
  assumes "chat_inv g w" "\<forall>(e, c, am) \<in> set ms. same_actor g c"
    and "\<forall>(e, c, am) \<in> set ms. \<not> asks_create (request_in chat_table chat_request e am)"
    and "int (mlen (members g)) \<le> maxMembers g"
    and "mailbox codec_of chat_invoke ms g w = Ok (g', w', rs)"
  shows "int (mlen (members g')) \<le> maxMembers g' \<and> maxMembers g' = maxMembers g"
proof -
  from chat.mailbox_refines [OF assms(1,2), of codec_of] assms(5)
  have inv: "chat_inv g' w'" and a: "room_abs g' = spec_run chat_table chat_request spec_room ms (room_abs g)"
    by auto
  have "rs_fits (room_abs g)" using assms(4) by (simp add: rs_fits_abs [OF assms(1)])
  from spec_run_fits [OF this assms(3)] have "rs_fits (room_abs g') \<and> rs_capacity (room_abs g') = rs_capacity (room_abs g)"
    by (simp add: a)
  then show ?thesis by (simp add: rs_fits_abs [OF inv])
qed

lemma sample_box_no_create:
  "\<forall>(e, c, am) \<in> set sample_box. \<not> asks_create (request_in chat_table chat_request e am)"
  by (simp add: sample_box_def request_in_def chat_table_def mget_def sample_rpc_def msg_id_def
      MsgId_value_def MsgId_value_entries_def sample_chat_def asks_create_def chat_request_def
      split: option.split)

theorem room_never_overfull_witness:
  "\<exists>g' w' rs. mailbox codec_of chat_invoke sample_box lobby new_node = Ok (g', w', rs) \<and>
     int (mlen (members g')) \<le> maxMembers g' \<and> maxMembers g' = 50"
proof -
  have s: "\<forall>(e, c, am) \<in> set sample_box. same_actor lobby c"
    by (auto simp: sample_box_def)
  from chat.mailbox_ok [OF chat_inv_lobby s, of codec_of] obtain g' w' rs
    where r: "mailbox codec_of chat_invoke sample_box lobby new_node = Ok (g', w', rs)" by blast
  from room_never_overfull [OF chat_inv_lobby s sample_box_no_create _ r] r show ?thesis by auto
qed

section \<open>Joining and leaving\<close>

lemma mlen_join: "mwf m \<Longrightarrow> \<not> mhas m k \<Longrightarrow> int (mlen (mput k v m)) = int (mlen m) + 1"
  by (simp add: mlen_put_new)

lemma mlen_leave: "mwf m \<Longrightarrow> mhas m k \<Longrightarrow> int (mlen (mdel k m)) = int (mlen m) - 1"
  using mlen_del [of m k] by linarith

text \<open>C10: A user who is not in the room and finds a free place gets in: the member set grows by exactly
  this user, recorded online, in this room, under the given name; the response carries the new
  number of members and the last (at most 20) messages, the newest of which is the system's notice
  of this very join; nothing is broadcast and the node's registries are untouched, so the room list
  keeps the old number of members.\<close>

theorem join_effect:
  assumes "chat_inv g w"
    and "decode (codec_of e) ''ChatJoinRoomReq'' m = Some (proto_msg.ChatJoinRoomReq room u name)"
    and "\<not> mhas (members g) u" "int (mlen (members g)) < maxMembers g"
  shows "\<exists>g' info recent note. chat_invoke e HJoinRoom g w m =
      Ok (g', w, Some (ChatJoinRoomResp ErrorCode_OK t_joined_room (Some info) recent), ErrorCode_OK) \<and>
    dom (mget (members g')) = insert u (dom (mget (members g))) \<and>
    mget (members g') u = Some \<lparr>cu_UserId = u, cu_Username = name, cu_IsOnline = True,
      cu_CurrentRoomId = gIdentity g, cu_LoginTime = unixMilli (now e 0)\<rparr> \<and>
    cr_CurrentMembers info = int (mlen (members g)) + 1 \<and> cr_CurrentMembers info \<le> cr_MaxMembers info \<and>
    messages g' = messages g @ [note] \<and> cm_Type note = ChatMsgType_JOIN \<and>
    cm_Content note = name @ t_joined_notice \<and>
    recent = last_n 20 (messages g') \<and> last recent = note \<and> length recent \<le> 20"
proof -
  have wf: "mwf (members g)" "int (mlen (members g)) + 1 \<le> maxMembers g" "maxMembers g < 2 ^ 31"
    using assms(4) chat_invD [OF assms(1)] by auto
  with assms(2-) show ?thesis
    by (simp add: ChatJoinRoomReq_def member_count_exact [OF assms(1)] Let_def getRecentMessages_Ok)
      (auto simp: room_info_def member_count_def mlen_join i32_id last_n_def)
qed

theorem join_effect_witness:
  "\<not> mhas (members lobby) 7 \<and> int (mlen (members lobby)) < maxMembers lobby \<and>
   (\<exists>g' info recent. chat_invoke (sample_env sample_chat) HJoinRoom lobby new_node (sample_rpc sample_chat 1) =
      Ok (g', new_node, Some (ChatJoinRoomResp ErrorCode_OK t_joined_room (Some info) recent), ErrorCode_OK) \<and>
    dom (mget (members g')) = {7} \<and> cr_CurrentMembers info = 1 \<and> length recent \<le> 20)"
proof -
  have "decode (codec_of (sample_env sample_chat)) ''ChatJoinRoomReq'' (sample_rpc sample_chat 1) =
      Some (proto_msg.ChatJoinRoomReq ''lobby'' 7 ''ann'')"
    by (subst sample_env_simps, subst sample_decode) (simp_all add: sample_chat_def)
  from join_effect [OF chat_inv_lobby this] show ?thesis by (auto simp: dom_def)
qed

text \<open>A join that cannot take place changes nothing, neither the room nor the node: a full room
  answers RoomFull (also to a user who is already inside, since the size is checked first), and a
  member of a room with free places is told so with code OK.\<close>

theorem join_refused:
  assumes "chat_inv g w"
    and "decode (codec_of e) ''ChatJoinRoomReq'' m = Some (proto_msg.ChatJoinRoomReq room u name)"
    and "maxMembers g \<le> int (mlen (members g)) \<or> mhas (members g) u"
  shows "chat_invoke e HJoinRoom g w m =
    (if maxMembers g \<le> int (mlen (members g))
     then Ok (g, w, Some (ChatJoinRoomResp ErrorCode_RoomFull t_room_full None []), ErrorCode_RoomFull)
     else Ok (g, w, Some (ChatJoinRoomResp ErrorCode_OK t_already_in_room
       (Some (room_info g (int (mlen (members g))))) []), ErrorCode_OK))"
  using assms(2,3) by (auto simp: ChatJoinRoomReq_def member_count_exact [OF assms(1)])

theorem join_refused_witness:
  "chat_invoke (sample_env sample_chat) HJoinRoom lobby_ann new_node (sample_rpc sample_chat 1) =
     Ok (lobby_ann, new_node, Some (ChatJoinRoomResp ErrorCode_OK t_already_in_room
       (Some (room_info lobby_ann 1)) []), ErrorCode_OK)"
proof -
  have "decode (codec_of (sample_env sample_chat)) ''ChatJoinRoomReq'' (sample_rpc sample_chat 1) =
      Some (proto_msg.ChatJoinRoomReq ''lobby'' 7 ''ann'')"
    by (subst sample_env_simps, subst sample_decode) (simp_all add: sample_chat_def)
  from join_refused [OF chat_inv_lobby_ann this] show ?thesis
    by (simp add: mhas_def mget_def mlen_def)
qed

text \<open>C12: Leaving. A member who leaves is gone from the member map, everybody else stays, and the history is
  the old one with the notice at its end: a message of the system, of kind LEAVE, for this room, that
  names the user. Nothing else of the room changes and nothing is broadcast; the global room list shows
  exactly the number of members that are left (if the room is listed there). A user who is not
  inside changes nothing and is answered with code OK, like a successful leave.\<close>

theorem leave_effect:
  assumes "chat_inv g w"
    and "decode (codec_of e) ''ChatLeaveRoomReq'' m = Some (proto_msg.ChatLeaveRoomReq room u name)"
  shows "\<exists>g' w' t. chat_invoke e HLeaveRoom g w m = Ok (g', w', Some (ChatLeaveRoomResp ErrorCode_OK t), ErrorCode_OK) \<and>
    mget (members g') = (mget (members g))(u := None) \<and> published w' = published w \<and>
    (if mhas (members g) u
     then t = t_left_room \<and> messages g' = messages g @ [\<lparr>cm_MsgId = generateMsgId (now e 0), cm_SenderId = 0,
         cm_SenderName = ''System'', cm_RoomId = gIdentity g, cm_Type = ChatMsgType_LEAVE,
         cm_Content = name @ t_left_notice, cm_Timestamp = unixMilli (now e 1)\<rparr>] \<and>
       g' = g\<lparr>members := members g', messages := messages g'\<rparr> \<and>
       int (mlen (members g')) = int (mlen (members g)) - 1 \<and>
       GetRoom (gIdentity g) (roomReg w') =
         map_option (\<lambda>r. r\<lparr>cr_CurrentMembers := int (mlen (members g'))\<rparr>) (GetRoom (gIdentity g) (roomReg w))
     else t = t_not_in_room \<and> g' = g \<and> w' = w)"
proof (cases "mhas (members g) u")
  case True
  have b: "mwf (members g)" "int (mlen (mdel u (members g))) < 2 ^ 31"
    using chat_invD [OF assms(1)] chat_invD(7) [OF chat_inv_leave [OF assms(1)], of u] by auto
  with True assms(2) show ?thesis
    by (simp add: ChatLeaveRoomReq_def Let_def member_count_def mlen_leave i32_id)
next
  case False
  with assms(2) show ?thesis by (auto simp: ChatLeaveRoomReq_def mhas_def)
qed

theorem leave_effect_witness:
  "\<exists>g' w' t. chat_invoke (sample_env sample_chat) HLeaveRoom lobby_ann new_node (sample_rpc sample_chat 3) =
      Ok (g', w', Some (ChatLeaveRoomResp ErrorCode_OK t), ErrorCode_OK) \<and>
    mget (members g') 7 = None \<and> t = t_left_room \<and> int (mlen (members g')) = 0 \<and>
    (\<exists>note. messages g' = [note] \<and> cm_Content note = ''ann'' @ t_left_notice)"
proof -
  have "decode (codec_of (sample_env sample_chat)) ''ChatLeaveRoomReq'' (sample_rpc sample_chat 3) =
      Some (proto_msg.ChatLeaveRoomReq ''lobby'' 7 ''ann'')"
    by (subst sample_env_simps, subst sample_decode) (simp_all add: sample_chat_def)
  from leave_effect [OF chat_inv_lobby_ann this] show ?thesis
    by (auto simp: mhas_def mget_def mlen_def fun_eq_iff)
qed

section \<open>Messages\<close>

lemma last_n_length: "length (last_n n xs) = min n (length xs)"
  by (auto simp: last_n_def)

lemma last_n_short: "length xs \<le> n \<Longrightarrow> last_n n xs = xs"
  by (simp add: last_n_def)

lemma broadcast_message:
  "published (broadcastToMembers e g (proto_msg.ChatUserMessage c) x w) = published w @
     (case marshal (codec_of e) (proto_msg.ChatUserMessage c) of
        None \<Rightarrow> []
      | Some b \<Rightarrow> [(gIdentity g, request_of '''' (gIdentity g) (gIdentity g) ''broadcast''
          (proto_msg.ChatUserMessage c) b)])"
  by (simp add: broadcastToMembers_def Publish_def NewRpcMsg_def request_of_def msg_id_def
      MsgId_value_def MsgId_value_entries_def split: option.split)

text \<open>C13: Sending. A member's message is appended under the sender's id and the room's own id (whatever
  room id the request names), the history is cut to its last 100 messages with the new message the
  newest, and, if it can be serialised, exactly one broadcast carrying it goes out, on the room's
  topic. A non-member's message is dropped without a trace, yet answered with code OK and no message
  (the caller cannot see from the code that nothing was sent).\<close>

theorem send_effect:
  assumes "decode (codec_of e) ''ChatSendMessageReq'' m = Some (proto_msg.ChatSendMessageReq room u name content type)"
  shows "\<exists>g' w' t r. chat_invoke e HSendMessage g w m = Ok (g', w', Some (ChatSendMessageResp ErrorCode_OK t r), ErrorCode_OK) \<and>
    members g' = members g \<and>
    (if mhas (members g) u
     then (\<exists>c. r = Some c \<and> cm_SenderId c = u \<and> cm_RoomId c = gIdentity g \<and> cm_Content c = content \<and>
       messages g' = last_n 100 (messages g @ [c]) \<and> length (messages g') \<le> 100 \<and>
       last (messages g') = c \<and>
       published w' = published w @ (case marshal (codec_of e) (proto_msg.ChatUserMessage (Some c)) of
           None \<Rightarrow> []
         | Some b \<Rightarrow> [(gIdentity g, request_of '''' (gIdentity g) (gIdentity g) ''broadcast''
             (proto_msg.ChatUserMessage (Some c)) b)]))
     else r = None \<and> t = t_not_in_room \<and> g' = g \<and> w' = w)"
  using assms broadcast_message
  by (cases "mhas (members g) u") (simp_all add: ChatSendMessageReq_def Let_def last_n_def del: drop_append split: option.split)

theorem send_effect_witness:
  "mhas (members lobby_ann) 7 \<and> (\<exists>g' w' t c. chat_invoke (sample_env sample_chat) HSendMessage lobby_ann new_node
       (sample_rpc sample_chat 2) = Ok (g', w', Some (ChatSendMessageResp ErrorCode_OK t (Some c)), ErrorCode_OK) \<and>
    messages g' = [c] \<and> cm_Content c = ''hi'')"
proof -
  have "decode (codec_of (sample_env sample_chat)) ''ChatSendMessageReq'' (sample_rpc sample_chat 2) =
      Some (proto_msg.ChatSendMessageReq ''lobby'' 7 ''ann'' ''hi'' ChatMsgType_TEXT)"
    by (subst sample_env_simps, subst sample_decode) (simp_all add: sample_chat_def)
  from send_effect [OF this, of lobby_ann new_node] show ?thesis
    by (auto simp: mhas_def mget_def last_n_short)
qed

definition broadcast_ok :: "string \<Rightarrow> string \<times> RpcMsg \<Rightarrow> bool" where
  "broadcast_ok room p \<longleftrightarrow> fst p = room \<and> Identity (snd p) = room \<and>
     MsgId (snd p) = MsgId_PChatUserMessage \<and> Code (snd p) = ErrorCode_OK"

definition is_send :: "actor_msg \<Rightarrow> bool" where
  "is_send am = (case am of Envelope m \<Rightarrow> MsgId m = MsgId_PChatSendMessageReq | _ \<Rightarrow> False)"

lemma broadcast_published:
  "\<exists>ps. published (broadcastToMembers e g (proto_msg.ChatUserMessage c) x w) = published w @ ps \<and>
     length ps \<le> 1 \<and> (\<forall>p \<in> set ps. broadcast_ok (gIdentity g) p)"
  unfolding broadcast_message
  by (auto simp: broadcast_ok_def request_of_def msg_id_def MsgId_value_def MsgId_value_entries_def
      split: option.split)

lemma send_published:
  "chat_invoke e HSendMessage g w m = Ok (g', w', r, c) \<Longrightarrow>
     \<exists>ps. published w' = published w @ ps \<and> length ps \<le> 1 \<and> (\<forall>p \<in> set ps. broadcast_ok (gIdentity g) p)"
  using broadcast_published
  by (fastforce simp: ChatSendMessageReq_def Let_def split: option.splits proto_msg.splits if_splits)

lemma others_published:
  "h \<noteq> HSendMessage \<Longrightarrow> chat_invoke e h g w m = Ok (g', w', r, c) \<Longrightarrow> published w' = published w"
  by (cases h) (auto simp: handler_defs Let_def obind_Ok_iff split: option.splits proto_msg.splits if_splits)

lemma receive_published:
  assumes "chat_inv g w" "Receive cd (chat_invoke e) ctx am g w = Ok (g', w', r)"
  shows "\<exists>ps. published w' = published w @ ps \<and> length ps \<le> (if is_send am then 1 else 0) \<and>
    (\<forall>p \<in> set ps. broadcast_ok (gIdentity g) p)"
proof (cases am)
  case (Envelope m)
  show ?thesis
  proof (cases "chat_table (MsgId m)")
    case None
    with Envelope assms show ?thesis by (simp add: Receive_def chat_invD(8))
  next
    case (Some h)
    with Envelope assms obtain x c where i: "chat_invoke e h g w m = Ok (g', w', x, c)"
      by (auto simp: Receive_def chat_invD(8) obind_Ok_iff)
    show ?thesis
    proof (cases "h = HSendMessage")
      case True
      with Some have "is_send am"
        by (auto simp: Envelope is_send_def chat_table_def mget_def split: if_splits)
      with send_published i True show ?thesis by simp
    next
      case False
      with others_published [OF False i] show ?thesis by simp
    qed
  qed
next
  case Started
  with assms(2) have "w' = snd (onStarted ctx g w)"
    by (auto simp: Receive_def split: prod.splits)
  then show ?thesis by simp
qed (use assms(2) in \<open>simp add: Receive_def\<close>)

lemma mailbox_published:
  assumes "chat_inv g w" "\<forall>(e, c, am) \<in> set ms. same_actor g c"
    and "mailbox cd chat_invoke ms g w = Ok (g', w', rs)"
  shows "\<exists>ps. published w' = published w @ ps \<and> length ps \<le> length (filter (\<lambda>(e, c, am). is_send am) ms) \<and>
    (\<forall>p \<in> set ps. broadcast_ok (gIdentity g) p)"
  using assms
proof (induction ms arbitrary: g w rs)
  case Nil
  then show ?case by simp
next
  case (Cons em ms)
  obtain e c am where em: "em = (e, c, am)" by (cases em)
  with Cons.prems have a: "chat_inv g w" "same_actor g c" by auto
  from Cons.prems em obtain g1 w1 r rs1 where
      r: "Receive (cd e) (chat_invoke e) c am g w = Ok (g1, w1, r)"
    and m: "mailbox cd chat_invoke ms g1 w1 = Ok (g', w', rs1)"
    by (auto simp: obind_Ok_iff)
  have i: "chat_inv g1 w1" "gIdentity g1 = gIdentity g"
    using chat.receive_ok [OF a, of "cd e" e am] r by auto
  have "\<forall>(e, c, am) \<in> set ms. same_actor g1 c"
    using Cons.prems(2) same_actor_cong [OF i(2)] by auto
  from Cons.IH [OF i(1) this m] i(2) obtain qs where
    "published w' = published w1 @ qs" "length qs \<le> length (filter (\<lambda>(e, c, am). is_send am) ms)"
    "\<forall>p \<in> set qs. broadcast_ok (gIdentity g) p" by auto
  moreover from receive_published [OF a(1) r] obtain ps where
    "published w1 = published w @ ps" "length ps \<le> (if is_send am then 1 else 0)"
    "\<forall>p \<in> set ps. broadcast_ok (gIdentity g) p" by blast
  ultimately show ?case
    by (intro exI [of _ "ps @ qs"]) (auto simp: em split: if_splits)
qed

text \<open>Rooms do not talk on each other's topics. Over any sequence of messages a room publishes only
  on its own topic, only chat messages with code OK, and at most one per SendMessage envelope it
  received: joining, leaving and the queries broadcast nothing. What was published before stays.\<close>

theorem room_broadcasts:
  assumes "chat_inv g w" "\<forall>(e, c, am) \<in> set ms. same_actor g c"
    and "mailbox codec_of chat_invoke ms g w = Ok (g', w', rs)"
  shows "\<exists>ps. published w' = published w @ ps \<and> length ps \<le> length (filter (\<lambda>(e, c, am). is_send am) ms) \<and>
    (\<forall>p \<in> set ps. broadcast_ok (gIdentity g) p)"
  using assms by (rule mailbox_published)

theorem room_broadcasts_witness:
  "\<exists>g' w' rs ps. mailbox codec_of chat_invoke sample_box lobby new_node = Ok (g', w', rs) \<and>
     published w' = ps \<and> length ps \<le> 1 \<and> (\<forall>p \<in> set ps. broadcast_ok ''lobby'' p)"
proof -
  have s: "\<forall>(e, c, am) \<in> set sample_box. same_actor lobby c"
    by (auto simp: sample_box_def)
  from chat.mailbox_ok [OF chat_inv_lobby s, of codec_of] obtain g' w' rs
    where r: "mailbox codec_of chat_invoke sample_box lobby new_node = Ok (g', w', rs)" by blast
  have "length (filter (\<lambda>(e, c, am). is_send am) sample_box) = 1"
    by (simp add: sample_box_def is_send_def sample_rpc_def msg_id_def
      MsgId_value_def MsgId_value_entries_def sample_chat_def)
  with room_broadcasts [OF chat_inv_lobby s r] r show ?thesis by auto
qed

section \<open>Queries\<close>

definition clamp_limit :: "int \<Rightarrow> nat" where
  "clamp_limit n = (if n \<le> 0 \<or> n > 50 then 20 else nat n)"

text \<open>The history query answers with the newest messages in order, as many as asked for: a limit
  from 1 to 50 is used as it is, any other means 20. The room is not changed. The time bound of the
  request plays no part: two requests that differ only in it get the same answer.\<close>

theorem messages_query:
  assumes "decode (codec_of e) ''ChatGetMessagesReq'' m = Some (proto_msg.ChatGetMessagesReq room limit before)"
  shows "chat_invoke e HGetMessages g w m =
      Ok (g, w, Some (ChatGetMessagesResp ErrorCode_OK t_success (last_n (clamp_limit limit) (messages g))), ErrorCode_OK) \<and>
    length (last_n (clamp_limit limit) (messages g)) = min (clamp_limit limit) (length (messages g)) \<and>
    1 \<le> clamp_limit limit \<and> clamp_limit limit \<le> 50"
  using assms by (auto simp: ChatGetMessagesReq_def getRecentMessages_Ok last_n_def clamp_limit_def)

theorem messages_query_witness:
  "chat_invoke (sample_env sample_chat) HGetMessages lobby new_node (sample_rpc sample_chat 4) =
     Ok (lobby, new_node, Some (ChatGetMessagesResp ErrorCode_OK t_success []), ErrorCode_OK)"
proof -
  have "decode (codec_of (sample_env sample_chat)) ''ChatGetMessagesReq'' (sample_rpc sample_chat 4) =
      Some (proto_msg.ChatGetMessagesReq ''lobby'' 0 0)"
    by (subst sample_env_simps, subst sample_decode) (simp_all add: sample_chat_def)
  from messages_query [OF this, of lobby new_node] show ?thesis by (simp add: last_n_def)
qed

text \<open>The user query lists exactly the members, each once, whatever order the map is visited in,
  and all of them as online users of this room.\<close>

theorem users_query:
  assumes "chat_inv g w" "range_ok (range_users e) (members g)"
    and "decode (codec_of e) ''ChatGetRoomUsersReq'' m = Some (proto_msg.ChatGetRoomUsersReq room)"
  shows "\<exists>us. chat_invoke e HGetRoomUsers g w m =
      Ok (g, w, Some (ChatGetRoomUsersResp ErrorCode_OK t_success us), ErrorCode_OK) \<and>
    distinct (map cu_UserId us) \<and> set (map cu_UserId us) = dom (mget (members g)) \<and>
    length us = mlen (members g) \<and> (\<forall>u \<in> set us. mget (members g) (cu_UserId u) = Some u \<and> member_ok (gIdentity g) u)"
proof -
  let ?es = "range_users e (members g)"
  have k: "cu_UserId (snd p) = fst p" "mget (members g) (fst p) = Some (snd p)" if "p \<in> set ?es" for p
    using that keyed_by_key [OF chat_invD(1) [OF assms(1)]]
      range_ok_get [OF assms(2) chat_invD(2) [OF assms(1)], of "fst p" "snd p"] by auto
  then have ids: "map cu_UserId (map snd ?es) = map fst ?es" by simp
  show ?thesis
  proof (intro exI conjI)
    show "chat_invoke e HGetRoomUsers g w m =
        Ok (g, w, Some (ChatGetRoomUsersResp ErrorCode_OK t_success (map snd ?es)), ErrorCode_OK)"
      using assms(3) by (simp add: ChatGetRoomUsersReq_def)
    show "distinct (map cu_UserId (map snd ?es))"
      unfolding ids by (rule range_ok_distinct [OF assms(2) chat_invD(2) [OF assms(1)]])
    show "set (map cu_UserId (map snd ?es)) = dom (mget (members g))"
      unfolding ids by (simp add: gm.dom_get range_ok_set [OF assms(2)])
    show "length (map snd ?es) = mlen (members g)" by (simp add: range_ok_length [OF assms(2)])
    show "\<forall>u \<in> set (map snd ?es). mget (members g) (cu_UserId u) = Some u \<and> member_ok (gIdentity g) u"
      using k chat_invD(3) [OF assms(1)] by fastforce
  qed
qed

theorem users_query_witness:
  "\<exists>us. chat_invoke (sample_env sample_chat) HGetRoomUsers lobby_ann new_node (sample_rpc sample_chat 6) =
      Ok (lobby_ann, new_node, Some (ChatGetRoomUsersResp ErrorCode_OK t_success us), ErrorCode_OK) \<and>
    set (map cu_UserId us) = {7} \<and> length us = 1"
proof -
  have d: "decode (codec_of (sample_env sample_chat)) ''ChatGetRoomUsersReq'' (sample_rpc sample_chat 6) =
      Some (proto_msg.ChatGetRoomUsersReq ''lobby'')"
    by (subst sample_env_simps, subst sample_decode) (simp_all add: sample_chat_def)
  have "range_ok (range_users (sample_env sample_chat)) (members lobby_ann)"
    by (simp add: range_ok_def)
  from users_query [OF chat_inv_lobby_ann this d] show ?thesis
    by (auto simp: mget_def mlen_def dom_def)
qed

lemma page_bounds:
  fixes p :: nat and k :: int
  assumes "1 \<le> p" "p < 2 ^ 31" "1 \<le> k" "k \<le> 100"
  shows "i64 ((int p - 1) * k) = int ((p - 1) * nat k)" "i64 (int ((p - 1) * nat k) + k) = int (p * nat k)"
proof -
  obtain q where q: "p = Suc q" using assms(1) by (cases p) auto
  have "int p * k \<le> 2 ^ 31 * 100" using assms by (intro mult_mono) auto
  then have b: "int q * k + k \<le> 2 ^ 31 * 100"
    using assms by (auto simp: q algebra_simps)
  have b0: "0 \<le> int q * k" using assms(3) by (intro mult_nonneg_nonneg) auto
  have e: "int (q * nat k) = int q * k" "int (p * nat k) = int q * k + k"
    using assms by (auto simp: q algebra_simps)
  have "i64 x = x \<and> i64 (x + k) = x + k" if "0 \<le> x" "x + k \<le> 2 ^ 31 * 100" for x
    using that assms(3) by (simp add: i64_id)
  from this [OF b0 b] have "i64 (int q * k) = int q * k" "i64 (int q * k + k) = int q * k + k"
    by simp_all
  then show "i64 ((int p - 1) * k) = int ((p - 1) * nat k)" "i64 (int ((p - 1) * nat k) + k) = int (p * nat k)"
    by (simp_all only: e(2)) (simp_all only: q diff_Suc_1 e(1) of_nat_Suc add_diff_cancel_left')
qed

lemma room_page_slice:
  assumes "1 \<le> p" "p < 2 ^ 31" "1 \<le> k" "k \<le> 100"
  shows "room_page (int p) k rooms = take (nat k) (drop ((p - 1) * nat k) rooms)"
proof -
  define A B where "A = (p - 1) * nat k" and "B = p * nat k"
  have AB: "B = A + nat k"
    using assms(1) by (cases p) (auto simp: A_def B_def)
  have "room_page (int p) k rooms =
      (if length rooms \<le> A then [] else take (min B (length rooms) - A) (drop A rooms))"
    using assms(1,3,4) page_bounds [OF assms, folded A_def B_def]
    by (simp add: room_page_def Let_def min_def del: of_nat_mult)
  then show ?thesis
    unfolding A_def [symmetric] by (auto simp: AB min_def)
qed

lemma room_pages:
  assumes "n < 2 ^ 31" "1 \<le> k" "k \<le> 100"
  shows "concat (map (\<lambda>p. room_page (int p) k rooms) [1..<Suc n]) = take (n * nat k) rooms"
  using assms(1)
proof (induction n)
  case 0
  then show ?case by simp
next
  case (Suc n)
  then show ?case
    using room_page_slice [of "Suc n" k rooms] assms
    by (simp add: take_add add.commute [of "nat k"])
qed

text \<open>C30: Paging through the room list. For one visiting order of the registry, the pages 1 to n of a
  size from 1 to 100 are the list of all rooms cut into pieces: put together they are its first
  n times size rooms, in order; when that covers the list, every registered room is on exactly one
  page. Each answer carries the total. (Go fixes no order: between requests it may change.)\<close>

theorem room_list_pages:
  assumes "room_registry_wf (roomReg w)" "range_ok (range_rooms e) (roomReg w)" "mlen (roomReg w) < 2 ^ 31"
    and "n < 2 ^ 31" "1 \<le> k" "k \<le> 100"
    and "\<forall>p \<in> {1..n}. decode (codec_of e) ''ChatGetRoomListReq'' (ms p) = Some (proto_msg.ChatGetRoomListReq (int p) k)"
  shows "\<exists>pages. (\<forall>p \<in> {1..n}. chat_invoke e HGetRoomList g w (ms p) =
      Ok (g, w, Some (ChatGetRoomListResp ErrorCode_OK t_success (pages p) (GetRoomCount (roomReg w))), ErrorCode_OK)) \<and>
    concat (map pages [1..<Suc n]) = take (n * nat k) (GetAllRooms (range_rooms e) (roomReg w)) \<and>
    (mlen (roomReg w) \<le> n * nat k \<longrightarrow>
       distinct (map cr_RoomId (concat (map pages [1..<Suc n]))) \<and>
       set (map cr_RoomId (concat (map pages [1..<Suc n]))) = dom (mget (roomReg w)))"
proof -
  let ?r = "range_rooms e (roomReg w)" and ?all = "GetAllRooms (range_rooms e) (roomReg w)"
  let ?pages = "\<lambda>p. room_page (int p) k ?all"
  have len: "length ?all = mlen (roomReg w)"
    by (simp add: GetAllRooms_def range_ok_length [OF assms(2)])
  have c: "concat (map ?pages [1..<Suc n]) = take (n * nat k) ?all"
    by (rule room_pages) (use assms in auto)
  have ids: "map cr_RoomId ?all = map fst ?r"
    using range_ok_get [OF assms(2) keyed_by_mwf [OF assms(1)]] keyed_by_key [OF assms(1)]
    by (auto simp: GetAllRooms_def)
  have i: "\<forall>p \<in> {1..n}. chat_invoke e HGetRoomList g w (ms p) =
      Ok (g, w, Some (ChatGetRoomListResp ErrorCode_OK t_success (?pages p) (GetRoomCount (roomReg w))), ErrorCode_OK)"
    using assms(3,7) by (auto simp: ChatGetRoomListReq_def Let_def len GetRoomCount_def i32_len)
  have d: "distinct (map cr_RoomId (concat (map ?pages [1..<Suc n]))) \<and>
      set (map cr_RoomId (concat (map ?pages [1..<Suc n]))) = dom (mget (roomReg w))"
    if "mlen (roomReg w) \<le> n * nat k"
    unfolding c using that
    by (simp add: len ids gm.dom_get range_ok_set [OF assms(2)]
        range_ok_distinct [OF assms(2) keyed_by_mwf [OF assms(1)]] flip: set_map del: set_map)
      (simp add: range_ok_set [OF assms(2)])
  show ?thesis
    by (intro exI [of _ ?pages] conjI impI i c d)
qed

definition listed_node :: node where
  "listed_node = new_node\<lparr>roomReg := RegisterRoom (room_info lobby 0) NewRoomRegistry\<rparr>"

theorem room_list_pages_witness:
  "\<exists>pages. chat_invoke (sample_env sample_chat) HGetRoomList lobby listed_node (sample_rpc sample_chat 5) =
      Ok (lobby, listed_node, Some (ChatGetRoomListResp ErrorCode_OK t_success (pages 1) 1), ErrorCode_OK) \<and>
    set (map cr_RoomId (concat (map pages [1..<Suc 1]))) = {''lobby''}"
proof -
  have m: "roomReg listed_node = [(''lobby'', room_info lobby 0)]"
    by (simp add: listed_node_def RegisterRoom_def mput_def NewRoomRegistry_def room_info_def)
  have d: "\<forall>p \<in> {1..1::nat}. decode (codec_of (sample_env sample_chat)) ''ChatGetRoomListReq'' (sample_rpc sample_chat 5) =
      Some (proto_msg.ChatGetRoomListReq (int p) 10)"
    by (subst sample_env_simps, subst sample_decode) (simp_all add: sample_chat_def)
  have wf: "room_registry_wf (roomReg listed_node)"
    by (simp add: listed_node_def wf_intros)
  have "dom (mget (roomReg listed_node)) = {''lobby''}" "mlen (roomReg listed_node) = 1"
    by (auto simp: m mget_def mlen_def split: if_splits)
  with room_list_pages [OF wf _ _ _ _ _ d, of lobby] show ?thesis
    by (auto simp: range_ok_def GetRoomCount_def)
qed

section \<open>Message ids\<close>

definition same_millisecond :: "go_time \<Rightarrow> go_time \<Rightarrow> bool" where
  "same_millisecond s t \<longleftrightarrow> year s = year t \<and> month s = month t \<and> day s = day t \<and> hour s = hour t \<and>
     minute s = minute t \<and> second s = second t \<and> milli s = milli t"

definition calendar_ok :: "go_time \<Rightarrow> bool" where
  "calendar_ok t \<longleftrightarrow> year t < 10000 \<and> month t \<le> 12 \<and> day t \<le> 31 \<and> hour t < 24 \<and> minute t < 60 \<and>
     second t < 60 \<and> milli t < 1000"

text \<open>Message ids are unique per millisecond and no finer: two ids are equal exactly when they were
  made in the same millisecond of wall-clock time. They are 18 characters long.\<close>

theorem message_id_per_millisecond:
  assumes "calendar_ok s" "calendar_ok t"
  shows "(generateMsgId s = generateMsgId t \<longleftrightarrow> same_millisecond s t) \<and> length (generateMsgId s) = 18"
proof -
  have l: "length (pad 4 (year u)) = 4 \<and> length (pad 2 (month u)) = 2 \<and> length (pad 2 (day u)) = 2 \<and>
      length (pad 2 (hour u)) = 2 \<and> length (pad 2 (minute u)) = 2 \<and> length (pad 2 (second u)) = 2 \<and>
      length (pad 3 (milli u)) = 3" if "calendar_ok u" for u
    using that by (auto simp: calendar_ok_def intro!: length_pad)
  show ?thesis
    using l [OF assms(1)] l [OF assms(2)]
    by (auto simp: generateMsgId_def same_millisecond_def dest: pad_inj)
qed

theorem message_id_per_millisecond_witness:
  "calendar_ok noon \<and> generateMsgId noon \<noteq> generateMsgId (noon\<lparr>milli := 124\<rparr>)"
  using message_id_per_millisecond [of noon "noon\<lparr>milli := 124\<rparr>"]
  by (auto simp: calendar_ok_def noon_def same_millisecond_def)

end
