(* ===== verification/UserGrain.thy ===== *)
theory UserGrain
  imports BaseGrain Texts
begin

text \<open>
  \<^verbatim>\<open>internal/grains/user_grain.go\<close>: the session of one user, and \<^verbatim>\<open>internal/grains/hello_grain.go\<close>, a
  grain without handlers. The field \<^verbatim>\<open>cluster\<close> of \<^verbatim>\<open>UserGrain\<close> is a pointer that the repository never
  sets; when it is set, a request through it is a function on the node, and a request through the nil
  pointer is a nil dereference. The specification of a session, the proof that the handlers refine it
  and the interpretation of the grain contract are here too.
\<close>

section \<open>State\<close>

datatype user_handler = HLogin | HLogout | HUserMessage | HGetUserInfo

type_synonym requester = "string \<Rightarrow> string \<Rightarrow> proto_msg \<Rightarrow> node \<Rightarrow> node"

record user_grain = "user_handler base_grain" +
  userId :: int
  username :: string
  sessionId :: string
  isOnline :: bool
  currentRoom :: string
  loginTime :: int
  cluster_ptr :: "requester option"

record user_env =
  ucodec_of :: codec
  unow :: go_time

definition zero_user :: user_grain where
  "zero_user = base_grain.extend zero_base
     \<lparr>userId = 0, username = '''', sessionId = '''', isOnline = False, currentRoom = '''', loginTime = 0,
      cluster_ptr = None\<rparr>"

definition UserGrain_Init :: "user_grain \<Rightarrow> user_grain" where
  "UserGrain_Init g =
     (let g = RegisterMsgHandler MsgId_PChatLoginReq HLogin g;
          g = RegisterMsgHandler MsgId_PChatLogoutReq HLogout g;
          g = RegisterMsgHandler MsgId_PChatUserMessage HUserMessage g
      in RegisterMsgHandler MsgId_PChatGetUserInfoReq HGetUserInfo g)"

definition NewUserGrain :: user_grain where
  "NewUserGrain = UserGrain_Init zero_user"

section \<open>Handlers\<close>

definition user_info :: "user_grain \<Rightarrow> ChatUserInfo" where
  "user_info g = \<lparr>cu_UserId = userId g, cu_Username = username g, cu_IsOnline = isOnline g,
     cu_CurrentRoomId = currentRoom g, cu_LoginTime = loginTime g\<rparr>"

definition ChatGetUserInfoReq ::
    "user_env \<Rightarrow> user_grain \<Rightarrow> node \<Rightarrow> RpcMsg \<Rightarrow> (user_grain, unit) handled" where
  "ChatGetUserInfoReq e g w inp =
     (case decode (ucodec_of e) ''ChatGetUserInfoReq'' inp of
        Some (proto_msg.ChatGetUserInfoReq u) \<Rightarrow>
          Ok (g, w, Some (ChatGetUserInfoResp ErrorCode_OK t_success (Some (user_info g))), ErrorCode_OK)
      | _ \<Rightarrow> Ok (g, w, None, ErrorCode_DeSerializeError))"

definition ChatUserMessage ::
    "user_env \<Rightarrow> user_grain \<Rightarrow> node \<Rightarrow> RpcMsg \<Rightarrow> (user_grain, unit) handled" where
  "ChatUserMessage e g w inp =
     (case decode (ucodec_of e) ''ChatUserMessage'' inp of
        Some (proto_msg.ChatUserMessage c) \<Rightarrow>
          if \<not> isOnline g then Ok (g, w, None, ErrorCode_UserNotLoggedIn)
          else Ok (g, w, Some (proto_msg.ChatUserMessage c), ErrorCode_OK)
      | _ \<Rightarrow> Ok (g, w, None, ErrorCode_DeSerializeError))"

definition leaveCurrentRoom :: "user_grain \<Rightarrow> node \<Rightarrow> (user_grain \<times> node) outcome" where
  "leaveCurrentRoom g w =
     (if currentRoom g = '''' then Ok (g, w)
      else
        (let leaveReq = ChatLeaveRoomReq (currentRoom g) (userId g) (username g)
         in case cluster_ptr g of
              None \<Rightarrow> Panic NilDereference
            | Some request \<Rightarrow> Ok (g\<lparr>currentRoom := ''''\<rparr>, request (currentRoom g) ''chat'' leaveReq w)))"

definition ChatLogoutReq ::
    "user_env \<Rightarrow> user_grain \<Rightarrow> node \<Rightarrow> RpcMsg \<Rightarrow> (user_grain, unit) handled" where
  "ChatLogoutReq e g w inp =
     (case decode (ucodec_of e) ''ChatLogoutReq'' inp of
        Some (proto_msg.ChatLogoutReq u s) \<Rightarrow>
          (let g = g\<lparr>isOnline := False, sessionId := ''''\<rparr>
           in obind (if currentRoom g \<noteq> '''' then leaveCurrentRoom g w else Ok (g, w))
                (\<lambda>(g, w). Ok (g, w, Some (ChatLogoutResp ErrorCode_OK t_logged_out), ErrorCode_OK)))
      | _ \<Rightarrow> Ok (g, w, None, ErrorCode_DeSerializeError))"

definition ChatLoginReq ::
    "user_env \<Rightarrow> user_grain \<Rightarrow> node \<Rightarrow> RpcMsg \<Rightarrow> (user_grain, unit) handled" where
  "ChatLoginReq e g w inp =
     (case decode (ucodec_of e) ''ChatLoginReq'' inp of
        Some (proto_msg.ChatLoginReq u n s) \<Rightarrow>
          (let g = g\<lparr>userId := u, username := n, sessionId := s, isOnline := True,
                 loginTime := unixMilli (unow e)\<rparr>
           in Ok (g, w, Some (ChatLoginResp ErrorCode_OK t_logged_in (Some (user_info g))), ErrorCode_OK))
      | _ \<Rightarrow> Ok (g, w, None, ErrorCode_DeSerializeError))"

primrec user_invoke ::
    "user_env \<Rightarrow> user_handler \<Rightarrow> user_grain \<Rightarrow> node \<Rightarrow> RpcMsg \<Rightarrow> (user_grain, unit) handled" where
  "user_invoke e HLogin = ChatLoginReq e"
| "user_invoke e HLogout = ChatLogoutReq e"
| "user_invoke e HUserMessage = ChatUserMessage e"
| "user_invoke e HGetUserInfo = ChatGetUserInfoReq e"

lemmas user_handlers [handler_defs] =
  ChatLoginReq_def ChatLogoutReq_def ChatUserMessage_def ChatGetUserInfoReq_def

section \<open>The hello grain\<close>

text \<open>It registers no handler, so its handler type is arbitrary.\<close>

type_synonym 'h hello_grain = "'h base_grain"

definition HelloGrain_Init :: "'h hello_grain \<Rightarrow> 'h hello_grain" where
  "HelloGrain_Init g = g"

definition NewHelloGrain :: "'h hello_grain" where
  "NewHelloGrain = HelloGrain_Init zero_base"

text \<open>What the props of \<^verbatim>\<open>NewHelloGrainProps\<close> produce when an actor is spawned with them.\<close>

definition NewHelloGrainProps :: "string \<Rightarrow> 'h hello_grain" where
  "NewHelloGrainProps identity = zero_base\<lparr>gIdentity := identity\<rparr>"

section \<open>The specification of a session\<close>

record session =
  ss_online :: bool
  ss_user :: int
  ss_name :: string
  ss_session :: string

fun spec_session :: "proto_msg \<Rightarrow> session \<Rightarrow> session" where
  "spec_session (proto_msg.ChatLoginReq u n i) _ = \<lparr>ss_online = True, ss_user = u, ss_name = n, ss_session = i\<rparr>"
| "spec_session (proto_msg.ChatLogoutReq _ _) s = s\<lparr>ss_online := False, ss_session := ''''\<rparr>"
| "spec_session _ s = s"

definition session_abs :: "user_grain \<Rightarrow> session" where
  "session_abs g = \<lparr>ss_online = isOnline g, ss_user = userId g, ss_name = username g, ss_session = sessionId g\<rparr>"

definition user_table :: "MsgId \<Rightarrow> user_handler option" where
  "user_table = mget [(MsgId_PChatLoginReq, HLogin), (MsgId_PChatLogoutReq, HLogout),
     (MsgId_PChatUserMessage, HUserMessage), (MsgId_PChatGetUserInfoReq, HGetUserInfo)]"

primrec user_request_name :: "user_handler \<Rightarrow> string" where
  "user_request_name HLogin = ''ChatLoginReq''"
| "user_request_name HLogout = ''ChatLogoutReq''"
| "user_request_name HUserMessage = ''ChatUserMessage''"
| "user_request_name HGetUserInfo = ''ChatGetUserInfoReq''"

definition user_request :: "user_env \<Rightarrow> user_handler \<Rightarrow> RpcMsg \<Rightarrow> proto_msg option" where
  "user_request e h m =
     (case decode (ucodec_of e) (user_request_name h) m of
        None \<Rightarrow> None
      | Some q \<Rightarrow> if msg_name q = user_request_name h then Some q else None)"

text \<open>The grain never learns in which room its user is, so logging out never leaves one.\<close>

definition user_inv :: "user_grain \<Rightarrow> node \<Rightarrow> bool" where
  "user_inv g w \<longleftrightarrow> currentRoom g = '''' \<and> (\<not> isOnline g \<longrightarrow> sessionId g = '''') \<and>
     (\<forall>i. find_handler g i = user_table i) \<and> CallCount g = 0"

lemma find_handler_NewUserGrain: "find_handler NewUserGrain i = user_table i"
  by (simp add: NewUserGrain_def UserGrain_Init_def Let_def find_handler_register)
    (simp add: find_handler_def zero_user_def zero_base_def base_grain.defs user_table_def mget_def)

lemma NewUserGrain_simps [simp]:
  "currentRoom NewUserGrain = ''''" "sessionId NewUserGrain = ''''" "\<not> isOnline NewUserGrain"
  "CallCount NewUserGrain = 0" "userId NewUserGrain = 0" "username NewUserGrain = ''''"
  by (simp_all add: NewUserGrain_def UserGrain_Init_def RegisterMsgHandler_def Let_def zero_user_def
      zero_base_def base_grain.defs)

lemma onStarted_user [simp]:
  fixes g :: user_grain
  shows "currentRoom (fst (onStarted ctx g w)) = currentRoom g" "sessionId (fst (onStarted ctx g w)) = sessionId g"
    "isOnline (fst (onStarted ctx g w)) = isOnline g" "userId (fst (onStarted ctx g w)) = userId g"
    "username (fst (onStarted ctx g w)) = username g"
  by (auto simp: onStarted_def Let_def split: option.splits)

lemma user_inv_start: "user_inv g w \<Longrightarrow> user_inv (fst (onStarted ctx g w)) (snd (onStarted ctx g w))"
  by (simp add: user_inv_def)

lemma user_inv_new [wf_intros]: "user_inv NewUserGrain w"
  by (simp add: user_inv_def find_handler_NewUserGrain)

lemma user_invoke_ok:
  "user_inv g w \<Longrightarrow> \<exists>g' w' r c. user_invoke e h g w m = Ok (g', w', r, c) \<and> user_inv g' w'"
  by (cases h) (auto simp: handler_defs Let_def user_inv_def find_handler_def split: option.split proto_msg.split)

lemma leaveCurrentRoom_identity: "leaveCurrentRoom g w = Ok (g', w') \<Longrightarrow> gIdentity g' = gIdentity g"
  by (auto simp: leaveCurrentRoom_def Let_def split: if_splits option.splits)

lemma user_invoke_identity:
  "user_invoke e h g w m = Ok (g', w', r, c) \<Longrightarrow> gIdentity g' = gIdentity g"
  by (cases h) (auto simp: handler_defs Let_def obind_Ok_iff dest: leaveCurrentRoom_identity
      split: option.splits proto_msg.splits if_splits)

lemma simulate_user:
  "user_inv g w \<Longrightarrow> user_invoke e h g w m = Ok (g', w', r, c) \<Longrightarrow>
     session_abs g' = spec_event spec_session (user_request e h m) (session_abs g)"
  by (cases h) (auto simp: handler_defs Let_def user_inv_def user_request_def spec_event_def session_abs_def
      split: option.splits proto_msg.splits if_splits)

interpretation user: grain_refinement user_invoke user_inv user_table user_request session_abs spec_session
proof
  show "\<exists>g' w' r c. user_invoke e h g w m = Ok (g', w', r, c) \<and> user_inv g' w'"
    if "user_inv g w" for g w e h m
    using that by (rule user_invoke_ok)
  show "gIdentity g' = gIdentity g" if "user_invoke e h g w m = Ok (g', w', r, c)" for e h g w m g' w' r c
    using that by (rule user_invoke_identity)
  show "user_inv (fst (onStarted ctx g w)) (snd (onStarted ctx g w))" if "user_inv g w" for g w ctx
    using that by (rule user_inv_start)
  show "find_handler g i = user_table i" if "user_inv g w" for g w i
    using that by (simp add: user_inv_def)
  show "session_abs g' = spec_event spec_session (user_request e h m) (session_abs g)"
    if "user_inv g w" "user_invoke e h g w m = Ok (g', w', r, c)" for g w e h m g' w' r c
    using that by (rule simulate_user)
qed (simp add: session_abs_def)

end
