(* ===== verification/UserProps.thy ===== *)
theory UserProps
  imports UserGrain Samples
begin

text \<open>
  The properties of user sessions and of the hello grain: what a session is after any sequence of
  messages, who receives chat messages, and that a grain without handlers only ever answers that it
  does not know the message.
\<close>

definition user_requests :: "(user_env \<times> actor_ctx \<times> actor_msg) list \<Rightarrow> proto_msg list" where
  "user_requests ms = List.map_filter (\<lambda>(e, c, am). request_in user_table user_request e am) ms"

definition is_session :: "proto_msg \<Rightarrow> bool" where
  "is_session q \<longleftrightarrow> msg_name q = ''ChatLoginReq'' \<or> msg_name q = ''ChatLogoutReq''"

definition last_is_login :: "proto_msg list \<Rightarrow> bool" where
  "last_is_login qs \<longleftrightarrow> (case filter is_session qs of [] \<Rightarrow> False | qs \<Rightarrow> msg_name (last qs) = ''ChatLoginReq'')"

lemma spec_run_requests:
  "spec_run user_table user_request spec ms s = fold spec (user_requests ms) s"
  by (induction ms arbitrary: s)
    (auto simp: spec_run_def user_requests_def spec_event_def map_filter_def split: option.split)

lemma is_session_cases:
  obtains (login) u n i where "q = proto_msg.ChatLoginReq u n i"
  | (logout) u i where "q = proto_msg.ChatLogoutReq u i"
  | (other) "\<not> is_session q" "spec_session q s = s"
  by (cases q) (auto simp: is_session_def)

lemma session_online:
  "ss_online (fold spec_session qs s) =
     (case filter is_session qs of [] \<Rightarrow> ss_online s | qs \<Rightarrow> msg_name (last qs) = ''ChatLoginReq'')"
proof (induction qs rule: rev_induct)
  case Nil
  then show ?case by simp
next
  case (snoc q qs)
  show ?case
    by (rule is_session_cases [where q = q and s = "fold spec_session qs s"])
      (use snoc in \<open>auto simp: is_session_def split: list.splits\<close>)
qed

text \<open>C14: Whatever messages a user's grain receives after it was activated, it never panics and answers
  every envelope once, the session it keeps is the fold of the login and logout requests it decoded,
  and the user is online exactly when the last of those was a login.\<close>

theorem session_mailbox:
  assumes "g = fst (onStarted ctx NewUserGrain w)" and "w1 = snd (onStarted ctx NewUserGrain w)"
    and "\<forall>(e, c, am) \<in> set ms. same_actor g c"
  shows "\<exists>g' w' rs. mailbox ucodec_of user_invoke ms g w1 = Ok (g', w', rs) \<and>
    length rs = length (filter (\<lambda>(e, c, am). is_envelope am) ms) \<and>
    session_abs g' = fold spec_session (user_requests ms) (session_abs NewUserGrain) \<and>
    (isOnline g' \<longleftrightarrow> last_is_login (user_requests ms))"
proof -
  have "user_inv g w1" by (simp add: assms(1,2) user_inv_start user_inv_new)
  from user.mailbox_refines [OF this assms(3), of ucodec_of] obtain g' w' rs
    where m: "mailbox ucodec_of user_invoke ms g w1 = Ok (g', w', rs)"
      and a: "session_abs g' = fold spec_session (user_requests ms) (session_abs NewUserGrain)"
    by (auto simp: spec_run_requests assms(1) session_abs_def)
  have "isOnline g' = ss_online (session_abs g')" by (simp add: session_abs_def)
  also have "\<dots> = last_is_login (user_requests ms)"
    unfolding a session_online last_is_login_def by (auto simp: session_abs_def split: list.split)
  finally show ?thesis using m a mailbox_replies [OF m] by blast
qed

definition sample_user :: "proto_msg list" where
  "sample_user = [proto_msg.ChatLoginReq 7 ''ann'' ''s1'', proto_msg.ChatUserMessage None, proto_msg.ChatLogoutReq 7 ''s1'']"

definition sample_uenv :: user_env where
  "sample_uenv = \<lparr>ucodec_of = table_codec sample_user, unow = noon\<rparr>"

definition user_ctx :: actor_ctx where
  "user_ctx = \<lparr>selfId = ''partition/user-7'', clusterIdentity = Some (''user'', ''user-7'')\<rparr>"

definition user7 :: user_grain where
  "user7 = fst (onStarted user_ctx NewUserGrain new_node)"

definition user_box :: "nat list \<Rightarrow> (user_env \<times> actor_ctx \<times> actor_msg) list" where
  "user_box is = map (\<lambda>i. (sample_uenv, user_ctx, Envelope (sample_rpc sample_user i))) is"

lemma sample_user_request:
  "request_in user_table user_request sample_uenv (Envelope (sample_rpc sample_user 0)) =
     Some (proto_msg.ChatLoginReq 7 ''ann'' ''s1'')"
  "request_in user_table user_request sample_uenv (Envelope (sample_rpc sample_user 1)) =
     Some (proto_msg.ChatUserMessage None)"
proof -
  have t: "user_table (MsgId (sample_rpc sample_user 0)) = Some HLogin"
    "user_table (MsgId (sample_rpc sample_user 1)) = Some HUserMessage"
    by (simp_all add: user_table_def mget_def sample_rpc_def msg_id_def MsgId_value_def
      MsgId_value_entries_def sample_user_def)
  have r: "user_request sample_uenv HLogin (sample_rpc sample_user 0) = Some (proto_msg.ChatLoginReq 7 ''ann'' ''s1'')"
    "user_request sample_uenv HUserMessage (sample_rpc sample_user 1) = Some (proto_msg.ChatUserMessage None)"
    by (simp_all add: user_request_def sample_uenv_def sample_decode sample_user_def)
  show "request_in user_table user_request sample_uenv (Envelope (sample_rpc sample_user 0)) =
     Some (proto_msg.ChatLoginReq 7 ''ann'' ''s1'')"
  "request_in user_table user_request sample_uenv (Envelope (sample_rpc sample_user 1)) =
     Some (proto_msg.ChatUserMessage None)"
    by (simp_all add: request_in_def t r del: One_nat_def)
qed

theorem session_mailbox_witness:
  "\<exists>g' w' rs. mailbox ucodec_of user_invoke (user_box [0, 1]) user7 (snd (onStarted user_ctx NewUserGrain new_node)) =
      Ok (g', w', rs) \<and> length rs = 2 \<and> isOnline g'"
proof -
  have "user7 = fst (onStarted user_ctx NewUserGrain new_node)" by (simp add: user7_def)
  moreover have "\<forall>(e, c, am) \<in> set (user_box [0, 1]). same_actor user7 c"
    by (auto simp: user_box_def same_actor_def user_ctx_def user7_def onStarted_cluster)
  moreover have "last_is_login (user_requests (user_box [0, 1]))"
    using sample_user_request [unfolded One_nat_def]
    by (simp add: last_is_login_def user_requests_def user_box_def map_filter_def is_session_def)
  moreover have "length (filter (\<lambda>(e, c, am). is_envelope am) (user_box [0, 1])) = 2"
    by (simp add: user_box_def is_envelope_def)
  ultimately show ?thesis
    using session_mailbox [of user7 user_ctx new_node _ "user_box [0, 1]"] by auto
qed

text \<open>A chat message sent to a user's grain is handed back with code OK exactly when the user is
  online; otherwise the grain answers UserNotLoggedIn with no message. Neither changes the session.\<close>

theorem user_message_gate:
  assumes "find_handler g (MsgId m) = Some HUserMessage"
    and "decode (ucodec_of e) ''ChatUserMessage'' m = Some (proto_msg.ChatUserMessage c)"
  shows "\<exists>r. Receive (ucodec_of e) (user_invoke e) ctx (Envelope m) g w = Ok (g, w, Some r) \<and>
    Code r = (if isOnline g then ErrorCode_OK else ErrorCode_UserNotLoggedIn) \<and>
    (\<not> isOnline g \<longrightarrow> r = m\<lparr>Code := ErrorCode_UserNotLoggedIn\<rparr>) \<and>
    (isOnline g \<longrightarrow> (\<forall>b. marshal (ucodec_of e) (proto_msg.ChatUserMessage c) = Some b \<longrightarrow>
       MsgId r = MsgId_PChatUserMessage \<and> Data r = Some b))"
proof -
  have id: "has_id (proto_msg.ChatUserMessage c)" "msg_id (proto_msg.ChatUserMessage c) = MsgId_PChatUserMessage"
    by (simp_all add: has_id_def msg_id_def MsgId_value_def MsgId_value_entries_def)
  show ?thesis
    using assms reply_ok [OF id(1)] by (auto simp: Receive_def ChatUserMessage_def id(2) reply_None)
qed

theorem user_message_gate_witness:
  "\<exists>r. Receive (ucodec_of sample_uenv) (user_invoke sample_uenv) user_ctx (Envelope (sample_rpc sample_user 1))
      user7 new_node = Ok (user7, new_node, Some r) \<and> Code r = ErrorCode_UserNotLoggedIn"
proof -
  have f: "find_handler user7 (MsgId (sample_rpc sample_user 1)) = Some HUserMessage"
    by (simp add: user7_def find_handler_NewUserGrain user_table_def mget_def sample_rpc_def msg_id_def
        MsgId_value_def MsgId_value_entries_def sample_user_def)
  have "decode (ucodec_of sample_uenv) ''ChatUserMessage'' (sample_rpc sample_user 1) =
      Some (proto_msg.ChatUserMessage None)"
    by (simp add: sample_uenv_def sample_decode sample_user_def)
  from user_message_gate [OF f this, of user_ctx new_node] show ?thesis
    by (auto simp: user7_def)
qed

lemma hello_handlers [simp]: "find_handler NewHelloGrain i = None"
  by (simp add: find_handler_def NewHelloGrain_def HelloGrain_Init_def zero_base_def)

text \<open>The hello grain has no handlers: whatever envelope reaches it, it comes back unchanged except
  for the code UnknownMsgId, and the grain stays as it is, whatever handler functions there were.\<close>

theorem hello_unknown:
  "mailbox cd invoke (map (\<lambda>m. (e, ctx, Envelope m)) ms) (NewHelloGrain :: 'h hello_grain) w =
     Ok (NewHelloGrain, w, map (\<lambda>m. m\<lparr>Code := ErrorCode_UnknownMsgId\<rparr>) ms)"
  by (induction ms) (simp_all add: Receive_unknown)

end
