(* ===== verification/GoChan.thy ===== *)
theory GoChan
  imports Prelude
begin

text \<open>
  Buffered Go channels and stop channels. Sending on a closed channel and closing a closed channel
  panic; \<^verbatim>\<open>select\<close> with a \<^verbatim>\<open>default\<close> sends when there is room and takes the default otherwise. A
  \<^verbatim>\<open>chan struct{}\<close> that only signals is represented by whether it is closed.
\<close>

record 'a chan =
  buf :: "'a list"
  capacity :: nat
  closed :: bool

definition make_chan :: "nat \<Rightarrow> 'a chan" where
  "make_chan n = \<lparr>buf = [], capacity = n, closed = False\<rparr>"

datatype 'a select_send = Sent "'a chan" | WouldBlock

text \<open>\<^verbatim>\<open>select { case c <- x: ... default: ... }\<close>\<close>

definition select_send :: "'a \<Rightarrow> 'a chan \<Rightarrow> 'a select_send outcome" where
  "select_send x c =
     (if closed c then Panic ClosedChannel
      else if length (buf c) < capacity c then Ok (Sent (c\<lparr>buf := buf c @ [x]\<rparr>))
      else Ok WouldBlock)"

definition close_chan :: "'a chan \<Rightarrow> 'a chan outcome" where
  "close_chan c = (if closed c then Panic ClosedChannel else Ok (c\<lparr>closed := True\<rparr>))"

text \<open>A receive: \<open>None\<close> is the zero value of a closed, drained channel; it blocks otherwise.\<close>

datatype 'a recv = Received 'a "'a chan" | Drained | Blocks

definition recv_chan :: "'a chan \<Rightarrow> 'a recv" where
  "recv_chan c =
     (case buf c of
        x # xs \<Rightarrow> Received x (c\<lparr>buf := xs\<rparr>)
      | [] \<Rightarrow> if closed c then Drained else Blocks)"

definition chan_wf :: "'a chan \<Rightarrow> bool" where
  "chan_wf c \<longleftrightarrow> length (buf c) \<le> capacity c"

lemma chan_wf_make [simp]: "chan_wf (make_chan n)"
  by (simp add: chan_wf_def make_chan_def)

lemma select_send_cases:
  obtains "closed c" "select_send x c = Panic ClosedChannel"
  | "\<not> closed c" "length (buf c) < capacity c" "select_send x c = Ok (Sent (c\<lparr>buf := buf c @ [x]\<rparr>))"
  | "\<not> closed c" "capacity c \<le> length (buf c)" "select_send x c = Ok WouldBlock"
  by (cases "closed c"; cases "length (buf c) < capacity c") (auto simp: select_send_def)

text \<open>A stop channel that is only ever closed.\<close>

datatype stop_chan = Open | Closed

definition close_stop :: "stop_chan \<Rightarrow> stop_chan outcome" where
  "close_stop c = (case c of Open \<Rightarrow> Ok Closed | Closed \<Rightarrow> Panic ClosedChannel)"

end
