(* ===== verification/WebSocket.thy ===== *)
theory WebSocket
  imports BaseGrain Texts GoChan
begin

text \<open>
  \<^verbatim>\<open>internal/api/websocket.go\<close>, \<^verbatim>\<open>internal/api/wsclient.go\<close> and \<^verbatim>\<open>internal/api/ws_grain.go\<close>: the
  WebSocket side of a node. Connections are objects on a heap, addressed by number: the map of online
  users, the actors spawned for them and the pumps all hold the same pointer. The state extends the
  node's, since a request to the cluster may run grains of this node; the cluster is an argument that
  may change anything while the handler waits for it. JSON documents are \<open>jval\<close> and messages to the
  client \<open>ws_out\<close>; reading and writing their text is a parameter. A panic of a handler is \<open>Panic\<close>.
\<close>

section \<open>JSON values\<close>

text \<open>A JSON number is decoded to a finite \<^verbatim>\<open>float64\<close>, which is a rational number.\<close>

datatype jval =
    JNull
  | JBool bool
  | JNum rat
  | JStr string
  | JArr "jval list"
  | JObj "(string, jval) gomap"

record ws_in =
  in_Type :: string
  in_Payload :: jval

text \<open>What the code puts into \<^verbatim>\<open>WSMessage.Payload\<close>.\<close>

datatype ws_payload =
    PMessage string \<comment> \<open>\<^verbatim>\<open>map[string]string{"message": ...}\<close>\<close>
  | PUser "ChatUserInfo option"
  | PChat "ChatMessage option"
  | PRoom "ChatRoomInfo option" \<comment> \<open>\<^verbatim>\<open>{"room": ...}\<close>\<close>
  | PRooms "ChatRoomInfo list" \<comment> \<open>\<^verbatim>\<open>{"rooms": ...}\<close>\<close>
  | PUsers "ChatUserInfo list" \<comment> \<open>\<^verbatim>\<open>{"users": ...}\<close>\<close>
  | PValue jval \<comment> \<open>any other value\<close>

record ws_out =
  out_Type :: string
  out_Payload :: ws_payload

text \<open>\<^verbatim>\<open>int64(f)\<close> truncates; outside the range the result depends on the machine (\<open>oor\<close>).\<close>

definition trunc_rat :: "rat \<Rightarrow> int" where
  "trunc_rat f = (if 0 \<le> f then \<lfloor>f\<rfloor> else \<lceil>f\<rceil>)"

definition float_to_int :: "nat \<Rightarrow> (rat \<Rightarrow> int) \<Rightarrow> rat \<Rightarrow> int" where
  "float_to_int w oor f =
     (let i = trunc_rat f in if - (2 ^ (w - 1)) \<le> i \<and> i < 2 ^ (w - 1) then i else wrap w (oor f))"

text \<open>\<^verbatim>\<open>payload[k].(string)\<close> and \<^verbatim>\<open>payload[k].(float64)\<close>; a missing key is a nil interface.\<close>

definition assert_string :: "jval option \<Rightarrow> string outcome" where
  "assert_string v = (case v of Some (JStr s) \<Rightarrow> Ok s | _ \<Rightarrow> Panic TypeAssertion)"

definition assert_float :: "jval option \<Rightarrow> rat outcome" where
  "assert_float v = (case v of Some (JNum f) \<Rightarrow> Ok f | _ \<Rightarrow> Panic TypeAssertion)"

section \<open>State\<close>

datatype conn_event = TextFrame bytes | CloseFrame | PingFrame

record ws_client =
  conn_open :: bool
  written :: "conn_event list"
  ws_pid :: "string option"
  ws_userID :: int
  ws_username :: string
  ws_sessionID :: string
  ws_currentRoom :: string
  ws_send :: "bytes chan"

datatype ws_handler = HChatUserMessage

record ws_grain = "ws_handler base_grain" +
  wc :: nat \<comment> \<open>the connection's address\<close>
  topic :: string
  wsg_userID :: int

record ws_state = node +
  conns :: "nat \<Rightarrow> ws_client"
  nconns :: nat
  clients :: "(int, nat) gomap"
  spawned :: "(string \<times> ws_grain) list" \<comment> \<open>local actors by pid\<close>
  subs :: "(string \<times> string option) list" \<comment> \<open>topic, pid\<close>

text \<open>What one call of a handler gets from outside.\<close>

record 'n ws_env =
  jenc :: "ws_out \<Rightarrow> bytes option" \<comment> \<open>\<^verbatim>\<open>json.Marshal\<close>\<close>
  jdec :: "bytes \<Rightarrow> ws_in option" \<comment> \<open>\<^verbatim>\<open>json.Unmarshal\<close>\<close>
  wcodec :: codec
  wcluster :: "'n ws_state_scheme cluster"
  wtrace :: string
  raw_request :: "string \<Rightarrow> string \<Rightarrow> proto_msg \<Rightarrow> 'n ws_state_scheme \<Rightarrow> 'n ws_state_scheme" \<comment> \<open>\<^verbatim>\<open>cluster.RequestFuture\<close>\<close>
  oor64 :: "rat \<Rightarrow> int"
  oor32 :: "rat \<Rightarrow> int"
  ulid :: string
  spawn_pid :: "string option" \<comment> \<open>what \<^verbatim>\<open>Spawn\<close> returns\<close>
  subscribe_ok :: bool
  range_list :: "(string, ChatRoomInfo) ranger"
  range_clients :: "(int, nat) ranger"

definition NewWSClient :: ws_client where
  "NewWSClient = \<lparr>conn_open = True, written = [], ws_pid = None, ws_userID = 0, ws_username = '''',
     ws_sessionID = '''', ws_currentRoom = '''', ws_send = make_chan 256\<rparr>"

definition with_client :: "nat \<Rightarrow> (ws_client \<Rightarrow> ws_client) \<Rightarrow> 'n ws_state_scheme \<Rightarrow> 'n ws_state_scheme" where
  "with_client c f s = s\<lparr>conns := (conns s)(c := f (conns s c))\<rparr>"

text \<open>The manager's part of a new state, on a node.\<close>

definition NewWebSocketManager :: "node \<Rightarrow> ws_state" where
  "NewWebSocketManager w = node.extend w
     \<lparr>conns = (\<lambda>_. NewWSClient), nconns = 0, clients = [], spawned = [], subs = []\<rparr>"

text \<open>\<open>upgraded\<close> tells whether \<^verbatim>\<open>Upgrade\<close> succeeded; the new connection's address is returned.\<close>

definition HandleWebSocket :: "bool \<Rightarrow> 'n ws_state_scheme \<Rightarrow> 'n ws_state_scheme \<times> nat option" where
  "HandleWebSocket upgraded s =
     (if \<not> upgraded then (s, None)
      else (s\<lparr>conns := (conns s)(nconns s := NewWSClient), nconns := nconns s + 1\<rparr>, Some (nconns s)))"

section \<open>Sending\<close>

definition sendToClient :: "'n ws_env \<Rightarrow> nat \<Rightarrow> ws_out \<Rightarrow> 'n ws_state_scheme \<Rightarrow> 'n ws_state_scheme outcome" where
  "sendToClient e c msg s =
     (case jenc e msg of
        None \<Rightarrow> Ok s
      | Some data \<Rightarrow>
          obind (select_send data (ws_send (conns s c))) (\<lambda>r.
            case r of
              Sent ch \<Rightarrow> Ok (with_client c (\<lambda>x. x\<lparr>ws_send := ch\<rparr>) s)
            | WouldBlock \<Rightarrow>
                obind (close_chan (ws_send (conns s c)))
                  (\<lambda>ch. Ok (with_client c (\<lambda>x. x\<lparr>ws_send := ch\<rparr>) s))))"

text \<open>\<^verbatim>\<open>WSClient.SendToClient\<close> has the same body.\<close>

definition SendToClient :: "'n ws_env \<Rightarrow> nat \<Rightarrow> ws_out \<Rightarrow> 'n ws_state_scheme \<Rightarrow> 'n ws_state_scheme outcome" where
  "SendToClient e c msg s = sendToClient e c msg s"

definition notice :: "string \<Rightarrow> string \<Rightarrow> ws_out" where
  "notice t m = \<lparr>out_Type = t, out_Payload = PMessage m\<rparr>"

text \<open>Both branches of the type switch build the same message; a full channel drops it.\<close>

definition SendToUser :: "'n ws_env \<Rightarrow> int \<Rightarrow> ws_payload \<Rightarrow> 'n ws_state_scheme \<Rightarrow> ('n ws_state_scheme \<times> bool) outcome" where
  "SendToUser e userID message s =
     (case mget (clients s) userID of
        None \<Rightarrow> Ok (s, True)
      | Some c \<Rightarrow>
          (let wsMsg = \<lparr>out_Type = ''new_message'', out_Payload = message\<rparr>
           in case jenc e wsMsg of
                None \<Rightarrow> Ok (s, False)
              | Some data \<Rightarrow>
                  obind (select_send data (ws_send (conns s c))) (\<lambda>r.
                    case r of
                      Sent ch \<Rightarrow> Ok (with_client c (\<lambda>x. x\<lparr>ws_send := ch\<rparr>) s, True)
                    | WouldBlock \<Rightarrow> Ok (s, True))))"

definition GetOnlineUsers :: "'n ws_env \<Rightarrow> 'n ws_state_scheme \<Rightarrow> int list" where
  "GetOnlineUsers e s = map fst (range_clients e (clients s))"

definition IsUserOnline :: "int \<Rightarrow> 'n ws_state_scheme \<Rightarrow> bool" where
  "IsUserOnline userID s = mhas (clients s) userID"

definition unregisterClient :: "nat \<Rightarrow> 'n ws_state_scheme \<Rightarrow> 'n ws_state_scheme" where
  "unregisterClient c s =
     (if ws_userID (conns s c) = 0 then s
      else s\<lparr>clients := mdel (ws_userID (conns s c)) (clients s)\<rparr>)"

section \<open>The connection's actor\<close>

definition WebSocketGrain_Init :: "ws_grain \<Rightarrow> ws_grain" where
  "WebSocketGrain_Init g = RegisterMsgHandler MsgId_PChatUserMessage HChatUserMessage g"

definition NewWebSocketGrain :: "nat \<Rightarrow> int \<Rightarrow> string \<Rightarrow> ws_grain" where
  "NewWebSocketGrain c userID t =
     WebSocketGrain_Init ((base_grain.extend zero_base \<lparr>wc = c, topic = t, wsg_userID = 0\<rparr>)
       \<lparr>gKind := ''client'', gIdentity := show_int userID\<rparr>)"

definition ChatUserMessage ::
    "'n ws_env \<Rightarrow> ws_grain \<Rightarrow> 'n ws_state_scheme \<Rightarrow> RpcMsg \<Rightarrow> (ws_grain \<times> 'n ws_state_scheme \<times> proto_msg option \<times> ErrorCode) outcome" where
  "ChatUserMessage e g s inp =
     (case decode (wcodec e) ''ChatUserMessage'' inp of
        Some (proto_msg.ChatUserMessage m) \<Rightarrow>
          obind (SendToClient e (wc g) \<lparr>out_Type = ''new_message'', out_Payload = PChat m\<rparr> s)
            (\<lambda>s. Ok (g, s, None, ErrorCode_OK))
      | _ \<Rightarrow> Ok (g, s, None, ErrorCode_DeSerializeError))"

primrec ws_invoke ::
    "'n ws_env \<Rightarrow> ws_handler \<Rightarrow> ws_grain \<Rightarrow> 'n ws_state_scheme \<Rightarrow> RpcMsg \<Rightarrow> (ws_grain \<times> 'n ws_state_scheme \<times> proto_msg option \<times> ErrorCode) outcome" where
  "ws_invoke e HChatUserMessage = ChatUserMessage e"

definition onStopping :: "ws_grain \<Rightarrow> 'n ws_state_scheme \<Rightarrow> 'n ws_state_scheme" where
  "onStopping g s = with_client (wc g) (\<lambda>x. x\<lparr>conn_open := False\<rparr>) s"

definition GetUserID :: "nat \<Rightarrow> 'n ws_state_scheme \<Rightarrow> int" where
  "GetUserID c s = ws_userID (conns s c)"

definition GetSessionID :: "nat \<Rightarrow> 'n ws_state_scheme \<Rightarrow> string" where
  "GetSessionID c s = ws_sessionID (conns s c)"

text \<open>\<^verbatim>\<open>OnLogin\<close> returns whether it succeeded; the caller ignores it.\<close>

definition OnLogin :: "'n ws_env \<Rightarrow> nat \<Rightarrow> 'n ws_state_scheme \<Rightarrow> 'n ws_state_scheme \<times> bool" where
  "OnLogin e c s =
     (let s = with_client c (\<lambda>x. x\<lparr>ws_pid := spawn_pid e\<rparr>) s
      in case spawn_pid e of
           None \<Rightarrow> (s, False)
         | Some p \<Rightarrow> (s\<lparr>spawned := spawned s @
             [(p, NewWebSocketGrain c (ws_userID (conns s c)) (ws_sessionID (conns s c)))]\<rparr>, True))"

definition SubscribeTopic :: "'n ws_env \<Rightarrow> nat \<Rightarrow> string \<Rightarrow> 'n ws_state_scheme \<Rightarrow> 'n ws_state_scheme" where
  "SubscribeTopic e c t s =
     (if subscribe_ok e then s\<lparr>subs := subs s @ [(t, ws_pid (conns s c))]\<rparr> else s)"

section \<open>Handlers\<close>

text \<open>
  \<^verbatim>\<open>handleLogin\<close> in the pieces between which other connections may act: it reads the payload, looks
  whether the user is online (under the read lock), registers the connection (under the write lock),
  and asks the user's grain.
\<close>

definition login_request :: "'n ws_env \<Rightarrow> ws_in \<Rightarrow> (int \<times> string \<times> string) option outcome" where
  "login_request e msg =
     (case in_Payload msg of
        JObj payload \<Rightarrow>
          obind (assert_float (mget payload ''user_id'')) (\<lambda>f.
          obind (assert_string (mget payload ''username'')) (\<lambda>n.
          obind (assert_string (mget payload ''session_id'')) (\<lambda>i.
            Ok (Some (float_to_int 64 (oor64 e) f, n, i)))))
      | _ \<Rightarrow> Ok None)"

definition login_register :: "nat \<Rightarrow> int \<times> string \<times> string \<Rightarrow> 'n ws_state_scheme \<Rightarrow> 'n ws_state_scheme" where
  "login_register c = (\<lambda>(userID, username, sessionID) s.
     (with_client c (\<lambda>x. x\<lparr>ws_userID := userID, ws_username := username, ws_sessionID := sessionID\<rparr>) s)
       \<lparr>clients := mput userID c (clients s)\<rparr>)"

definition login_finish :: "'n ws_env \<Rightarrow> nat \<Rightarrow> int \<times> string \<times> string \<Rightarrow> 'n ws_state_scheme \<Rightarrow> 'n ws_state_scheme outcome" where
  "login_finish e c = (\<lambda>(userID, username, sessionID) s.
     obind (Rpc (wcluster e) (wcodec e) (wtrace e) (''user-'' @ show_int userID) ''user'' ''Login''
         (ChatLoginReq userID username sessionID) s)
       (\<lambda>(s, r). case r of
          Inl err \<Rightarrow> sendToClient e c (notice ''login_error'' t_login_failed) s
        | Inr (ChatLoginResp code m user) \<Rightarrow>
            if code = ErrorCode_OK
            then sendToClient e c \<lparr>out_Type = ''login_success'', out_Payload = PUser user\<rparr> (fst (OnLogin e c s))
            else sendToClient e c (notice ''login_error'' m) s
        | Inr _ \<Rightarrow> Ok s))"

definition handleLogin :: "'n ws_env \<Rightarrow> nat \<Rightarrow> ws_in \<Rightarrow> 'n ws_state_scheme \<Rightarrow> 'n ws_state_scheme outcome" where
  "handleLogin e c msg s =
     obind (login_request e msg) (\<lambda>q.
       case q of
         None \<Rightarrow> sendToClient e c (notice ''login_error'' t_bad_format) s
       | Some (userID, username, sessionID) \<Rightarrow>
           if mhas (clients s) userID then sendToClient e c (notice ''login_error'' t_already_online) s
           else login_finish e c (userID, username, sessionID)
             (login_register c (userID, username, sessionID) s))"

definition handleLogout :: "'n ws_env \<Rightarrow> nat \<Rightarrow> 'n ws_state_scheme \<Rightarrow> 'n ws_state_scheme outcome" where
  "handleLogout e c s =
     (if ws_userID (conns s c) = 0 then Ok s
      else
        (let userIdentity = ''user-'' @ show_int (ws_userID (conns s c));
             logoutReq = ChatLogoutReq (ws_userID (conns s c)) (ws_sessionID (conns s c));
             s = raw_request e userIdentity ''user'' logoutReq s
         in obind (Rpc (wcluster e) (wcodec e) (wtrace e) userIdentity ''user'' ''Logout'' logoutReq s)
              (\<lambda>(s, r). case r of
                 Inl err \<Rightarrow> sendToClient e c (notice ''error'' t_logout_failed) s
               | Inr (ChatLogoutResp code m) \<Rightarrow>
                   if code = ErrorCode_OK
                   then sendToClient e c (notice ''logout_success'' t_logged_out) (unregisterClient c s)
                   else sendToClient e c (notice ''error'' m) s
               | Inr _ \<Rightarrow> sendToClient e c (notice ''error'' t_logout_failed) s)))"

definition handleCreateRoom :: "'n ws_env \<Rightarrow> nat \<Rightarrow> ws_in \<Rightarrow> 'n ws_state_scheme \<Rightarrow> 'n ws_state_scheme outcome" where
  "handleCreateRoom e c msg s =
     (if ws_userID (conns s c) = 0 then sendToClient e c (notice ''error'' t_login_first) s
      else case in_Payload msg of
        JObj payload \<Rightarrow>
          obind (assert_string (mget payload ''room_name'')) (\<lambda>roomName.
          obind (assert_float (mget payload ''max_members'')) (\<lambda>f.
            let roomName = (if roomName = '''' then ''room-'' @ ulid e else roomName);
                createReq = ChatCreateRoomReq roomName (ws_userID (conns s c)) (ws_username (conns s c))
                  (float_to_int 32 (oor32 e) f)
            in obind (Rpc (wcluster e) (wcodec e) (wtrace e) roomName ''chat'' ''CreateRoom'' createReq s)
                 (\<lambda>(s, r). case r of
                    Inl err \<Rightarrow> sendToClient e c (notice ''error'' t_create_failed) s
                  | Inr (ChatCreateRoomResp code m room) \<Rightarrow>
                      if code = ErrorCode_OK then sendToClient e c (notice ''room_created'' m) s
                      else sendToClient e c (notice ''error'' m) s
                  | Inr _ \<Rightarrow> sendToClient e c (notice ''error'' t_create_failed) s)))
      | _ \<Rightarrow> sendToClient e c (notice ''error'' t_bad_format) s)"

definition handleJoinRoom :: "'n ws_env \<Rightarrow> nat \<Rightarrow> ws_in \<Rightarrow> 'n ws_state_scheme \<Rightarrow> 'n ws_state_scheme outcome" where
  "handleJoinRoom e c msg s =
     (if ws_userID (conns s c) = 0 then sendToClient e c (notice ''error'' t_login_first) s
      else case in_Payload msg of
        JObj payload \<Rightarrow>
          obind (assert_string (mget payload ''room_id'')) (\<lambda>roomID.
            let joinReq = ChatJoinRoomReq roomID (ws_userID (conns s c)) (ws_username (conns s c))
            in obind (Rpc (wcluster e) (wcodec e) (wtrace e) roomID ''chat'' ''JoinRoom'' joinReq s)
                 (\<lambda>(s, r). case r of
                    Inl err \<Rightarrow> sendToClient e c (notice ''error'' t_join_failed) s
                  | Inr (ChatJoinRoomResp code m room recent) \<Rightarrow>
                      if code = ErrorCode_OK
                      then sendToClient e c \<lparr>out_Type = ''room_joined'', out_Payload = PRoom room\<rparr>
                        (SubscribeTopic e c roomID (with_client c (\<lambda>x. x\<lparr>ws_currentRoom := roomID\<rparr>) s))
                      else sendToClient e c (notice ''room_joined'' t_join_failed) s
                  | Inr _ \<Rightarrow> Ok s))
      | _ \<Rightarrow> sendToClient e c (notice ''error'' t_bad_format) s)"

text \<open>The error of the call is only logged; an error or any other response says that leaving failed.\<close>

definition handleLeaveRoom :: "'n ws_env \<Rightarrow> nat \<Rightarrow> 'n ws_state_scheme \<Rightarrow> 'n ws_state_scheme outcome" where
  "handleLeaveRoom e c s =
     (let x = conns s c
      in if ws_userID x = 0 \<or> ws_currentRoom x = '''' then Ok s
         else obind (Rpc (wcluster e) (wcodec e) (wtrace e) (ws_currentRoom x) ''chat'' ''LeaveRoom''
             (ChatLeaveRoomReq (ws_currentRoom x) (ws_userID x) (ws_username x)) s)
           (\<lambda>(s, r). case r of
              Inr (ChatLeaveRoomResp code m) \<Rightarrow>
                if code = ErrorCode_OK
                then sendToClient e c (notice ''room_left'' m) (with_client c (\<lambda>x. x\<lparr>ws_currentRoom := ''''\<rparr>) s)
                else Ok s
            | _ \<Rightarrow> sendToClient e c (notice ''room_left'' t_leave_failed) s))"

definition handleSendMessage :: "'n ws_env \<Rightarrow> nat \<Rightarrow> ws_in \<Rightarrow> 'n ws_state_scheme \<Rightarrow> 'n ws_state_scheme outcome" where
  "handleSendMessage e c msg s =
     (let x = conns s c
      in if ws_userID x = 0 \<or> ws_currentRoom x = '''' then sendToClient e c (notice ''error'' t_join_first) s
         else case in_Payload msg of
           JObj payload \<Rightarrow>
             obind (assert_string (mget payload ''content'')) (\<lambda>content.
             obind (Rpc (wcluster e) (wcodec e) (wtrace e) (ws_currentRoom x) ''chat'' ''SendMessage''
                 (ChatSendMessageReq (ws_currentRoom x) (ws_userID x) (ws_username x) content ChatMsgType_TEXT) s)
               (\<lambda>(s, r). case r of
                  Inl err \<Rightarrow> sendToClient e c (notice ''error'' t_send_failed) s
                | Inr (ChatSendMessageResp code m d) \<Rightarrow>
                    if code \<noteq> ErrorCode_OK then sendToClient e c (notice ''error'' m) s
                    else sendToClient e c \<lparr>out_Type = ''new_message'', out_Payload = PChat d\<rparr> s
                | Inr _ \<Rightarrow> sendToClient e c (notice ''error'' t_send_failed) s))
         | _ \<Rightarrow> sendToClient e c (notice ''error'' t_bad_format) s)"

definition handleGetRoomList :: "'n ws_env \<Rightarrow> nat \<Rightarrow> ws_in \<Rightarrow> 'n ws_state_scheme \<Rightarrow> 'n ws_state_scheme outcome" where
  "handleGetRoomList e c msg s =
     (if ws_userID (conns s c) = 0 then sendToClient e c (notice ''error'' t_login_first) s
      else sendToClient e c
        \<lparr>out_Type = ''room_list'', out_Payload = PRooms (GetAllRooms (range_list e) (roomReg s))\<rparr> s)"

definition handleGetRoomUsers :: "'n ws_env \<Rightarrow> nat \<Rightarrow> ws_in \<Rightarrow> 'n ws_state_scheme \<Rightarrow> 'n ws_state_scheme outcome" where
  "handleGetRoomUsers e c msg s =
     (let x = conns s c
      in if ws_userID x = 0 \<or> ws_currentRoom x = '''' then sendToClient e c (notice ''error'' t_join_first) s
         else obind (Rpc (wcluster e) (wcodec e) (wtrace e) (ws_currentRoom x) ''chat'' ''GetRoomUsers''
             (ChatGetRoomUsersReq (ws_currentRoom x)) s)
           (\<lambda>(s, r). case r of
              Inr (ChatGetRoomUsersResp code m us) \<Rightarrow>
                sendToClient e c \<lparr>out_Type = ''room_users'', out_Payload = PUsers us\<rparr> s
            | _ \<Rightarrow> sendToClient e c (notice ''error'' t_users_failed) s))"

definition handleMessage :: "'n ws_env \<Rightarrow> nat \<Rightarrow> ws_in \<Rightarrow> 'n ws_state_scheme \<Rightarrow> 'n ws_state_scheme outcome" where
  "handleMessage e c msg s =
     (if in_Type msg = ''login'' then handleLogin e c msg s
      else if in_Type msg = ''logout'' then handleLogout e c s
      else if in_Type msg = ''create_room'' then handleCreateRoom e c msg s
      else if in_Type msg = ''join_room'' then handleJoinRoom e c msg s
      else if in_Type msg = ''leave_room'' then handleLeaveRoom e c s
      else if in_Type msg = ''send_message'' then handleSendMessage e c msg s
      else if in_Type msg = ''get_room_list'' then handleGetRoomList e c msg s
      else if in_Type msg = ''get_room_users'' then handleGetRoomUsers e c msg s
      else sendToClient e c (notice ''error'' t_unknown_type) s)"

section \<open>The pumps\<close>

text \<open>What \<^verbatim>\<open>conn.ReadMessage\<close> delivers.\<close>

datatype frame = ReadError | Frame bytes

text \<open>
  The read loop over the frames that arrive; the flag tells whether it has ended. When it ends the
  deferred function unregisters the client and closes the connection.
\<close>

fun readPump :: "nat \<Rightarrow> ('n ws_env \<times> frame) list \<Rightarrow> 'n ws_state_scheme \<Rightarrow> ('n ws_state_scheme \<times> bool) outcome" where
  "readPump c [] s = Ok (s, False)"
| "readPump c ((e, ReadError) # fs) s =
     Ok (with_client c (\<lambda>x. x\<lparr>conn_open := False\<rparr>) (unregisterClient c s), True)"
| "readPump c ((e, Frame message) # fs) s =
     (case jdec e message of
        None \<Rightarrow> readPump c fs s
      | Some wsMsg \<Rightarrow> obind (handleMessage e c wsMsg s) (readPump c fs))"

text \<open>\<^verbatim>\<open>n := len(send)\<close> receives, each preceded by a newline: the newline and the message go into the frame.\<close>

fun drain :: "nat \<Rightarrow> bytes chan \<Rightarrow> bytes \<Rightarrow> bytes chan \<times> bytes" where
  "drain 0 ch w = (ch, w)"
| "drain (Suc n) ch w =
     (case recv_chan ch of
        Received m ch \<Rightarrow> drain n ch (w @ [10] @ m)
      | _ \<Rightarrow> drain n ch (w @ [10]))"

text \<open>What \<^verbatim>\<open>select\<close> picks and whether the connection's operations succeed.\<close>

datatype pump_event = TakeMessage | Tick

record pump_env =
  writer_ok :: bool
  flush_ok :: bool
  ping_ok :: bool

text \<open>One round of the write loop; \<open>None\<close>: the case is not ready. The flag tells whether it goes on.\<close>

definition writePump :: "pump_env \<Rightarrow> pump_event \<Rightarrow> ws_client \<Rightarrow> (ws_client \<times> bool) option" where
  "writePump p ev x =
     (case ev of
        TakeMessage \<Rightarrow>
          (case recv_chan (ws_send x) of
             Blocks \<Rightarrow> None
           | Drained \<Rightarrow> Some (x\<lparr>written := written x @ [CloseFrame], conn_open := False\<rparr>, False)
           | Received message ch \<Rightarrow>
               if \<not> writer_ok p then Some (x\<lparr>ws_send := ch, conn_open := False\<rparr>, False)
               else (let n = length (buf ch); (ch, w) = drain n ch message
                     in if flush_ok p then Some (x\<lparr>ws_send := ch, written := written x @ [TextFrame w]\<rparr>, True)
                        else Some (x\<lparr>ws_send := ch, conn_open := False\<rparr>, False)))
      | Tick \<Rightarrow>
          if ping_ok p then Some (x\<lparr>written := written x @ [PingFrame]\<rparr>, True)
          else Some (x\<lparr>conn_open := False\<rparr>, False))"

text \<open>\<^verbatim>\<open>WSClient.Close\<close>.\<close>

definition Close :: "nat \<Rightarrow> 'n ws_state_scheme \<Rightarrow> 'n ws_state_scheme" where
  "Close c s = with_client c (\<lambda>x. x\<lparr>conn_open := False\<rparr>) s"

end
