(* ===== verification/WsProps.thy ===== *)
theory WsProps
  imports WebSocket Samples
begin

text \<open>
  The properties of the WebSocket side: what a connection may do before it logs in, logging in and
  out, who is online, payloads that crash a handler, the bounded send buffer and the frames it is
  written in, and the delivery of room broadcasts.
\<close>

section \<open>Facts about sending\<close>

lemma with_client_simps [simp]:
  "clients (with_client c f s) = clients s" "roomReg (with_client c f s) = roomReg s"
  "grainReg (with_client c f s) = grainReg s" "published (with_client c f s) = published s"
  "spawned (with_client c f s) = spawned s" "subs (with_client c f s) = subs s"
  "conns (with_client c f s) d = (if d = c then f (conns s c) else conns s d)"
  "nconns (with_client c f s) = nconns s"
  by (simp_all add: with_client_def)

lemma with_client_id [simp]: "with_client c (\<lambda>x. x) s = s"
  by (simp add: with_client_def)

text \<open>Two states that differ at most in one connection's send buffer.\<close>

definition only_send :: "nat \<Rightarrow> 'n ws_state_scheme \<Rightarrow> 'n ws_state_scheme \<Rightarrow> bool" where
  "only_send c s s' \<longleftrightarrow> (\<exists>ch. s' = with_client c (\<lambda>x. x\<lparr>ws_send := ch\<rparr>) s)"

lemma only_send_with [simp]: "only_send c s (with_client c (\<lambda>x. x\<lparr>ws_send := ch\<rparr>) s)"
  by (auto simp: only_send_def)

lemma only_send_refl [simp]: "only_send c s s"
  unfolding only_send_def by (rule exI [of _ "ws_send (conns s c)"]) (simp add: with_client_def)

lemma only_sendD:
  assumes "only_send c s s'"
  shows "clients s' = clients s" "roomReg s' = roomReg s" "spawned s' = spawned s" "subs s' = subs s"
    and "d \<noteq> c \<Longrightarrow> conns s' d = conns s d" "ws_userID (conns s' d) = ws_userID (conns s d)"
    and "ws_currentRoom (conns s' d) = ws_currentRoom (conns s d)"
    and "ws_pid (conns s' d) = ws_pid (conns s d)" "nconns s' = nconns s"
  using assms by (auto simp: only_send_def)

lemma sendToClient_frame:
  assumes "sendToClient e c m s = Ok s'"
  shows "only_send c s s'"
proof (cases "jenc e m")
  case None
  with assms show ?thesis by (simp add: sendToClient_def)
next
  case (Some b)
  show ?thesis
    by (rule select_send_cases [of "ws_send (conns s c)" b])
      (use assms Some in \<open>auto simp: sendToClient_def close_chan_def\<close>)
qed

lemma sendToClient_open:
  assumes "\<not> closed (ws_send (conns s c))"
  obtains s' where "sendToClient e c m s = Ok s'" "only_send c s s'"
proof -
  have "\<exists>s'. sendToClient e c m s = Ok s'"
    by (rule select_send_cases [of "ws_send (conns s c)" "the (jenc e m)"])
      (use assms in \<open>auto simp: sendToClient_def close_chan_def split: option.split\<close>)
  then show ?thesis using that sendToClient_frame by blast
qed

lemma sendToClient_room:
  "jenc e m = Some b \<Longrightarrow> \<not> closed (ws_send (conns s c)) \<Longrightarrow>
     length (buf (ws_send (conns s c))) < capacity (ws_send (conns s c)) \<Longrightarrow>
     sendToClient e c m s = Ok (with_client c (\<lambda>x. x\<lparr>ws_send := (ws_send x)\<lparr>buf := buf (ws_send x) @ [b]\<rparr>\<rparr>) s)"
  by (simp add: sendToClient_def select_send_def with_client_def)

section \<open>Sample environments\<close>

text \<open>A node on which connections 0 and 1 are open, and a cluster that cannot be reached or answers every
  request with the second message of a table.\<close>

definition two_conns :: ws_state where
  "two_conns = (NewWebSocketManager new_node)\<lparr>nconns := 2\<rparr>"

definition no_cluster :: "ws_state cluster" where
  "no_cluster s i k m = (s, FutureErr)"

definition answers :: "proto_msg list \<Rightarrow> ws_state cluster" where
  "answers ms s i k m = (s, Replied (sample_rpc ms 1))"

definition wenv :: "ws_state cluster \<Rightarrow> proto_msg list \<Rightarrow> unit ws_env" where
  "wenv cl ms = \<lparr>jenc = \<lambda>m. Some [1], jdec = \<lambda>b. None, wcodec = table_codec ms, wcluster = cl, wtrace = '''',
     raw_request = \<lambda>i k m s. s, oor64 = \<lambda>f. 0, oor32 = \<lambda>f. 0, ulid = ''01H'', spawn_pid = Some ''$1'',
     subscribe_ok = True, range_list = \<lambda>m. m, range_clients = \<lambda>m. m\<rparr>"

definition login_msg :: ws_in where
  "login_msg = \<lparr>in_Type = ''login'', in_Payload = JObj [(''user_id'', JNum 7), (''username'', JStr ''ann''),
     (''session_id'', JStr ''s1'')]\<rparr>"

lemma wenv_simps [simp]:
  "jenc (wenv cl ms) m = Some [1]" "wcluster (wenv cl ms) = cl" "wcodec (wenv cl ms) = table_codec ms"
  "spawn_pid (wenv cl ms) = Some ''$1''" "wtrace (wenv cl ms) = ''''" "raw_request (wenv cl ms) i k q s = s"
  by (simp_all add: wenv_def)

lemma two_conns_simps [simp]:
  "conns two_conns c = NewWSClient" "clients two_conns = []" "spawned two_conns = []" "subs two_conns = []"
  by (simp_all add: two_conns_def NewWebSocketManager_def new_node_def node.defs)

lemma NewWSClient_simps [simp]:
  "ws_userID NewWSClient = 0" "ws_currentRoom NewWSClient = ''''" "\<not> closed (ws_send NewWSClient)"
  "buf (ws_send NewWSClient) = []" "capacity (ws_send NewWSClient) = 256" "conn_open NewWSClient"
  "ws_pid NewWSClient = None"
  by (simp_all add: NewWSClient_def make_chan_def)

lemma login_request_msg: "login_request (wenv cl ms) login_msg = Ok (Some (7, ''ann'', ''s1''))"
  by (simp add: login_request_def login_msg_def assert_float_def assert_string_def mget_def
      float_to_int_def trunc_rat_def)

section \<open>Before logging in\<close>

text \<open>C21: A connection without a user id cannot do anything but log in. That is a connection on which no login was
  begun; the id stays even when the login fails (C23). Whatever other message it sends, well-formed
  or not, at most its own send buffer changes: no user goes on- or offline, no actor is spawned, nothing
  is subscribed, and no request reaches the cluster (the outcome is the same with any other cluster in
  its place).\<close>

theorem login_required:
  assumes "ws_userID (conns s c) = 0" "in_Type msg \<noteq> ''login''"
  shows "(\<forall>s'. handleMessage e c msg s = Ok s' \<longrightarrow> only_send c s s') \<and>
    handleMessage (e\<lparr>wcluster := cl, raw_request := rr\<rparr>) c msg s = handleMessage e c msg s"
  using assms sendToClient_frame
  by (auto simp: handleMessage_def handleLogout_def handleCreateRoom_def handleJoinRoom_def handleLeaveRoom_def
      handleSendMessage_def handleGetRoomList_def handleGetRoomUsers_def Let_def sendToClient_def
      split: if_splits)

theorem login_required_witness:
  "handleMessage (wenv no_cluster []) 0 \<lparr>in_Type = ''join_room'', in_Payload = JNull\<rparr> two_conns =
   handleMessage (wenv (answers []) []) 0 \<lparr>in_Type = ''join_room'', in_Payload = JNull\<rparr> two_conns"
  using login_required [where s = two_conns and c = 0 and e = "wenv (answers []) []" and cl = no_cluster
      and rr = "raw_request (wenv no_cluster [])" and msg = "\<lparr>in_Type = ''join_room'', in_Payload = JNull\<rparr>"]
  by (simp add: wenv_def)

section \<open>Logging in\<close>

text \<open>A user id that is online cannot be taken over: the login is answered with an error, and apart
  from the answer in the sender's buffer nothing changes, whatever the cluster would have said.\<close>

theorem login_duplicate:
  assumes "login_request e msg = Ok (Some (u, n, i))" "IsUserOnline u s"
  shows "handleLogin e c msg s = sendToClient e c (notice ''login_error'' t_already_online) s \<and>
    (\<forall>s'. handleLogin e c msg s = Ok s' \<longrightarrow> only_send c s s' \<and> clients s' = clients s)"
  using assms by (auto simp: handleLogin_def IsUserOnline_def dest: sendToClient_frame only_sendD(1))

theorem login_duplicate_witness:
  "\<exists>s. IsUserOnline 7 s \<and> handleLogin (wenv no_cluster []) 1 login_msg s =
     sendToClient (wenv no_cluster []) 1 (notice ''login_error'' t_already_online) s"
proof -
  have "IsUserOnline 7 (two_conns\<lparr>clients := [(7, 0)]\<rparr>)"
    by (simp add: IsUserOnline_def mhas_def mget_def)
  with login_duplicate [OF login_request_msg this] show ?thesis by blast
qed

text \<open>Who a connection says it is. Only its own handlers write this, and they run one after the other.\<close>

definition identity_of :: "nat \<Rightarrow> 'n ws_state_scheme \<Rightarrow> int \<times> string \<times> string" where
  "identity_of c s = (ws_userID (conns s c), ws_username (conns s c), ws_sessionID (conns s c))"

text \<open>C22: A login that the user's grain accepts. The connection takes the id, name and session it sent and is
  put into the map of online users; then the grain is asked, and meanwhile anything may happen (\<open>s1\<close> is the
  state when the answer comes) except that the connection's own identity, which nobody else writes, stays.
  After that exactly this is done: a local actor is spawned for the connection, with the user id as
  identity and the session as topic, and its pid is remembered; and if the send buffer is open and has
  room, the success message with the user the grain returned is put at its end. The map is left as it was
  when the answer came, and nothing else of the connection changes.\<close>

theorem login_success:
  assumes "login_request e msg = Ok (Some (u, n, i))" "\<not> IsUserOnline u s"
    and "Rpc (wcluster e) (wcodec e) (wtrace e) (''user-'' @ show_int u) ''user'' ''Login'' (ChatLoginReq u n i)
      (login_register c (u, n, i) s) = Ok (s1, Inr (ChatLoginResp ErrorCode_OK t usr))"
    and "identity_of c s1 = (u, n, i)"
    and "spawn_pid e = Some p" "jenc e \<lparr>out_Type = ''login_success'', out_Payload = PUser usr\<rparr> = Some b"
    and "\<not> closed (ws_send (conns s1 c))" "length (buf (ws_send (conns s1 c))) < capacity (ws_send (conns s1 c))"
  shows "identity_of c (login_register c (u, n, i) s) = (u, n, i) \<and>
    clients (login_register c (u, n, i) s) = mput u c (clients s) \<and>
    (\<exists>s'. handleLogin e c msg s = Ok s' \<and> clients s' = clients s1 \<and>
      spawned s' = spawned s1 @ [(p, NewWebSocketGrain c u i)] \<and>
      gIdentity (NewWebSocketGrain c u i) = show_int u \<and> topic (NewWebSocketGrain c u i) = i \<and>
      conns s' = (conns s1)(c := (conns s1 c)\<lparr>ws_pid := Some p,
        ws_send := (ws_send (conns s1 c))\<lparr>buf := buf (ws_send (conns s1 c)) @ [b]\<rparr>\<rparr>))"
proof -
  have k: "ws_userID (conns s1 c) = u" "ws_sessionID (conns s1 c) = i"
    using assms(4) by (simp_all add: identity_of_def)
  have g: "gIdentity (NewWebSocketGrain c u i) = show_int u" "topic (NewWebSocketGrain c u i) = i"
    by (simp_all add: NewWebSocketGrain_def WebSocketGrain_Init_def RegisterMsgHandler_def Let_def
        base_grain.defs zero_base_def)
  show ?thesis
    using assms(1-3,5-) k g
    by (simp add: handleLogin_def IsUserOnline_def login_finish_def OnLogin_def Let_def sendToClient_def select_send_def
        login_register_def identity_of_def with_client_def)
qed

definition login_table :: "proto_msg list" where
  "login_table = [ChatLoginReq 7 ''ann'' ''s1'', ChatLoginResp ErrorCode_OK t_logged_in None]"

theorem login_success_witness:
  "\<exists>s'. handleLogin (wenv (answers login_table) login_table) 0 login_msg two_conns = Ok s' \<and>
     clients s' = [(7, 0)] \<and> ws_pid (conns s' 0) = Some ''$1'' \<and> buf (ws_send (conns s' 0)) = [[1]] \<and>
     identity_of 0 s' = (7, ''ann'', ''s1'')"
proof -
  let ?e = "wenv (answers login_table) login_table"
  have r: "Rpc (wcluster ?e) (wcodec ?e) (wtrace ?e) (''user-'' @ show_int 7) ''user'' ''Login''
      (ChatLoginReq 7 ''ann'' ''s1'') (login_register 0 (7, ''ann'', ''s1'') two_conns) =
      Ok (login_register 0 (7, ''ann'', ''s1'') two_conns, Inr (ChatLoginResp ErrorCode_OK t_logged_in None))"
    by (simp add: Rpc_def RequestFuture_def answers_def sample_rpc_def login_table_def open_response_def
        MsgId_value_def MsgId_value_entries_def MsgId_name_def MsgId_name_entries_def table_codec_def
        msg_id_def gen_messages_def)
  have i: "identity_of 0 (login_register 0 (7, ''ann'', ''s1'') two_conns) = (7, ''ann'', ''s1'')"
    by (simp add: identity_of_def login_register_def)
  have "\<not> IsUserOnline 7 two_conns" by (simp add: IsUserOnline_def)
  from login_success [OF login_request_msg this r i, of "''$1''" "[1]"] obtain s' where
    "handleLogin ?e 0 login_msg two_conns = Ok s'" "clients s' = mput 7 0 []"
    "conns s' = (\<lambda>_. NewWSClient)(0 := NewWSClient\<lparr>ws_userID := 7, ws_username := ''ann'', ws_sessionID := ''s1'', ws_pid := Some ''$1'',
       ws_send := (ws_send NewWSClient)\<lparr>buf := [[1]]\<rparr>\<rparr>)"
    by (auto simp: login_register_def with_client_def fun_eq_iff)
  then show ?thesis by (simp add: mput_def identity_of_def)
qed



section \<open>Who is online\<close>

text \<open>C25: When a connection ends, it is closed and its user is offline; the other users stay as they were,
  and the list of online users is exactly the domain of the map, each user once. It does not matter
  whether the map's entry was this connection's: the entry of the user id is removed.\<close>

theorem disconnect_offline:
  assumes "ws_userID (conns s c) \<noteq> 0" "mwf (clients s)"
    and "\<And>m. mwf m \<Longrightarrow> range_ok (range_clients e') m"
  shows "\<exists>s'. readPump c [(e, ReadError)] s = Ok (s', True) \<and> \<not> conn_open (conns s' c) \<and>
    \<not> IsUserOnline (ws_userID (conns s c)) s' \<and>
    (\<forall>u. u \<noteq> ws_userID (conns s c) \<longrightarrow> mget (clients s') u = mget (clients s) u) \<and>
    distinct (GetOnlineUsers e' s') \<and> set (GetOnlineUsers e' s') = {u. IsUserOnline u s'}"
proof -
  have wf: "mwf (mdel (ws_userID (conns s c)) (clients s))" using assms(2) by simp
  show ?thesis
    using assms(1) range_ok_distinct [OF assms(3) [OF wf] wf] gm.dom_get [of "mdel (ws_userID (conns s c)) (clients s)", symmetric]
    by (simp add: unregisterClient_def IsUserOnline_def GetOnlineUsers_def range_ok_set [OF assms(3) [OF wf]])
      (auto simp: mhas_def split: if_splits)
qed

theorem disconnect_offline_witness:
  "\<exists>s'. readPump 0 [(wenv no_cluster [], ReadError)] (login_register 0 (7, ''ann'', ''s1'') two_conns) = Ok (s', True) \<and>
     \<not> conn_open (conns s' 0) \<and> \<not> IsUserOnline 7 s'"
proof -
  let ?s = "login_register 0 (7, ''ann'', ''s1'') two_conns"
  have "ws_userID (conns ?s 0) = 7" "mwf (clients ?s)"
    by (simp_all add: login_register_def)
  with disconnect_offline [of ?s 0 "wenv no_cluster []" "wenv no_cluster []"] show ?thesis
    by (auto simp: wenv_def range_ok_def)
qed

section \<open>Two logins at a time\<close>

text \<open>
  Connections that log in at the same time, up to the request to the grain. \<open>login_step\<close> is a step of one of
  them, which asks for \<open>q\<close>: it looks whether the user is online, under the read lock; then it registers,
  under the write lock. \<open>login_run\<close> lets connections step in any order.
\<close>

datatype login_pc = Checking | Passed | Refused | Registered

definition login_step ::
    "'n ws_env \<Rightarrow> nat \<Rightarrow> int \<times> string \<times> string \<Rightarrow> login_pc \<Rightarrow> 'n ws_state_scheme \<Rightarrow> (login_pc \<times> 'n ws_state_scheme) outcome" where
  "login_step e c q pc s =
     (case pc of
        Checking \<Rightarrow>
          if mhas (clients s) (fst q)
          then obind (sendToClient e c (notice ''login_error'' t_already_online) s) (\<lambda>s. Ok (Refused, s))
          else Ok (Passed, s)
      | Passed \<Rightarrow> Ok (Registered, login_register c q s)
      | _ \<Rightarrow> Ok (pc, s))"

fun login_run ::
    "'n ws_env \<Rightarrow> (nat \<Rightarrow> int \<times> string \<times> string) \<Rightarrow> nat list \<Rightarrow> (nat \<Rightarrow> login_pc) \<Rightarrow> 'n ws_state_scheme \<Rightarrow>
       ((nat \<Rightarrow> login_pc) \<times> 'n ws_state_scheme) outcome" where
  "login_run e q [] pc s = Ok (pc, s)"
| "login_run e q (c # cs) pc s =
     obind (login_step e c (q c) (pc c) s) (\<lambda>(p, s). login_run e q cs (pc(c := p)) s)"

text \<open>\<^verbatim>\<open>handleLogin\<close> is these two steps with nobody in between, and then the request.\<close>

lemma handleLogin_steps:
  assumes "login_request e msg = Ok (Some (q c))"
  shows "handleLogin e c msg s = obind (login_run e q [c, c] (\<lambda>_. Checking) s) (\<lambda>(pc, s).
    if pc c = Registered then login_finish e c (q c) s else Ok s)"
  using assms by (cases "q c"; cases "sendToClient e c (notice ''login_error'' t_already_online) s")
    (auto simp: handleLogin_def login_step_def)

lemma login_step_done [simp]:
  "pc = Registered \<or> pc = Refused \<Longrightarrow> login_step e c q pc s = Ok (pc, s)"
  by (auto simp: login_step_def)

text \<open>One of two has registered before the other looks: that one is refused.\<close>

lemma login_run_late:
  assumes "set cs \<subseteq> {c, d}" "c \<noteq> d" "pc c = Registered" "pc d = Checking" "mget (clients s) (fst (q d)) = Some c"
    and "\<not> closed (ws_send (conns s d))" "d \<in> set cs"
  shows "\<exists>s'. login_run e q cs pc s = Ok (pc(d := Refused), s') \<and> only_send d s s'"
  using assms
proof (induction cs)
  case (Cons x cs)
  show ?case
  proof (cases "x = c")
    case True
    with Cons show ?thesis by (simp add: fun_upd_idem)
  next
    case False
    with Cons.prems have x: "x = d" by simp
    obtain s' where s': "sendToClient e d (notice ''login_error'' t_already_online) s = Ok s'" "only_send d s s'"
      using sendToClient_open [OF Cons.prems(6)] by blast
    have "login_run e q cs (pc(d := Refused)) s' = Ok (pc(d := Refused), s')" if "set cs \<subseteq> {c, d}" for cs
      using that Cons.prems(2,3) by (induction cs) (auto simp: fun_upd_idem)
    with Cons.prems x s' show ?thesis by (simp add: login_step_def mhas_def fun_upd_def)
  qed
qed simp

text \<open>Both have looked before one of them registers: the other registers too.\<close>

lemma login_run_both:
  assumes "set cs \<subseteq> {c, d}" "c \<noteq> d" "pc c = Registered" "pc d = Passed" "d \<in> set cs"
  shows "login_run e q cs pc s = Ok (pc(d := Registered), login_register d (q d) s)"
  using assms
proof (induction cs)
  case (Cons x cs)
  show ?case
  proof (cases "x = c")
    case True
    with Cons show ?thesis by (simp add: fun_upd_idem)
  next
    case False
    with Cons.prems have x: "x = d" by simp
    have "login_run e q cs (pc(d := Registered)) s' = Ok (pc(d := Registered), s')" if "set cs \<subseteq> {c, d}" for cs and s' :: "'a ws_state_scheme"
      using that Cons.prems(2,3) by (induction cs) (auto simp: fun_upd_idem)
    with Cons.prems x show ?thesis by (simp add: login_step_def fun_upd_def)
  qed
qed simp

lemma login_run_passed:
  assumes "set cs \<subseteq> {c, d}" "c \<noteq> d" "pc c = Passed" "pc d = Passed" "c \<in> set cs" "d \<in> set cs"
  obtains x y where "{x, y} = {c, d}" "x \<noteq> y"
    "login_run e q cs pc s = Ok (pc(c := Registered, d := Registered), login_register y (q y) (login_register x (q x) s))"
proof (cases cs)
  case (Cons x xs)
  obtain y where y: "{x, y} = {c, d}" "x \<noteq> y" using assms(1,2) Cons by auto
  then have px: "pc x = Passed" "pc y = Passed" and s: "set xs \<subseteq> {x, y}" "y \<in> set xs"
    using assms Cons by auto
  have "login_run e q cs pc s = login_run e q xs (pc(x := Registered)) (login_register x (q x) s)"
    using px by (simp add: Cons login_step_def)
  also have "\<dots> = Ok ((pc(x := Registered))(y := Registered), login_register y (q y) (login_register x (q x) s))"
    by (rule login_run_both [OF s(1) y(2)]) (use y px s in auto)
  finally have "login_run e q cs pc s =
      Ok ((pc(x := Registered))(y := Registered), login_register y (q y) (login_register x (q x) s))" .
  moreover have "(pc(x := Registered))(y := Registered) = pc(c := Registered, d := Registered)"
    using y by (auto simp: fun_eq_iff)
  ultimately show thesis using that [OF y] by simp
qed (use assms in simp)

lemma login_one_first:
  assumes "a \<noteq> d" "\<not> IsUserOnline (fst (q a)) s" "fst (q d) = fst (q a)" "\<not> closed (ws_send (conns s d))"
    and "set cs \<subseteq> {a, d}" "d \<in> set cs"
  shows "\<exists>pc s1. login_run e q (a # a # cs) (\<lambda>_. Checking) s = Ok (pc, s1) \<and> pc a = Registered \<and> pc d = Refused \<and>
    mget (clients s1) (fst (q a)) = Some a \<and> identity_of d s1 = identity_of d s"
proof -
  let ?s = "login_register a (q a) s" and ?pc = "(\<lambda>_. Checking)(a := Registered)"
  obtain u n i where qa: "q a = (u, n, i)" by (cases "q a")
  have "login_run e q (a # a # cs) (\<lambda>_. Checking) s = login_run e q cs ?pc ?s"
    using assms(2) by (simp add: login_step_def IsUserOnline_def)
  moreover have "\<exists>s'. login_run e q cs ?pc ?s = Ok (?pc(d := Refused), s') \<and> only_send d ?s s'"
    by (rule login_run_late [OF assms(5,1)]) (use assms(1,3,4,6) qa in \<open>simp_all add: login_register_def\<close>)
  then obtain s' where s': "login_run e q cs ?pc ?s = Ok (?pc(d := Refused), s')" "only_send d ?s s'" by blast
  moreover have "mget (clients s') (fst (q a)) = Some a" "identity_of d s' = identity_of d s"
    using s'(2) assms(1) qa by (auto simp: only_send_def login_register_def identity_of_def with_client_def)
  ultimately show ?thesis using assms(1) by (intro exI [of _ "?pc(d := Refused)"] exI [of _ s']) simp
qed

lemma login_overwritten:
  assumes "x \<noteq> y" "u \<noteq> 0" "fst (q x) = u" "fst (q y) = u" "s1 = login_register y (q y) (login_register x (q x) s)"
  shows "identity_of x s1 = q x" "identity_of y s1 = q y" "mget (clients s1) u = Some y"
    "\<exists>s2. readPump x [(e, ReadError)] s1 = Ok (s2, True) \<and> \<not> IsUserOnline u s2 \<and>
       ws_userID (conns s2 y) = u \<and> conn_open (conns s2 y) = conn_open (conns s y)"
  using assms by (cases "q x"; cases "q y"; simp add: login_register_def identity_of_def unregisterClient_def IsUserOnline_def)+

lemma login_overlap:
  assumes "a \<noteq> b" "u \<noteq> 0" "\<not> IsUserOnline u s" "fst (q a) = u" "fst (q b) = u" "set cs \<subseteq> {a, b}" "a \<in> set cs" "b \<in> set cs"
  shows "\<exists>pc s1. login_run e q (a # b # cs) (\<lambda>_. Checking) s = Ok (pc, s1) \<and> (\<forall>z \<in> {a, b}. pc z = Registered) \<and>
    (\<exists>x y. {x, y} = {a, b} \<and> identity_of x s1 = q x \<and> identity_of y s1 = q y \<and> mget (clients s1) u = Some y \<and>
      (\<exists>s2. readPump x [(e, ReadError)] s1 = Ok (s2, True) \<and> \<not> IsUserOnline u s2 \<and>
         ws_userID (conns s2 y) = u \<and> conn_open (conns s2 y) = conn_open (conns s y)))"
proof -
  let ?pc = "(\<lambda>_. Checking)(a := Passed, b := Passed)"
  have r: "login_run e q (a # b # cs) (\<lambda>_. Checking) s = login_run e q cs ?pc s"
    using assms(1,3-5) by (simp add: login_step_def IsUserOnline_def)
  have p: "?pc a = Passed" "?pc b = Passed" using assms(1) by simp_all
  obtain x y where xy: "{x, y} = {a, b}" "x \<noteq> y"
    "login_run e q cs ?pc s = Ok (?pc(a := Registered, b := Registered), login_register y (q y) (login_register x (q x) s))"
    by (rule login_run_passed [OF assms(6,1) p assms(7,8)])
  have "fst (q z) = u" if "z \<in> {a, b}" for z using that assms(4,5) by auto
  then have q: "fst (q x) = u" "fst (q y) = u" unfolding xy(1) [symmetric] by simp_all
  define s1 where "s1 = login_register y (q y) (login_register x (q x) s)"
  have "\<exists>x y. {x, y} = {a, b} \<and> identity_of x s1 = q x \<and> identity_of y s1 = q y \<and> mget (clients s1) u = Some y \<and>
      (\<exists>s2. readPump x [(e, ReadError)] s1 = Ok (s2, True) \<and> \<not> IsUserOnline u s2 \<and>
         ws_userID (conns s2 y) = u \<and> conn_open (conns s2 y) = conn_open (conns s y))"
    by (rule exI [of _ x], rule exI [of _ y], intro conjI, rule xy(1)) (rule login_overwritten [OF xy(2) assms(2) q s1_def])+
  moreover have "login_run e q (a # b # cs) (\<lambda>_. Checking) s = Ok (?pc(a := Registered, b := Registered), s1)"
    using r xy(3) by (simp only: s1_def)
  ultimately show ?thesis by (intro exI [of _ "?pc(a := Registered, b := Registered)"] exI [of _ s1] conjI) simp_all
qed

text \<open>Two logins as one user, over every order of their steps.\<close>

lemma login_orders:
  assumes "c \<noteq> d" "u \<noteq> 0" "\<not> IsUserOnline u s" "fst (q c) = u" "fst (q d) = u"
    and "\<not> closed (ws_send (conns s c))" "\<not> closed (ws_send (conns s d))"
    and "set (a # b # cs) = {c, d}" "2 \<le> count_list (a # b # cs) c" "2 \<le> count_list (a # b # cs) d"
  shows "\<exists>pc s1. login_run e q (a # b # cs) (\<lambda>_. Checking) s = Ok (pc, s1) \<and>
    (if a = b
     then pc a = Registered \<and> mget (clients s1) u = Some a \<and> (\<forall>x \<in> {c, d} - {a}. pc x = Refused \<and> identity_of x s1 = identity_of x s)
     else (\<forall>z \<in> {c, d}. pc z = Registered) \<and>
       (\<exists>x y. {x, y} = {c, d} \<and> identity_of x s1 = q x \<and> identity_of y s1 = q y \<and> mget (clients s1) u = Some y \<and>
         (\<exists>s2. readPump x [(e, ReadError)] s1 = Ok (s2, True) \<and> \<not> IsUserOnline u s2 \<and>
            ws_userID (conns s2 y) = u \<and> conn_open (conns s2 y) = conn_open (conns s y))))"
proof -
  have left: "x \<in> set cs" if "2 \<le> count_list (a # b # cs) x" "a \<noteq> x \<or> b \<noteq> x" for x
  proof -
    from that have "count_list cs x \<noteq> 0" by (auto split: if_splits)
    then show ?thesis by (simp add: count_list_0_iff)
  qed
  have sub: "set cs \<subseteq> {c, d}" "set cs \<subseteq> {d, c}" using assms(8) by auto
  have "a \<in> {c, d}" "b \<in> {c, d}" using assms(8) by auto
  then consider "a = c" "b = c" | "a = d" "b = d" | "a = c" "b = d" | "a = d" "b = c" by blast
  then show ?thesis
  proof cases
    case 1
    have "d \<in> set cs" by (rule left [OF assms(10)]) (use 1 assms(1) in simp)
    from login_one_first [of c d q s cs e, OF assms(1) _ _ assms(7) sub(1) this] 1 assms(1,3-5) show ?thesis by auto
  next
    case 2
    have "c \<in> set cs" by (rule left [OF assms(9)]) (use 2 assms(1) in simp)
    from login_one_first [of d c q s cs e, OF assms(1) [symmetric] _ _ assms(6) sub(2) this] 2 assms(1,3-5) show ?thesis by auto
  next
    case 3
    have "c \<in> set cs" "d \<in> set cs" using left [OF assms(9)] left [OF assms(10)] 3 assms(1) by auto
    from login_overlap [OF assms(1-5) sub(1) this, of e] show ?thesis using assms(1) by (simp only: 3 if_False)
  next
    case 4
    have "d \<in> set cs" "c \<in> set cs" using left [OF assms(9)] left [OF assms(10)] 4 assms(1) by auto
    from login_overlap [OF assms(1) [symmetric] assms(2,3,5,4) sub(2) this, of e] show ?thesis
      using assms(1) [symmetric] by (simp only: 4 if_False insert_commute [of d c])
  qed
qed

text \<open>C24: The check that a user is offline and the registration are two steps, each under a lock of its own: a
  handler that nobody comes between takes both, and if it is registered then goes on to ask the grain. Let
  two connections log in as the same user, who is not online, and let their steps come in any order until
  both are through. If one of them takes both of its steps first, it is registered, and the other one is
  refused. But if each takes its first step before either takes its second, then both believe they are this
  user. The map holds the one that registered last; and when the other disconnects, the entry is removed:
  the user is offline while a connection that is registered for him is open.\<close>

theorem login_race:
  assumes "c \<noteq> d" "u \<noteq> 0" "\<not> IsUserOnline u s" "fst (q c) = u" "fst (q d) = u"
    and "\<not> closed (ws_send (conns s c))" "\<not> closed (ws_send (conns s d))"
    and "set (a # b # cs) = {c, d}" "2 \<le> count_list (a # b # cs) c" "2 \<le> count_list (a # b # cs) d"
  shows "(\<forall>x msg t. login_request e msg = Ok (Some (q x)) \<longrightarrow>
      handleLogin e x msg t = obind (login_run e q [x, x] (\<lambda>_. Checking) t) (\<lambda>(pc, t).
        if pc x = Registered then login_finish e x (q x) t else Ok t)) \<and>
    (\<exists>pc s1. login_run e q (a # b # cs) (\<lambda>_. Checking) s = Ok (pc, s1) \<and>
    (if a = b
     then pc a = Registered \<and> mget (clients s1) u = Some a \<and> (\<forall>x \<in> {c, d} - {a}. pc x = Refused \<and> identity_of x s1 = identity_of x s)
     else (\<forall>z \<in> {c, d}. pc z = Registered) \<and>
       (\<exists>x y. {x, y} = {c, d} \<and> identity_of x s1 = q x \<and> identity_of y s1 = q y \<and> mget (clients s1) u = Some y \<and>
         (\<exists>s2. readPump x [(e, ReadError)] s1 = Ok (s2, True) \<and> \<not> IsUserOnline u s2 \<and>
            ws_userID (conns s2 y) = u \<and> conn_open (conns s2 y) = conn_open (conns s y)))))"
  by (intro conjI allI impI handleLogin_steps login_orders [OF assms]) simp_all

theorem login_race_witness:
  "\<exists>pc s1 x y s2. login_run (wenv no_cluster []) (\<lambda>c. if c = 0 then (7, ''ann'', ''s1'') else (7, ''eve'', ''s2''))
       [0, 1, 1, 0] (\<lambda>_. Checking) two_conns = Ok (pc, s1) \<and> pc 0 = Registered \<and> pc 1 = Registered \<and> {x, y} = {0, 1} \<and>
     readPump x [(wenv no_cluster [], ReadError)] s1 = Ok (s2, True) \<and>
     \<not> IsUserOnline 7 s2 \<and> ws_userID (conns s2 y) = 7"
proof -
  let ?q = "\<lambda>c :: nat. if c = 0 then (7 :: int, ''ann'', ''s1'') else (7, ''eve'', ''s2'')"
  have o: "\<not> IsUserOnline 7 two_conns" by (simp add: IsUserOnline_def)
  have n: "(0 :: nat) \<noteq> 1" "(7 :: int) \<noteq> 0" "fst (?q 0) = 7" "fst (?q 1) = 7" "\<not> closed (ws_send (conns two_conns 0))"
    "\<not> closed (ws_send (conns two_conns 1))" "set [0, 1, 1, 0] = {0, 1 :: nat}" "2 \<le> count_list [0, 1, 1, 0 :: nat] 0"
    "2 \<le> count_list [0, 1, 1, 0 :: nat] 1" by auto
  from login_race [of 0 1 7 two_conns ?q 0 1 "[1, 0]" "wenv no_cluster []", OF n(1,2) o n(3-), THEN conjunct2]
  obtain pc s1 x y s2 where "login_run (wenv no_cluster []) ?q [0, 1, 1, 0] (\<lambda>_. Checking) two_conns = Ok (pc, s1)"
    "\<forall>z \<in> {0, 1}. pc z = Registered" "{x, y} = {0, 1}" "readPump x [(wenv no_cluster [], ReadError)] s1 = Ok (s2, True)"
    "\<not> IsUserOnline 7 s2" "ws_userID (conns s2 y) = 7"
    unfolding if_not_P [OF n(1)] by (elim exE conjE)
  then show ?thesis by (intro exI conjI) (assumption | simp)+
qed

section \<open>Payloads\<close>

definition has_string :: "(string, jval) gomap \<Rightarrow> string \<Rightarrow> bool" where
  "has_string p k \<longleftrightarrow> (case mget p k of Some (JStr s) \<Rightarrow> True | _ \<Rightarrow> False)"

definition has_number :: "(string, jval) gomap \<Rightarrow> string \<Rightarrow> bool" where
  "has_number p k \<longleftrightarrow> (case mget p k of Some (JNum f) \<Rightarrow> True | _ \<Rightarrow> False)"

text \<open>The fields each message type must carry, when its payload is an object.\<close>

definition payload_ok :: "string \<Rightarrow> jval \<Rightarrow> bool" where
  "payload_ok t v = (case v of
     JObj p \<Rightarrow>
       (t = ''login'' \<longrightarrow> has_number p ''user_id'' \<and> has_string p ''username'' \<and> has_string p ''session_id'') \<and>
       (t = ''create_room'' \<longrightarrow> has_string p ''room_name'' \<and> has_number p ''max_members'') \<and>
       (t = ''join_room'' \<longrightarrow> has_string p ''room_id'') \<and>
       (t = ''send_message'' \<longrightarrow> has_string p ''content'')
   | _ \<Rightarrow> True)"

lemma assert_panics [simp]:
  "\<not> has_string p k \<Longrightarrow> assert_string (mget p k) = Panic TypeAssertion"
  "\<not> has_number p k \<Longrightarrow> assert_float (mget p k) = Panic TypeAssertion"
  by (auto simp: has_string_def assert_string_def has_number_def assert_float_def split: option.splits jval.splits)

lemma assert_stringE:
  assumes "has_string p k"
  obtains x where "assert_string (mget p k) = Ok x"
  using assms by (auto simp: has_string_def assert_string_def split: option.splits jval.splits)

lemma assert_floatE:
  assumes "has_number p k"
  obtains x where "assert_float (mget p k) = Ok x"
  using assms by (auto simp: has_number_def assert_float_def split: option.splits jval.splits)

lemma obind_assert_panic:
  "(\<And>x. f x = Panic TypeAssertion) \<Longrightarrow> obind (assert_string v) f = Panic TypeAssertion"
  "(\<And>x. g x = Panic TypeAssertion) \<Longrightarrow> obind (assert_float v) g = Panic TypeAssertion"
  by (auto simp: assert_string_def assert_float_def split: option.split jval.split)

lemma login_request_ok:
  assumes "in_Payload msg = JObj p" "payload_ok ''login'' (JObj p)"
  obtains u n i where "login_request e msg = Ok (Some (u, n, i))"
proof -
  from assms(2) have "has_number p ''user_id''" "has_string p ''username''" "has_string p ''session_id''"
    by (simp_all add: payload_ok_def)
  then obtain u n i where "assert_float (mget p ''user_id'') = Ok u"
    "assert_string (mget p ''username'') = Ok n" "assert_string (mget p ''session_id'') = Ok i"
    by (meson assert_floatE assert_stringE)
  with assms(1) that show ?thesis by (simp add: login_request_def)
qed

lemma login_request_panic:
  assumes "in_Payload msg = JObj p" "\<not> payload_ok ''login'' (JObj p)"
  shows "login_request e msg = Panic TypeAssertion"
proof -
  from assms(2) consider "\<not> has_number p ''user_id''" | "\<not> has_string p ''username''" | "\<not> has_string p ''session_id''"
    by (auto simp: payload_ok_def)
  then show ?thesis
    by cases (simp_all add: login_request_def assms(1) obind_assert_panic)
qed

lemma create_room_panic:
  assumes "in_Payload msg = JObj p" "\<not> payload_ok ''create_room'' (JObj p)" "ws_userID (conns s c) \<noteq> 0"
  shows "handleCreateRoom e c msg s = Panic TypeAssertion"
proof -
  from assms(2) consider "\<not> has_string p ''room_name''" | "\<not> has_number p ''max_members''"
    by (auto simp: payload_ok_def)
  then show ?thesis
    by cases (simp_all add: handleCreateRoom_def assms(1,3) obind_assert_panic)
qed

text \<open>C26: A payload that is a JSON object but lacks a field the message type needs, or has it at another
  type, panics in an unchecked type assertion, and so does the read loop that gets it: one such message
  stops the whole process. For a login it may come from anybody; for the other types from a client with a
  user id, who must be in a room if it is a text to send (outside a room a text is answered with an
  error, whatever its payload).\<close>

theorem malformed_payload_panics:
  assumes "in_Payload msg = JObj p" "\<not> payload_ok (in_Type msg) (JObj p)"
    and "in_Type msg \<noteq> ''login'' \<longrightarrow> ws_userID (conns s c) \<noteq> 0"
    and "in_Type msg = ''send_message'' \<longrightarrow> ws_currentRoom (conns s c) \<noteq> ''''"
  shows "handleMessage e c msg s = Panic TypeAssertion \<and>
    (\<forall>b fs. jdec e b = Some msg \<longrightarrow> readPump c ((e, Frame b) # fs) s = Panic TypeAssertion) \<and>
    (\<forall>s2 msg2. in_Type msg2 = ''send_message'' \<and> ws_currentRoom (conns s2 c) = '''' \<longrightarrow>
       handleMessage e c msg2 s2 = sendToClient e c (notice ''error'' t_join_first) s2)"
proof -
  have outside: "handleMessage e c msg2 s2 = sendToClient e c (notice ''error'' t_join_first) s2"
    if "in_Type msg2 = ''send_message'' \<and> ws_currentRoom (conns s2 c) = ''''" for msg2 s2
    using that by (simp add: handleMessage_def handleSendMessage_def)
  from assms(2) consider (login) "in_Type msg = ''login''" | (create) "in_Type msg = ''create_room''"
    | (join) "in_Type msg = ''join_room''" "\<not> has_string p ''room_id''"
    | (send) "in_Type msg = ''send_message''" "\<not> has_string p ''content''"
    by (auto simp: payload_ok_def)
  then have "handleMessage e c msg s = Panic TypeAssertion"
  proof cases
    case login
    with assms(2) login_request_panic [OF assms(1), of e] show ?thesis
      by (simp add: handleMessage_def handleLogin_def)
  next
    case create
    with assms(2,3) create_room_panic [OF assms(1)] show ?thesis by (simp add: handleMessage_def)
  next
    case join
    with assms(1,3) show ?thesis by (simp add: handleMessage_def handleJoinRoom_def)
  next
    case send
    with assms(1,3,4) show ?thesis by (simp add: handleMessage_def handleSendMessage_def Let_def)
  qed
  with outside show ?thesis by simp
qed

theorem malformed_payload_panics_witness:
  "handleMessage (wenv no_cluster []) 0 \<lparr>in_Type = ''login'', in_Payload = JObj [(''user_id'', JStr ''7'')]\<rparr> two_conns =
     Panic TypeAssertion"
  using malformed_payload_panics [of "\<lparr>in_Type = ''login'', in_Payload = JObj [(''user_id'', JStr ''7'')]\<rparr>"
      "[(''user_id'', JStr ''7'')]" two_conns 0 "wenv no_cluster []"]
  by (simp add: payload_ok_def has_number_def mget_def)

text \<open>The cluster answers with envelopes and does not close the connection's buffer meanwhile.\<close>

definition well_behaved :: "'n ws_env \<Rightarrow> nat \<Rightarrow> bool" where
  "well_behaved e c \<longleftrightarrow>
     (\<forall>s i k m. snd (wcluster e s i k m) \<noteq> RepliedOther \<and>
       (\<not> closed (ws_send (conns s c)) \<longrightarrow> \<not> closed (ws_send (conns (fst (wcluster e s i k m)) c)))) \<and>
     (\<forall>s i k q. \<not> closed (ws_send (conns s c)) \<longrightarrow> \<not> closed (ws_send (conns (raw_request e i k q s) c)))"

lemma Rpc_total:
  assumes "well_behaved e c" "\<not> closed (ws_send (conns s c))"
  obtains s' r where "Rpc (wcluster e) cd t i k n q s = Ok (s', r)" "\<not> closed (ws_send (conns s' c))"
proof -
  have w: "x \<noteq> RepliedOther \<and> \<not> closed (ws_send (conns s1 c))" if "wcluster e s i k m = (s1, x)" for s1 x m i k
    using assms that by (metis fst_conv snd_conv well_behaved_def)
  have "\<exists>s' r. Rpc (wcluster e) cd t i k n q s = Ok (s', r) \<and> \<not> closed (ws_send (conns s' c))"
    using assms(2) by (auto simp: Rpc_def RequestFuture_def Let_def dest!: w
        split: option.split prod.split call_result.split)
  then show ?thesis using that by blast
qed

lemma Rpc_then:
  assumes "well_behaved e c" "\<not> closed (ws_send (conns s c))"
    and "\<And>s r. \<not> closed (ws_send (conns s c)) \<Longrightarrow> \<exists>s'. f (s, r) = Ok s'"
  shows "\<exists>s'. obind (Rpc (wcluster e) cd t i k n q s) f = Ok s'"
proof -
  from Rpc_total [OF assms(1,2)] obtain s1 r
    where "Rpc (wcluster e) cd t i k n q s = Ok (s1, r)" "\<not> closed (ws_send (conns s1 c))" by blast
  with assms(3) show ?thesis by simp
qed

lemma send_total: "\<not> closed (ws_send (conns s c)) \<Longrightarrow> \<exists>s'. sendToClient e c m s = Ok s'"
  using sendToClient_open by metis

lemma login_finish_total:
  "well_behaved e c \<Longrightarrow> \<not> closed (ws_send (conns s c)) \<Longrightarrow> \<exists>s'. login_finish e c q s = Ok s'"
  by (cases q) (auto simp: login_finish_def OnLogin_def Let_def intro!: Rpc_then send_total
      split: sum.split proto_msg.split option.split)

lemma login_total:
  assumes "payload_ok (in_Type msg) (in_Payload msg)" "well_behaved e c" "\<not> closed (ws_send (conns s c))"
    and "in_Type msg = ''login''"
  shows "\<exists>s'. handleLogin e c msg s = Ok s'"
proof (cases "\<exists>p. in_Payload msg = JObj p")
  case True
  then obtain p where p: "in_Payload msg = JObj p" by blast
  with assms(1,4) login_request_ok [OF p, of e] obtain u n i
    where "login_request e msg = Ok (Some (u, n, i))" by auto
  with assms(2,3) show ?thesis
    by (auto simp: handleLogin_def login_register_def intro!: send_total login_finish_total)
next
  case False
  then have "login_request e msg = Ok None" by (simp add: login_request_def split: jval.split)
  with assms(3) show ?thesis by (auto simp: handleLogin_def intro: send_total)
qed

lemma logout_total:
  assumes "well_behaved e c" "\<not> closed (ws_send (conns s c))"
  shows "\<exists>s'. handleLogout e c s = Ok s'"
  using assms by (auto simp: handleLogout_def Let_def unregisterClient_def well_behaved_def
      intro!: Rpc_then [OF assms(1)] send_total split: sum.split proto_msg.split)

lemma create_total:
  assumes "payload_ok (in_Type msg) (in_Payload msg)" "well_behaved e c" "\<not> closed (ws_send (conns s c))"
    and "in_Type msg = ''create_room''"
  shows "\<exists>s'. handleCreateRoom e c msg s = Ok s'"
proof (cases "\<exists>p. in_Payload msg = JObj p")
  case True
  then obtain p n x where "in_Payload msg = JObj p" "assert_string (mget p ''room_name'') = Ok n"
    "assert_float (mget p ''max_members'') = Ok x"
    using assms(1,4) by (auto simp: payload_ok_def elim!: assert_stringE assert_floatE)
  with assms(3) show ?thesis
    by (auto simp: handleCreateRoom_def Let_def intro!: Rpc_then [OF assms(2)] send_total
        split: sum.split proto_msg.split)
qed (use assms(3) in \<open>auto simp: handleCreateRoom_def intro: send_total split: jval.split\<close>)

lemma join_total:
  assumes "payload_ok (in_Type msg) (in_Payload msg)" "well_behaved e c" "\<not> closed (ws_send (conns s c))"
    and "in_Type msg = ''join_room''"
  shows "\<exists>s'. handleJoinRoom e c msg s = Ok s'"
proof (cases "\<exists>p. in_Payload msg = JObj p")
  case True
  then obtain p n where "in_Payload msg = JObj p" "assert_string (mget p ''room_id'') = Ok n"
    using assms(1,4) by (auto simp: payload_ok_def elim!: assert_stringE)
  with assms(3) show ?thesis
    by (auto simp: handleJoinRoom_def Let_def SubscribeTopic_def intro!: Rpc_then [OF assms(2)] send_total
        split: sum.split proto_msg.split)
qed (use assms(3) in \<open>auto simp: handleJoinRoom_def intro: send_total split: jval.split\<close>)

lemma leave_total:
  assumes "well_behaved e c" "\<not> closed (ws_send (conns s c))"
  shows "\<exists>s'. handleLeaveRoom e c s = Ok s'"
  using assms(2) by (auto simp: handleLeaveRoom_def Let_def intro!: Rpc_then [OF assms(1)] send_total
      split: sum.split proto_msg.split)

lemma message_total:
  assumes "payload_ok (in_Type msg) (in_Payload msg)" "well_behaved e c" "\<not> closed (ws_send (conns s c))"
    and "in_Type msg = ''send_message''"
  shows "\<exists>s'. handleSendMessage e c msg s = Ok s'"
proof (cases "\<exists>p. in_Payload msg = JObj p")
  case True
  then obtain p n where "in_Payload msg = JObj p" "assert_string (mget p ''content'') = Ok n"
    using assms(1,4) by (auto simp: payload_ok_def elim!: assert_stringE)
  with assms(3) show ?thesis
    by (auto simp: handleSendMessage_def Let_def intro!: Rpc_then [OF assms(2)] send_total
        split: sum.split proto_msg.split)
qed (use assms(3) in \<open>auto simp: handleSendMessage_def Let_def intro: send_total split: jval.split\<close>)

lemma queries_total:
  assumes "well_behaved e c" "\<not> closed (ws_send (conns s c))"
  shows "\<exists>s'. handleGetRoomList e c msg s = Ok s'" "\<exists>s'. handleGetRoomUsers e c msg s = Ok s'"
  using assms(2) by (auto simp: handleGetRoomList_def handleGetRoomUsers_def Let_def
      intro!: Rpc_then [OF assms(1)] send_total split: sum.split proto_msg.split)

text \<open>C27: With well-formed payloads no handler panics: as long as the connection's buffer is open, the
  cluster answers with envelopes and leaves the buffer open, every message, of a known or unknown
  type, from whatever state of the connection, is handled to the end.\<close>

theorem wellformed_handled:
  assumes "payload_ok (in_Type msg) (in_Payload msg)" "well_behaved e c" "\<not> closed (ws_send (conns s c))"
  shows "\<exists>s'. handleMessage e c msg s = Ok s'"
proof -
  note rooms = create_total [OF assms] join_total [OF assms] leave_total [OF assms(2,3)] message_total [OF assms]
  show ?thesis
    using login_total [OF assms] logout_total [OF assms(2,3)] rooms queries_total [OF assms(2,3)] assms(3)
    by (simp add: handleMessage_def send_total)
qed

theorem wellformed_handled_witness:
  "\<exists>s'. handleMessage (wenv no_cluster login_table) 0 login_msg two_conns = Ok s'"
  by (rule wellformed_handled)
    (simp_all add: payload_ok_def login_msg_def has_number_def has_string_def mget_def well_behaved_def no_cluster_def)

section \<open>The send buffer\<close>

fun send_all :: "'n ws_env \<Rightarrow> nat \<Rightarrow> ws_out list \<Rightarrow> 'n ws_state_scheme \<Rightarrow> 'n ws_state_scheme outcome" where
  "send_all e c [] s = Ok s"
| "send_all e c (m # ms) s = obind (sendToClient e c m s) (send_all e c ms)"

lemma send_all_append: "send_all e c (ms @ ns) s = obind (send_all e c ms s) (send_all e c ns)"
proof (induction ms arbitrary: s)
  case Nil
  then show ?case by simp
next
  case (Cons m ms)
  then show ?case by (cases "sendToClient e c m s") simp_all
qed

lemma send_all_fits:
  assumes "\<And>m. jenc e m = Some (enc m)" "\<not> closed (ws_send (conns s c))"
    and "length (buf (ws_send (conns s c))) + length ms \<le> capacity (ws_send (conns s c))"
  shows "send_all e c ms s =
    Ok (with_client c (\<lambda>x. x\<lparr>ws_send := (ws_send x)\<lparr>buf := buf (ws_send x) @ map enc ms\<rparr>\<rparr>) s)"
  using assms(2,3)
proof (induction ms arbitrary: s)
  case Nil
  then show ?case by (simp add: with_client_def)
next
  case (Cons m ms)
  let ?s = "with_client c (\<lambda>x. x\<lparr>ws_send := (ws_send x)\<lparr>buf := buf (ws_send x) @ [enc m]\<rparr>\<rparr>) s"
  have "sendToClient e c m s = Ok ?s"
    using Cons.prems by (intro sendToClient_room assms(1)) simp_all
  moreover have "send_all e c ms ?s =
    Ok (with_client c (\<lambda>x. x\<lparr>ws_send := (ws_send x)\<lparr>buf := buf (ws_send x) @ map enc ms\<rparr>\<rparr>) ?s)"
    using Cons.prems by (intro Cons.IH) simp_all
  ultimately show ?case by (simp add: with_client_def)
qed

text \<open>C28: The bounded buffer towards a client. While nothing is read from it, messages that fit are all
  kept, in order; the first one that does not fit is lost and closes the buffer (the messages before it
  stay), and every send after that panics. A fresh connection takes 256.\<close>

theorem send_buffer_bounded:
  assumes "\<And>m. jenc e m = Some (enc m)" "\<not> closed (ws_send (conns s c))"
    and "length (buf (ws_send (conns s c))) + length ms = capacity (ws_send (conns s c))"
  shows "\<exists>s1 s2. send_all e c ms s = Ok s1 \<and> buf (ws_send (conns s1 c)) = buf (ws_send (conns s c)) @ map enc ms \<and>
    \<not> closed (ws_send (conns s1 c)) \<and>
    send_all e c (ms @ [m1]) s = Ok s2 \<and> buf (ws_send (conns s2 c)) = buf (ws_send (conns s1 c)) \<and>
    closed (ws_send (conns s2 c)) \<and> only_send c s s2 \<and>
    send_all e c (ms @ m1 # m2 # rest) s = Panic ClosedChannel"
proof -
  let ?s1 = "with_client c (\<lambda>x. x\<lparr>ws_send := (ws_send x)\<lparr>buf := buf (ws_send x) @ map enc ms\<rparr>\<rparr>) s"
  let ?s2 = "with_client c (\<lambda>x. x\<lparr>ws_send := (ws_send x)\<lparr>closed := True\<rparr>\<rparr>) ?s1"
  have 1: "send_all e c ms s = Ok ?s1"
    by (rule send_all_fits) (use assms in auto)
  have 2: "sendToClient e c m1 ?s1 = Ok ?s2"
    using assms by (simp add: sendToClient_def select_send_def close_chan_def with_client_def)
  have 3: "sendToClient e c m2 ?s2 = Panic ClosedChannel"
    using assms(1) by (simp add: sendToClient_def select_send_def)
  have "?s2 = with_client c (\<lambda>x. x\<lparr>ws_send := ws_send (conns ?s2 c)\<rparr>) s"
    by (simp add: with_client_def)
  then have o: "only_send c s ?s2" unfolding only_send_def by blast
  show ?thesis
    using assms(2) by (intro exI [of _ ?s1] exI [of _ ?s2]) (simp add: 1 2 3 o send_all_append)
qed

theorem send_buffer_bounded_witness:
  "\<exists>s1. send_all (wenv no_cluster []) 0 (replicate 256 (notice ''a'' ''b'')) two_conns = Ok s1 \<and>
     send_all (wenv no_cluster []) 0 (replicate 256 (notice ''a'' ''b'') @ [notice ''a'' ''b'', notice ''a'' ''b'']) two_conns =
       Panic ClosedChannel"
proof -
  have "\<And>m. jenc (wenv no_cluster []) m = Some ((\<lambda>_. [1]) m)" by simp
  from send_buffer_bounded [OF this, of two_conns 0 "replicate 256 (notice ''a'' ''b'')" "notice ''a'' ''b''"
      "notice ''a'' ''b''" "[]"]
  show ?thesis by auto
qed

section \<open>Frames\<close>

fun lines_of :: "bytes \<Rightarrow> bytes list" where
  "lines_of [] = [[]]"
| "lines_of (b # bs) =
     (if b = 10 then [] # lines_of bs
      else case lines_of bs of l # ls \<Rightarrow> (b # l) # ls | [] \<Rightarrow> [[b]])"

lemma lines_of_append: "10 \<notin> set m \<Longrightarrow> lines_of (m @ 10 # w) = m # lines_of w"
  by (induction m) auto

text \<open>Messages, each ended by a newline; what a connection has put on the wire, each frame ended by a newline;
  and that followed by what is still queued.\<close>

definition terminated :: "bytes list \<Rightarrow> bytes" where
  "terminated ms = concat (map (\<lambda>m. m @ [10]) ms)"

lemma terminated_simps [simp]:
  "terminated [] = []" "terminated (m # ms) = m @ 10 # terminated ms" "terminated (ms @ ns) = terminated ms @ terminated ns"
  by (simp_all add: terminated_def)

lemma lines_terminated: "\<forall>m \<in> set ms. 10 \<notin> set m \<Longrightarrow> lines_of (terminated ms) = ms @ [[]]"
  by (induction ms) (auto simp: lines_of_append)

primrec frame_text :: "conn_event \<Rightarrow> bytes" where
  "frame_text (TextFrame w) = w @ [10]"
| "frame_text CloseFrame = []"
| "frame_text PingFrame = []"

definition wire :: "ws_client \<Rightarrow> bytes" where
  "wire x = concat (map frame_text (written x))"

definition stream :: "ws_client \<Rightarrow> bytes" where
  "stream x = wire x @ terminated (buf (ws_send x))"

lemma drain_all:
  "drain (length (buf ch)) ch w = (ch\<lparr>buf := []\<rparr>, w @ concat (map (\<lambda>m. 10 # m) (buf ch)))"
proof (induction "buf ch" arbitrary: ch w)
  case Nil
  then show ?case by simp
next
  case (Cons m ms)
  have "ms = buf (ch\<lparr>buf := ms\<rparr>)" by simp
  from Cons.hyps(1) [OF this] have "drain (length ms) (ch\<lparr>buf := ms\<rparr>) (w @ [10] @ m) =
      (ch\<lparr>buf := []\<rparr>, (w @ [10] @ m) @ concat (map (\<lambda>m. 10 # m) ms))" by simp
  then show ?case
    by (simp add: Cons.hyps(2) [symmetric] recv_chan_def)
qed

lemma newlines_moved: "concat (map (\<lambda>m. 10 # m) ms) @ [10] = 10 # terminated ms"
  by (induction ms) simp_all

text \<open>A round of the write loop moves everything that is queued onto the wire, in one frame; or the connection
  is closed; or nothing is sent.\<close>

lemma write_round:
  assumes "buf (ws_send x) \<noteq> []" "writer_ok p" "flush_ok p"
  obtains x' w where "writePump p TakeMessage x = Some (x', True)" "written x' = written x @ [TextFrame w]"
    "ws_send x' = (ws_send x)\<lparr>buf := []\<rparr>" "conn_open x' = conn_open x" "w @ [10] = terminated (buf (ws_send x))"
proof -
  from assms(1) obtain m ms where b: "buf (ws_send x) = m # ms" by (cases "buf (ws_send x)") auto
  let ?w = "m @ concat (map (\<lambda>m. 10 # m) ms)"
  have d: "drain (length ms) ((ws_send x)\<lparr>buf := ms\<rparr>) m = ((ws_send x)\<lparr>buf := []\<rparr>, ?w)"
    using drain_all [of "(ws_send x)\<lparr>buf := ms\<rparr>" m] by simp
  show thesis
  proof (rule that)
    show "writePump p TakeMessage x = Some (x\<lparr>ws_send := (ws_send x)\<lparr>buf := []\<rparr>, written := written x @ [TextFrame ?w]\<rparr>, True)"
      using assms(2,3) by (simp add: writePump_def recv_chan_def b d)
    show "?w @ [10] = terminated (buf (ws_send x))" unfolding b append_assoc newlines_moved by simp
  qed simp_all
qed

lemma writePump_stream:
  assumes "writePump p ev x = Some (x', b)" "conn_open x'"
  shows "conn_open x \<and> stream x' = stream x"
proof (cases "ev = TakeMessage \<and> buf (ws_send x) \<noteq> [] \<and> writer_ok p \<and> flush_ok p")
  case True
  then have "buf (ws_send x) \<noteq> []" "writer_ok p" "flush_ok p" by simp_all
  then show ?thesis
    by (rule write_round) (use assms True in \<open>auto simp: stream_def wire_def\<close>)
next
  case False
  with assms show ?thesis
    by (cases ev) (auto simp: writePump_def stream_def wire_def recv_chan_def Let_def split: list.splits if_splits prod.splits)
qed

section \<open>Broadcasts\<close>

lemma ws_handler_registered: "find_handler (NewWebSocketGrain c u t) MsgId_PChatUserMessage = Some HChatUserMessage"
  by (simp add: NewWebSocketGrain_def WebSocketGrain_Init_def find_handler_register)
    (simp add: find_handler_def zero_base_def base_grain.defs)

text \<open>A broadcast of a room that reaches the actor of a connection ends up in this connection's send
  buffer and no other, as one message of type new_message with the room's message as payload (when
  there is room), and is acknowledged with code OK.\<close>

theorem broadcast_reaches_client:
  assumes "find_handler g MsgId_PChatUserMessage = Some HChatUserMessage"
    and "codec_rt (wcodec e) (proto_msg.ChatUserMessage m)" "marshal (wcodec e) (proto_msg.ChatUserMessage m) = Some d"
    and "jenc e \<lparr>out_Type = ''new_message'', out_Payload = PChat m\<rparr> = Some b"
    and "\<not> closed (ws_send (conns s (wc g)))"
    and "length (buf (ws_send (conns s (wc g)))) < capacity (ws_send (conns s (wc g)))"
  shows "\<exists>s' r. Receive (wcodec e) (ws_invoke e) ctx
      (Envelope (request_of '''' room room ''broadcast'' (proto_msg.ChatUserMessage m) d)) g s = Ok (g, s', Some r) \<and>
    Code r = ErrorCode_OK \<and> only_send (wc g) s s' \<and>
    buf (ws_send (conns s' (wc g))) = buf (ws_send (conns s (wc g))) @ [b]"
proof -
  have i: "msg_id (proto_msg.ChatUserMessage m) = MsgId_PChatUserMessage"
    by (simp add: msg_id_def MsgId_value_def MsgId_value_entries_def)
  have "decode (wcodec e) ''ChatUserMessage'' (request_of '''' room room ''broadcast'' (proto_msg.ChatUserMessage m) d) =
      Some (proto_msg.ChatUserMessage m)"
    using assms(2,3) by (simp add: codec_rt_def decode_def request_of_def)
  moreover have "only_send (wc g) s
      (with_client (wc g) (\<lambda>x. x\<lparr>ws_send := (ws_send x)\<lparr>buf := buf (ws_send x) @ [b]\<rparr>\<rparr>) s)"
    using sendToClient_frame [OF sendToClient_room [OF assms(4-6)]] .
  ultimately show ?thesis
    using assms(1) sendToClient_room [OF assms(4-6)]
    by (simp add: Receive_def ChatUserMessage_def SendToClient_def reply_None request_of_def i)
qed

theorem broadcast_reaches_client_witness:
  "\<exists>s' r. Receive (table_codec [proto_msg.ChatUserMessage None]) (ws_invoke (wenv no_cluster [proto_msg.ChatUserMessage None]))
      lobby_ctx (Envelope (request_of '''' ''lobby'' ''lobby'' ''broadcast'' (proto_msg.ChatUserMessage None) [0]))
      (NewWebSocketGrain 0 7 ''s1'') two_conns = Ok (NewWebSocketGrain 0 7 ''s1'', s', Some r) \<and>
     buf (ws_send (conns s' 0)) = [[1]]"
proof -
  let ?e = "wenv no_cluster [proto_msg.ChatUserMessage None]"
  have c: "codec_rt (wcodec ?e) (proto_msg.ChatUserMessage None)"
    by (simp add: table_codec_rt)
  have w: "wc (NewWebSocketGrain 0 7 ''s1'') = 0"
    by (simp add: NewWebSocketGrain_def WebSocketGrain_Init_def RegisterMsgHandler_def Let_def base_grain.defs)
  from broadcast_reaches_client [OF ws_handler_registered c, of "[0]" "[1]" two_conns 0 7 "''s1''" lobby_ctx "''lobby''"]
  show ?thesis by (auto simp: w table_codec_def)
qed

end
