(* ===== verification/Config.thy ===== *)
theory Config
  imports Prelude
begin

text \<open>
  \<^verbatim>\<open>internal/config\<close>: the configuration record and how \<^verbatim>\<open>Load\<close> makes it: read, parse, override from
  the environment, fill in defaults, validate. Reading the file and the YAML and JSON parsers are
  arguments; so are the environment and the process id. Errors are a datatype, one constructor per
  \<^verbatim>\<open>fmt.Errorf\<close>.
\<close>

section \<open>The record\<close>

text \<open>A \<^verbatim>\<open>float64\<close>: YAML can also hold infinities and not-a-number.\<close>

datatype f64 = Fin rat | PInf | NInf | NaN

fun f64_le :: "f64 \<Rightarrow> rat \<Rightarrow> bool" where
  "f64_le (Fin x) c = (x \<le> c)"
| "f64_le PInf c = False"
| "f64_le NInf c = True"
| "f64_le NaN c = False"

fun f64_gt :: "f64 \<Rightarrow> rat \<Rightarrow> bool" where
  "f64_gt (Fin x) c = (x > c)"
| "f64_gt PInf c = True"
| "f64_gt NInf c = False"
| "f64_gt NaN c = False"

record ConsulConfig =
  Address :: string
  Scheme :: string
  Token :: string
  Datacenter :: string
  CachePrefix :: string
  TTLHeartbeatInterval :: int
  DeregisterCriticalServiceAfter :: int

record ActorConfig =
  MaxGrainCount :: int
  ActivationTimeout :: int
  IdleTimeout :: int
  RemoteCallTimeout :: int

record TracingConfig =
  Enabled :: bool
  Type :: string
  Endpoint :: string
  SampleRatio :: f64

record ClusterConfig =
  ClusterName :: string
  NodeName :: string
  Host :: string
  Port :: int
  Consul :: ConsulConfig
  Actor :: ActorConfig
  LogLevel :: string
  HealthCheckPort :: int
  Tracing :: TracingConfig

definition GetClusterName :: "ClusterConfig \<Rightarrow> string" where
  "GetClusterName c = ClusterName c"

definition GetNodeName :: "ClusterConfig \<Rightarrow> string" where
  "GetNodeName c = NodeName c"

definition GetHost :: "ClusterConfig \<Rightarrow> string" where
  "GetHost c = Host c"

definition GetPort :: "ClusterConfig \<Rightarrow> int" where
  "GetPort c = Port c"

section \<open>Loading\<close>

text \<open>\<open>if v := os.Getenv(name); v != "" { ... }\<close>; an unset variable reads as the empty string.\<close>

definition env_or :: "string \<Rightarrow> string \<Rightarrow> string" where
  "env_or v old = (if v \<noteq> '''' then v else old)"

definition applyEnvOverride :: "(string \<Rightarrow> string) \<Rightarrow> ClusterConfig \<Rightarrow> ClusterConfig" where
  "applyEnvOverride getenv cfg =
     (let cfg = cfg\<lparr>ClusterName := env_or (getenv ''CLUSTER_NAME'') (ClusterName cfg)\<rparr>;
          cfg = cfg\<lparr>NodeName := env_or (getenv ''NODE_NAME'') (NodeName cfg)\<rparr>;
          cfg = cfg\<lparr>Host := env_or (getenv ''HOST'') (Host cfg)\<rparr>;
          cfg = (if getenv ''PORT'' \<noteq> ''''
            then (case sscanf_d (getenv ''PORT'') of None \<Rightarrow> cfg | Some p \<Rightarrow> cfg\<lparr>Port := p\<rparr>) else cfg);
          cfg = cfg\<lparr>Consul := (Consul cfg)\<lparr>Address := env_or (getenv ''CONSUL_ADDRESS'') (Address (Consul cfg))\<rparr>\<rparr>
      in cfg\<lparr>LogLevel := env_or (getenv ''LOG_LEVEL'') (LogLevel cfg)\<rparr>)"

text \<open>\<open>if x == "" { x = d }\<close> and \<open>if x == 0 { x = d }\<close>.\<close>

definition or_string :: "string \<Rightarrow> string \<Rightarrow> string" where
  "or_string d x = (if x = '''' then d else x)"

definition or_int :: "int \<Rightarrow> int \<Rightarrow> int" where
  "or_int d x = (if x = 0 then d else x)"

definition default_consul :: "ConsulConfig \<Rightarrow> ConsulConfig" where
  "default_consul c = c\<lparr>Address := or_string ''127.0.0.1:8500'' (Address c), Scheme := or_string ''http'' (Scheme c),
     TTLHeartbeatInterval := or_int 10 (TTLHeartbeatInterval c),
     DeregisterCriticalServiceAfter := or_int 30 (DeregisterCriticalServiceAfter c)\<rparr>"

definition default_actor :: "ActorConfig \<Rightarrow> ActorConfig" where
  "default_actor a = a\<lparr>MaxGrainCount := or_int 10000 (MaxGrainCount a),
     ActivationTimeout := or_int 3000 (ActivationTimeout a), IdleTimeout := or_int 30 (IdleTimeout a),
     RemoteCallTimeout := or_int 5000 (RemoteCallTimeout a)\<rparr>"

definition default_tracing :: "TracingConfig \<Rightarrow> TracingConfig" where
  "default_tracing t = t\<lparr>Enabled := (if \<not> Enabled t then False else Enabled t), Type := or_string ''zipkin'' (Type t),
     Endpoint := or_string ''http://localhost:9411/api/v2/spans'' (Endpoint t),
     SampleRatio := (if f64_le (SampleRatio t) 0 \<or> f64_gt (SampleRatio t) 1 then Fin 1 else SampleRatio t)\<rparr>"

definition setDefaults :: "int \<Rightarrow> ClusterConfig \<Rightarrow> ClusterConfig" where
  "setDefaults pid cfg =
     (let cfg = cfg\<lparr>ClusterName := or_string ''default-cluster'' (ClusterName cfg),
            NodeName := or_string (''node-'' @ show_int pid) (NodeName cfg),
            Host := or_string ''127.0.0.1'' (Host cfg), Port := or_int 8080 (Port cfg),
            Consul := default_consul (Consul cfg), Actor := default_actor (Actor cfg),
            LogLevel := or_string ''info'' (LogLevel cfg)\<rparr>
      in cfg\<lparr>HealthCheckPort := or_int (i64 (Port cfg + 100)) (HealthCheckPort cfg),
            Tracing := default_tracing (Tracing cfg)\<rparr>)"

datatype config_error =
    ReadFailed
  | ParseFailed
  | EmptyClusterName
  | PortOutOfRange
  | EmptyConsulAddress
  | BadLogLevel string

definition validLogLevels :: "string set" where
  "validLogLevels = {''debug'', ''info'', ''warn'', ''error''}"

definition validate :: "ClusterConfig \<Rightarrow> config_error option" where
  "validate cfg =
     (if ClusterName cfg = '''' then Some EmptyClusterName
      else if Port cfg \<le> 0 \<or> Port cfg > 65535 then Some PortOutOfRange
      else if Address (Consul cfg) = '''' then Some EmptyConsulAddress
      else if LogLevel cfg \<notin> validLogLevels then Some (BadLogLevel (LogLevel cfg))
      else None)"

text \<open>The two parsers fill a zero record; \<open>None\<close> is an error.\<close>

record 'b load_env =
  read_file :: "string \<Rightarrow> 'b option"
  parse_json :: "'b \<Rightarrow> ClusterConfig option"
  parse_yaml :: "'b \<Rightarrow> ClusterConfig option"
  getenv :: "string \<Rightarrow> string"
  getpid :: int

definition Load :: "'b load_env \<Rightarrow> string \<Rightarrow> config_error + ClusterConfig" where
  "Load e configPath =
     (let configPath = (if configPath = '''' then ''configs/config.yaml'' else configPath)
      in case read_file e configPath of
           None \<Rightarrow> Inl ReadFailed
         | Some data \<Rightarrow>
             (case (if suffix ''.json'' configPath then parse_json e data else parse_yaml e data) of
                None \<Rightarrow> Inl ParseFailed
              | Some cfg \<Rightarrow>
                  (let cfg = setDefaults (getpid e) (applyEnvOverride (getenv e) cfg)
                   in case validate cfg of Some err \<Rightarrow> Inl err | None \<Rightarrow> Inr cfg)))"

section \<open>Properties\<close>

text \<open>What a loaded configuration promises.\<close>

definition config_ok :: "ClusterConfig \<Rightarrow> bool" where
  "config_ok c \<longleftrightarrow> ClusterName c \<noteq> '''' \<and> NodeName c \<noteq> '''' \<and> Host c \<noteq> '''' \<and> 1 \<le> Port c \<and> Port c \<le> 65535 \<and>
     Address (Consul c) \<noteq> '''' \<and> Scheme (Consul c) \<noteq> '''' \<and> TTLHeartbeatInterval (Consul c) \<noteq> 0 \<and>
     DeregisterCriticalServiceAfter (Consul c) \<noteq> 0 \<and> MaxGrainCount (Actor c) \<noteq> 0 \<and>
     ActivationTimeout (Actor c) \<noteq> 0 \<and> IdleTimeout (Actor c) \<noteq> 0 \<and> RemoteCallTimeout (Actor c) \<noteq> 0 \<and>
     LogLevel c \<in> validLogLevels \<and> HealthCheckPort c \<noteq> 0 \<and>
     Type (Tracing c) \<noteq> '''' \<and> Endpoint (Tracing c) \<noteq> '''' \<and>
     \<not> f64_le (SampleRatio (Tracing c)) 0 \<and> \<not> f64_gt (SampleRatio (Tracing c)) 1"

text \<open>The three layers of a text setting: environment, file, default.\<close>

definition layered :: "string \<Rightarrow> string \<Rightarrow> string \<Rightarrow> string" where
  "layered v f d = (if v \<noteq> '''' then v else if f \<noteq> '''' then f else d)"

lemma or_string_env: "or_string d (env_or v f) = layered v f d"
  by (simp add: or_string_def env_or_def layered_def)

lemma default_sections:
  "Address (default_consul c) = or_string ''127.0.0.1:8500'' (Address c)"
  "Scheme (default_consul c) \<noteq> ''''" "TTLHeartbeatInterval (default_consul c) \<noteq> 0"
  "DeregisterCriticalServiceAfter (default_consul c) \<noteq> 0" "MaxGrainCount (default_actor a) \<noteq> 0"
  "ActivationTimeout (default_actor a) \<noteq> 0" "IdleTimeout (default_actor a) \<noteq> 0"
  "RemoteCallTimeout (default_actor a) \<noteq> 0" "Type (default_tracing t) \<noteq> ''''"
  "Endpoint (default_tracing t) \<noteq> ''''" "\<not> f64_le (SampleRatio (default_tracing t)) 0"
  "\<not> f64_gt (SampleRatio (default_tracing t)) 1"
  by (auto simp: default_consul_def default_actor_def default_tracing_def or_string_def or_int_def)

lemma validate_None:
  "validate c = None \<longleftrightarrow> ClusterName c \<noteq> '''' \<and> 1 \<le> Port c \<and> Port c \<le> 65535 \<and> Address (Consul c) \<noteq> '''' \<and>
     LogLevel c \<in> validLogLevels"
  by (auto simp: validate_def)

lemma setDefaults_simps [simp]:
  "ClusterName (setDefaults pid c) = or_string ''default-cluster'' (ClusterName c)"
  "NodeName (setDefaults pid c) = or_string (''node-'' @ show_int pid) (NodeName c)"
  "Host (setDefaults pid c) = or_string ''127.0.0.1'' (Host c)"
  "Port (setDefaults pid c) = or_int 8080 (Port c)"
  "Consul (setDefaults pid c) = default_consul (Consul c)"
  "Actor (setDefaults pid c) = default_actor (Actor c)"
  "LogLevel (setDefaults pid c) = or_string ''info'' (LogLevel c)"
  "HealthCheckPort (setDefaults pid c) = or_int (i64 (or_int 8080 (Port c) + 100)) (HealthCheckPort c)"
  "Tracing (setDefaults pid c) = default_tracing (Tracing c)"
  by (simp_all add: setDefaults_def Let_def)

lemma or_string_nonempty: "d \<noteq> '''' \<Longrightarrow> or_string d x \<noteq> ''''"
  by (simp add: or_string_def)

lemma health_port_default:
  "1 \<le> p \<Longrightarrow> p \<le> 65535 \<Longrightarrow> or_int (i64 (p + 100)) h = (if h = 0 then p + 100 else h)"
  by (simp add: or_int_def i64_id)

lemma load_facts:
  assumes "Load e path = Inr c" "read_file e path = Some b" "path \<noteq> ''''"
    and "(if suffix ''.json'' path then parse_json e b else parse_yaml e b) = Some f"
  shows "config_ok c \<and>
    HealthCheckPort c = (if HealthCheckPort f = 0 then Port c + 100 else HealthCheckPort f) \<and>
    (HealthCheckPort f = 0 \<longrightarrow> (HealthCheckPort c \<le> 65535 \<longleftrightarrow> Port c \<le> 65435))"
proof -
  have c: "c = setDefaults (getpid e) (applyEnvOverride (getenv e) f)" and v: "validate c = None"
    using assms by (auto simp: Load_def Let_def split: option.splits if_splits)
  have h: "HealthCheckPort (applyEnvOverride (getenv e) f) = HealthCheckPort f"
    by (auto simp: applyEnvOverride_def Let_def split: option.split)
  have p: "1 \<le> Port c" "Port c \<le> 65535" using v by (auto simp: validate_None)
  have hc: "HealthCheckPort c = (if HealthCheckPort f = 0 then Port c + 100 else HealthCheckPort f)"
    using health_port_default [OF p, of "HealthCheckPort f"] by (simp add: c h)
  have "config_ok c"
    using v p hc by (simp add: config_ok_def validate_None) (simp add: c default_sections or_string_nonempty)
  with p hc show ?thesis by auto
qed

text \<open>C31: Whatever the file and the environment hold, a configuration that \<^verbatim>\<open>Load\<close> returns is usable: names,
  host and addresses are not empty, the port is a port, timeouts are not zero, the log level is
  known, the sampling ratio is neither at most 0 nor above 1. The health port is only known not to
  be zero: when it is not configured it is the port plus 100, which is past 65535 for the last hundred
  ports.\<close>

theorem load_valid:
  assumes "Load e path = Inr c" "read_file e path = Some b" "path \<noteq> ''''"
    and "(if suffix ''.json'' path then parse_json e b else parse_yaml e b) = Some f"
  shows "config_ok c \<and>
    HealthCheckPort c = (if HealthCheckPort f = 0 then Port c + 100 else HealthCheckPort f) \<and>
    (HealthCheckPort f = 0 \<longrightarrow> (HealthCheckPort c \<le> 65535 \<longleftrightarrow> Port c \<le> 65435))"
  using assms by (rule load_facts)

text \<open>C32: The three layers. A loaded setting is the environment's if the variable is set and not empty,
  otherwise the file's, otherwise the default; a \<^verbatim>\<open>PORT\<close> that is not a number is ignored, and a port 0
  from either becomes 8080.\<close>

theorem load_layers:
  assumes "read_file e path = Some b" "path \<noteq> ''''"
    and "(if suffix ''.json'' path then parse_json e b else parse_yaml e b) = Some f"
    and "Load e path = Inr c"
  shows "ClusterName c = layered (getenv e ''CLUSTER_NAME'') (ClusterName f) ''default-cluster'' \<and>
    NodeName c = layered (getenv e ''NODE_NAME'') (NodeName f) (''node-'' @ show_int (getpid e)) \<and>
    Host c = layered (getenv e ''HOST'') (Host f) ''127.0.0.1'' \<and>
    Address (Consul c) = layered (getenv e ''CONSUL_ADDRESS'') (Address (Consul f)) ''127.0.0.1:8500'' \<and>
    LogLevel c = layered (getenv e ''LOG_LEVEL'') (LogLevel f) ''info'' \<and>
    Port c = or_int 8080 (case sscanf_d (getenv e ''PORT'') of None \<Rightarrow> Port f | Some p \<Rightarrow> p)"
proof -
  have c: "c = setDefaults (getpid e) (applyEnvOverride (getenv e) f)"
    using assms by (auto simp: Load_def Let_def split: option.splits if_splits)
  have "sscanf_d '''' = None" by (simp add: sscanf_d_def scan_sign_def)
  then show ?thesis
    by (auto simp: c applyEnvOverride_def Let_def default_sections or_string_env split: option.split)
qed

definition zero_config :: ClusterConfig where
  "zero_config = \<lparr>ClusterName = '''', NodeName = '''', Host = '''', Port = 0,
     Consul = \<lparr>Address = '''', Scheme = '''', Token = '''', Datacenter = '''', CachePrefix = '''',
       TTLHeartbeatInterval = 0, DeregisterCriticalServiceAfter = 0\<rparr>,
     Actor = \<lparr>MaxGrainCount = 0, ActivationTimeout = 0, IdleTimeout = 0, RemoteCallTimeout = 0\<rparr>,
     LogLevel = '''', HealthCheckPort = 0,
     Tracing = \<lparr>Enabled = False, Type = '''', Endpoint = '''', SampleRatio = Fin 0\<rparr>\<rparr>"

definition sample_load :: "int \<Rightarrow> string load_env" where
  "sample_load p = \<lparr>read_file = \<lambda>_. Some ''x'', parse_json = \<lambda>_. None,
     parse_yaml = \<lambda>_. Some (zero_config\<lparr>Port := p\<rparr>),
     getenv = \<lambda>v. if v = ''CLUSTER_NAME'' then ''prod'' else '''', getpid = 42\<rparr>"

text \<open>Loading fails only in the ways it can: reading, parsing, the port, the log level.\<close>

lemma Load_sample:
  assumes "1 \<le> p" "p \<le> 65535"
  shows "\<exists>c. Load (sample_load p) ''c.yaml'' = Inr c \<and> Port c = p \<and> ClusterName c = ''prod''"
  using assms
  by (simp add: Load_def sample_load_def suffix_def validate_def applyEnvOverride_def Let_def default_sections
      or_string_env layered_def zero_config_def env_or_def or_int_def or_string_def validLogLevels_def)

lemma sample_load_file:
  "read_file (sample_load p) ''c.yaml'' = Some ''x''" "''c.yaml'' \<noteq> ''''"
  "(if suffix ''.json'' ''c.yaml'' then parse_json (sample_load p) ''x'' else parse_yaml (sample_load p) ''x'') =
    Some (zero_config\<lparr>Port := p\<rparr>)"
  by (simp_all add: sample_load_def suffix_def)

theorem load_valid_witness:
  "\<exists>c. Load (sample_load 65500) ''c.yaml'' = Inr c \<and> config_ok c \<and> HealthCheckPort c = 65600"
proof -
  from Load_sample [of 65500] obtain c where c: "Load (sample_load 65500) ''c.yaml'' = Inr c" "Port c = 65500" by auto
  with load_valid [OF c(1) sample_load_file] show ?thesis by (auto simp: zero_config_def)
qed

theorem load_layers_witness:
  "\<exists>c. Load (sample_load 9090) ''c.yaml'' = Inr c \<and> ClusterName c = ''prod'' \<and> Port c = 9090"
proof -
  from Load_sample [of 9090] obtain c where c: "Load (sample_load 9090) ''c.yaml'' = Inr c" by auto
  from load_layers [OF sample_load_file c] c show ?thesis
    by (auto simp: sample_load_def layered_def or_int_def sscanf_d_def scan_sign_def)
qed

lemma validate_defaults:
  "validate (setDefaults pid c) =
     (if or_int 8080 (Port c) \<le> 0 \<or> or_int 8080 (Port c) > 65535 then Some PortOutOfRange
      else if or_string ''info'' (LogLevel c) \<notin> validLogLevels
      then Some (BadLogLevel (or_string ''info'' (LogLevel c))) else None)"
  by (simp add: validate_def default_sections or_string_nonempty)

text \<open>Errors. Loading fails exactly for one of four reasons: the file cannot be read, its text does not
  parse, the port that results from the layers is out of range, or the log level is unknown. The
  checks for an empty cluster name and an empty Consul address can never fire, since the defaults are
  filled in first.\<close>

theorem load_errors:
  "(case Load e path of
      Inr c \<Rightarrow> True
    | Inl err \<Rightarrow> err \<in> {ReadFailed, ParseFailed, PortOutOfRange} \<or> (\<exists>l. err = BadLogLevel l \<and> l \<notin> validLogLevels)) \<and>
   (Load e path = Inl ReadFailed \<longleftrightarrow> read_file e (if path = '''' then ''configs/config.yaml'' else path) = None)"
proof -
  define f where "f = (if path = '''' then ''configs/config.yaml'' else path)"
  show ?thesis
  proof (cases "read_file e f")
    case None
    then show ?thesis by (simp add: Load_def Let_def flip: f_def)
  next
    case (Some b)
    then show ?thesis
      by (cases "if suffix ''.json'' f then parse_json e b else parse_yaml e b")
        (simp_all add: Load_def Let_def validate_defaults flip: f_def)
  qed
qed

end
