(* ===== verification/KVStore.thy ===== *)
theory KVStore
  imports Config GoMap GoChan Proto
begin

text \<open>
  \<^verbatim>\<open>internal/kvstore\<close>: the local cache of a part of the Consul key-value store and the watchers that
  keep it in step. The Consul client is a parameter: writing operations take its functions on a state
  \<open>'c\<close>, and each query takes the answer it got (\<open>None\<close>: an error). Watchers are objects on a heap,
  since the map and the goroutine share them; \<open>active\<close> lists the goroutines that were started and
  have not returned, \<open>asking\<close> those of them that are blocked in a query, which Consul may hold for five
  minutes. Entries of the cache are updated in place in the source; the model replaces them,
  which no operation of the package can tell apart. The locks make each operation atomic.
\<close>

section \<open>State\<close>

record KVPair =
  p_Key :: string
  p_Value :: bytes
  p_ModifyIndex :: nat

record KVEntry =
  e_Key :: string
  e_Value :: bytes
  e_ModifyIndex :: nat
  e_CreatedAt :: int
  e_UpdatedAt :: int

record Watcher =
  w_Prefix :: string
  w_stopCh :: stop_chan
  lastIndex :: nat

type_synonym cache = "(string, KVEntry) gomap"

record kv_state =
  cache :: cache
  watchers :: "(string, nat) gomap"
  wheap :: "nat \<Rightarrow> Watcher"
  nwatchers :: nat
  active :: "nat list"
  asking :: "nat list"
  kv_stopCh :: stop_chan
  kv_running :: bool
  kv_cluster :: string
  kv_prefix :: string

text \<open>What is handed to the Consul client's constructor.\<close>

record consul_client_config =
  cc_Address :: string
  cc_Scheme :: string
  cc_Token :: string
  cc_Datacenter :: string

definition client_config :: "consul_client_config \<Rightarrow> ClusterConfig \<Rightarrow> consul_client_config" where
  "client_config dflt cfg =
     (let c = dflt\<lparr>cc_Address := Address (Consul cfg)\<rparr>;
          c = c\<lparr>cc_Scheme := Scheme (Consul cfg)\<rparr>;
          c = (if Token (Consul cfg) \<noteq> '''' then c\<lparr>cc_Token := Token (Consul cfg)\<rparr> else c)
      in if Datacenter (Consul cfg) \<noteq> '''' then c\<lparr>cc_Datacenter := Datacenter (Consul cfg)\<rparr> else c)"

definition new_watcher :: "string \<Rightarrow> Watcher" where
  "new_watcher pre = \<lparr>w_Prefix = pre, w_stopCh = Open, lastIndex = 0\<rparr>"

text \<open>\<open>dflt\<close> is \<^verbatim>\<open>DefaultConfig()\<close>, \<open>client_ok\<close> whether \<^verbatim>\<open>NewClient\<close> accepts the configuration.\<close>

definition NewKVStore ::
    "consul_client_config \<Rightarrow> (consul_client_config \<Rightarrow> bool) \<Rightarrow> ClusterConfig \<Rightarrow> kv_state option" where
  "NewKVStore dflt client_ok cfg =
     (if \<not> client_ok (client_config dflt cfg) then None
      else (let pre = (if CachePrefix (Consul cfg) = '''' then ClusterName cfg @ ''/'' else CachePrefix (Consul cfg))
            in Some \<lparr>cache = [], watchers = mput pre 0 [], wheap = (\<lambda>_. new_watcher pre), nwatchers = 1,
                 active = [], asking = [], kv_stopCh = Open, kv_running = False, kv_cluster = ClusterName cfg,
                 kv_prefix = pre\<rparr>))"

section \<open>Reading and writing\<close>

definition Get :: "string \<Rightarrow> kv_state \<Rightarrow> bytes option" where
  "Get key k = (case mget (cache k) key of None \<Rightarrow> None | Some entry \<Rightarrow> Some (e_Value entry))"

definition GetEntry :: "string \<Rightarrow> kv_state \<Rightarrow> KVEntry option" where
  "GetEntry key k = mget (cache k) key"

text \<open>The Consul client's operations; the flags tell whether the call failed.\<close>

record 'c consul =
  kv_put :: "KVPair \<Rightarrow> 'c \<Rightarrow> 'c \<times> bool"
  kv_cas :: "KVPair \<Rightarrow> 'c \<Rightarrow> 'c \<times> bool option" \<comment> \<open>\<open>None\<close>: an error, otherwise whether it was written\<close>
  kv_delete :: "string \<Rightarrow> 'c \<Rightarrow> 'c \<times> bool"
  kv_list :: "string \<Rightarrow> 'c \<Rightarrow> KVPair list option"

datatype kv_error = PutFailed | CasFailed | CasConflict nat | DeleteFailed | ListFailed

definition kv_Set :: "'c consul \<Rightarrow> string \<Rightarrow> bytes \<Rightarrow> 'c \<Rightarrow> 'c \<times> kv_error option" where
  "kv_Set cl key v c =
     (let (c, failed) = kv_put cl \<lparr>p_Key = key, p_Value = v, p_ModifyIndex = 0\<rparr> c
      in (c, if failed then Some PutFailed else None))"

definition SetWithCAS :: "'c consul \<Rightarrow> string \<Rightarrow> bytes \<Rightarrow> nat \<Rightarrow> 'c \<Rightarrow> 'c \<times> (kv_error + bool)" where
  "SetWithCAS cl key v modifyIndex c =
     (let (c, r) = kv_cas cl \<lparr>p_Key = key, p_Value = v, p_ModifyIndex = modifyIndex\<rparr> c
      in (c, case r of None \<Rightarrow> Inl CasFailed
           | Some success \<Rightarrow> if \<not> success then Inl (CasConflict modifyIndex) else Inr True))"

definition kv_Delete :: "'c consul \<Rightarrow> string \<Rightarrow> 'c \<Rightarrow> 'c \<times> kv_error option" where
  "kv_Delete cl key c =
     (let (c, failed) = kv_delete cl key c in (c, if failed then Some DeleteFailed else None))"

text \<open>Entries built from a query carry no times (\<open>0\<close>: the zero time).\<close>

definition kv_List :: "'c consul \<Rightarrow> string \<Rightarrow> 'c \<Rightarrow> kv_error + KVEntry list" where
  "kv_List cl pre c =
     (case kv_list cl pre c of
        None \<Rightarrow> Inl ListFailed
      | Some pairs \<Rightarrow> Inr (map (\<lambda>p. \<lparr>e_Key = p_Key p, e_Value = p_Value p, e_ModifyIndex = p_ModifyIndex p,
          e_CreatedAt = 0, e_UpdatedAt = 0\<rparr>) pairs))"

text \<open>\<open>len(key) >= len(pre) && key[:len(pre)] == pre\<close>.\<close>

definition has_prefix :: "string \<Rightarrow> string \<Rightarrow> bool" where
  "has_prefix key pre \<longleftrightarrow> length key \<ge> length pre \<and> take (length pre) key = pre"

definition ListFromCache :: "(string, KVEntry) ranger \<Rightarrow> string \<Rightarrow> kv_state \<Rightarrow> KVEntry list" where
  "ListFromCache rng pre k =
     map snd (filter (\<lambda>(key, entry). length pre = 0 \<or> has_prefix key pre) (rng (cache k)))"

definition GetPrefixKey :: "string \<Rightarrow> string \<Rightarrow> kv_state \<Rightarrow> string" where
  "GetPrefixKey category subKey k = ''cluster/'' @ kv_cluster k @ ''/'' @ category @ ''/'' @ subKey"

definition GetCacheSize :: "kv_state \<Rightarrow> int" where
  "GetCacheSize k = int (mlen (cache k))"

section \<open>Synchronising the cache\<close>

text \<open>One pair, at time \<open>t\<close>.\<close>

definition sync_pair :: "int \<Rightarrow> KVPair \<Rightarrow> cache \<Rightarrow> cache" where
  "sync_pair t pair c =
     (case mget c (p_Key pair) of
        None \<Rightarrow> mput (p_Key pair) \<lparr>e_Key = p_Key pair, e_Value = p_Value pair,
            e_ModifyIndex = p_ModifyIndex pair, e_CreatedAt = t, e_UpdatedAt = t\<rparr> c
      | Some existing \<Rightarrow>
          if p_ModifyIndex pair > e_ModifyIndex existing
          then mput (p_Key pair) (existing\<lparr>e_Value := p_Value pair, e_ModifyIndex := p_ModifyIndex pair,
            e_UpdatedAt := t\<rparr>) c
          else c)"

fun sync_pairs :: "(nat \<Rightarrow> int) \<Rightarrow> KVPair list \<Rightarrow> cache \<Rightarrow> cache" where
  "sync_pairs ts [] c = c"
| "sync_pairs ts (p # ps) c = sync_pairs (\<lambda>n. ts (Suc n)) ps (sync_pair (ts 0) p c)"

text \<open>The loop over the cache, in the order \<open>ks\<close> its keys are visited in.\<close>

fun drop_missing :: "string \<Rightarrow> string set \<Rightarrow> string list \<Rightarrow> cache \<Rightarrow> cache" where
  "drop_missing pre newKeys [] c = c"
| "drop_missing pre newKeys (key # ks) c =
     drop_missing pre newKeys ks
       (if has_prefix key pre \<and> key \<notin> newKeys then mdel key c else c)"

definition sync_cache :: "(nat \<Rightarrow> int) \<Rightarrow> (string, KVEntry) ranger \<Rightarrow> string \<Rightarrow> KVPair list \<Rightarrow> cache \<Rightarrow> cache" where
  "sync_cache ts rng pre pairs c =
     (let c = sync_pairs ts pairs c
      in drop_missing pre (p_Key ` set pairs) (map fst (rng c)) c)"

definition syncCache ::
    "(nat \<Rightarrow> int) \<Rightarrow> (string, KVEntry) ranger \<Rightarrow> string \<Rightarrow> KVPair list \<Rightarrow> kv_state \<Rightarrow> kv_state" where
  "syncCache ts rng pre pairs k = k\<lparr>cache := sync_cache ts rng pre pairs (cache k)\<rparr>"

section \<open>Watchers\<close>

text \<open>What a query brings from outside: the pairs with the index, the clock readings, the visiting order.\<close>

record query =
  q_answer :: "(KVPair list \<times> nat) option"
  q_times :: "nat \<Rightarrow> int"
  q_range :: "(string, KVEntry) ranger"

definition set_watcher :: "nat \<Rightarrow> (Watcher \<Rightarrow> Watcher) \<Rightarrow> kv_state \<Rightarrow> kv_state" where
  "set_watcher i f k = k\<lparr>wheap := (wheap k)(i := f (wheap k i))\<rparr>"

text \<open>The flag tells whether the query failed (the caller then sleeps for a second).\<close>

definition watchOnce :: "query \<Rightarrow> nat \<Rightarrow> kv_state \<Rightarrow> kv_state \<times> bool" where
  "watchOnce q i k =
     (case q_answer q of
        None \<Rightarrow> (k, True)
      | Some (pairs, index) \<Rightarrow>
          if index \<le> lastIndex (wheap k i) then (k, False)
          else (syncCache (q_times q) (q_range q) (w_Prefix (wheap k i)) pairs
                  (set_watcher i (\<lambda>w. w\<lparr>lastIndex := index\<rparr>) k), False))"

text \<open>A step of a watcher's goroutine. At the top of its loop it looks at its stop channel: it returns when
  that is closed, otherwise it sends its query. A goroutine that has a query out cannot see the channel:
  it goes on when the answer comes, and works it in.\<close>

definition watcher_start :: "query \<Rightarrow> nat \<Rightarrow> kv_state \<Rightarrow> kv_state" where
  "watcher_start q i k =
     (if i \<in> set (asking k) then fst (watchOnce q i (k\<lparr>asking := filter (\<lambda>j. j \<noteq> i) (asking k)\<rparr>))
      else case w_stopCh (wheap k i) of
        Closed \<Rightarrow> k\<lparr>active := filter (\<lambda>j. j \<noteq> i) (active k)\<rparr>
      | Open \<Rightarrow> k\<lparr>asking := asking k @ [i]\<rparr>)"

definition AddWatcher :: "string \<Rightarrow> kv_state \<Rightarrow> kv_state" where
  "AddWatcher pre k =
     (if mhas (watchers k) pre then k
      else (let i = nwatchers k;
                k = k\<lparr>wheap := (wheap k)(i := new_watcher pre), nwatchers := i + 1,
                      watchers := mput pre i (watchers k)\<rparr>
            in if kv_running k then k\<lparr>active := active k @ [i]\<rparr> else k))"

definition close_watcher :: "nat \<Rightarrow> kv_state \<Rightarrow> kv_state outcome" where
  "close_watcher i k =
     obind (close_stop (w_stopCh (wheap k i))) (\<lambda>ch. Ok (set_watcher i (\<lambda>w. w\<lparr>w_stopCh := ch\<rparr>) k))"

definition RemoveWatcher :: "string \<Rightarrow> kv_state \<Rightarrow> kv_state outcome" where
  "RemoveWatcher pre k =
     (case mget (watchers k) pre of
        None \<Rightarrow> Ok k
      | Some i \<Rightarrow> obind (close_watcher i k) (\<lambda>k. Ok (k\<lparr>watchers := mdel pre (watchers k)\<rparr>)))"

text \<open>The initial load of one watched prefix.\<close>

definition load_prefix :: "(string \<Rightarrow> query) \<Rightarrow> string \<times> nat \<Rightarrow> kv_state \<Rightarrow> kv_state" where
  "load_prefix qs = (\<lambda>(pre, i) k.
     case q_answer (qs pre) of
       None \<Rightarrow> k
     | Some (pairs, index) \<Rightarrow>
         syncCache (q_times (qs pre)) (q_range (qs pre)) pre pairs
           (set_watcher i (\<lambda>w. w\<lparr>lastIndex := index\<rparr>) k))"

definition kv_Start ::
    "(string \<Rightarrow> query) \<Rightarrow> (string, nat) ranger \<Rightarrow> (string, nat) ranger \<Rightarrow> kv_state \<Rightarrow> kv_state" where
  "kv_Start qs rng rng2 k =
     (if kv_running k then k
      else (let k = k\<lparr>kv_running := True, kv_stopCh := Open\<rparr>;
                k = fold (load_prefix qs) (rng (watchers k)) k
            in k\<lparr>active := active k @ map snd (rng2 (watchers k))\<rparr>))"

fun close_watchers :: "(string \<times> nat) list \<Rightarrow> kv_state \<Rightarrow> kv_state outcome" where
  "close_watchers [] k = Ok k"
| "close_watchers ((pre, i) # ws) k = obind (close_watcher i k) (close_watchers ws)"

definition kv_Stop :: "(string, nat) ranger \<Rightarrow> kv_state \<Rightarrow> kv_state outcome" where
  "kv_Stop rng k =
     (if \<not> kv_running k then Ok k
      else (let k = k\<lparr>kv_running := False\<rparr>
            in obind (close_stop (kv_stopCh k)) (\<lambda>ch.
                 let k = k\<lparr>kv_stopCh := ch\<rparr>
                 in obind (close_watchers (rng (watchers k)) k) (\<lambda>k. Ok (k\<lparr>watchers := []\<rparr>)))))"

end
