(* ===== verification/Machine.thy ===== *)
theory Machine
  imports Prelude
begin

text \<open>
  Components that are driven by a sequence of operations. The contract \<open>safe_machine\<close>: where the
  invariant holds, an operation that is allowed succeeds and keeps it; then every sequence does. The
  components with a life cycle interpret it on their operations.
\<close>

fun run_ops :: "('o \<Rightarrow> 's \<Rightarrow> 's outcome) \<Rightarrow> 'o list \<Rightarrow> 's \<Rightarrow> 's outcome" where
  "run_ops step [] s = Ok s"
| "run_ops step (x # xs) s = obind (step x s) (run_ops step xs)"

lemma run_ops_append: "run_ops step (xs @ ys) s = obind (run_ops step xs s) (run_ops step ys)"
proof (induction xs arbitrary: s)
  case Nil
  then show ?case by simp
next
  case (Cons x xs)
  then show ?case by (cases "step x s") simp_all
qed

locale safe_machine =
  fixes step :: "'o \<Rightarrow> 's \<Rightarrow> 's outcome"
    and allowed :: "'o \<Rightarrow> bool"
    and inv :: "'s \<Rightarrow> bool"
  assumes step_safe: "inv s \<Longrightarrow> allowed x \<Longrightarrow> \<exists>s'. step x s = Ok s' \<and> inv s'"
begin

lemma run_safe: "inv s \<Longrightarrow> \<forall>x \<in> set xs. allowed x \<Longrightarrow> \<exists>s'. run_ops step xs s = Ok s' \<and> inv s'"
proof (induction xs arbitrary: s)
  case Nil
  then show ?case by simp
next
  case (Cons x xs)
  from Cons.prems step_safe [of s x] obtain s1 where "step x s = Ok s1" "inv s1" by auto
  with Cons show ?case by auto
qed

lemma run_inv: "inv s \<Longrightarrow> \<forall>x \<in> set xs. allowed x \<Longrightarrow> run_ops step xs s = Ok s' \<Longrightarrow> inv s'"
  using run_safe by fastforce

end

end
