(* ===== verification/KVProps.thy ===== *)
theory KVProps
  imports KVStore Registry Machine
begin

text \<open>
  The properties of the key-value cache: what one synchronisation does to it, that it mirrors the
  store as of the watcher's last index, and the life cycle of watchers and their goroutines.
\<close>

section \<open>Synchronisation\<close>

lemma sync_pair_get:
  "mget (sync_pair t p c) k =
     (if k = p_Key p then
        (case mget c k of
           None \<Rightarrow> Some \<lparr>e_Key = k, e_Value = p_Value p, e_ModifyIndex = p_ModifyIndex p, e_CreatedAt = t, e_UpdatedAt = t\<rparr>
         | Some e \<Rightarrow> if p_ModifyIndex p > e_ModifyIndex e
             then Some (e\<lparr>e_Value := p_Value p, e_ModifyIndex := p_ModifyIndex p, e_UpdatedAt := t\<rparr>) else Some e)
      else mget c k)"
  by (auto simp: sync_pair_def split: option.split)

lemma sync_pair_wf: "keyed_by e_Key c \<Longrightarrow> keyed_by e_Key (sync_pair t p c)"
  by (auto simp: sync_pair_def dest: keyed_by_key intro!: keyed_by_put split: option.split)

lemma sync_pairs_wf: "keyed_by e_Key c \<Longrightarrow> keyed_by e_Key (sync_pairs ts ps c)"
  by (induction ts ps c rule: sync_pairs.induct) (auto simp: sync_pair_wf)

lemma sync_pairs_other: "k \<notin> p_Key ` set ps \<Longrightarrow> mget (sync_pairs ts ps c) k = mget c k"
  by (induction ts ps c rule: sync_pairs.induct) (auto simp: sync_pair_get)

lemma sync_pairs_in:
  "distinct (map p_Key ps) \<Longrightarrow> p \<in> set ps \<Longrightarrow>
     \<exists>t. mget (sync_pairs ts ps c) (p_Key p) = mget (sync_pair t p c) (p_Key p)"
proof (induction ts ps c rule: sync_pairs.induct)
  case (1 ts c)
  then show ?case by simp
next
  case (2 ts q ps c)
  show ?case
  proof (cases "p = q")
    case True
    with 2 have "p_Key p \<notin> p_Key ` set ps" by simp
    with True show ?thesis by (auto simp: sync_pairs_other)
  next
    case False
    with 2 have "p \<in> set ps" "p_Key q \<notin> p_Key ` set ps" by auto
    then have n: "p_Key p \<noteq> p_Key q" by (metis image_eqI)
    have "mget (sync_pair t p (sync_pair (ts 0) q c)) (p_Key p) = mget (sync_pair t p c) (p_Key p)" for t
      by (simp add: sync_pair_get n)
    with 2 False show ?thesis by auto
  qed
qed

lemma drop_missing_get:
  "mget (drop_missing pre N ks c) k =
     (if k \<in> set ks \<and> has_prefix k pre \<and> k \<notin> N then None else mget c k)"
  by (induction pre N ks c rule: drop_missing.induct) auto

lemma drop_missing_wf: "keyed_by e_Key c \<Longrightarrow> keyed_by e_Key (drop_missing pre N ks c)"
  by (induction pre N ks c rule: drop_missing.induct) (auto simp: keyed_by_del)

lemma sync_cache_get:
  assumes "\<And>m. range_ok rng m"
  shows "mget (sync_cache ts rng pre ps c) k =
    (if has_prefix k pre \<and> k \<notin> p_Key ` set ps then None else mget (sync_pairs ts ps c) k)"
proof -
  let ?c = "sync_pairs ts ps c"
  have "set (map fst (rng ?c)) = dom (mget ?c)"
    using range_ok_set [OF assms, of ?c] by (simp add: gm.dom_get)
  then show ?thesis
    by (auto simp: sync_cache_def Let_def drop_missing_get domIff)
qed

lemma sync_cache_wf: "keyed_by e_Key c \<Longrightarrow> keyed_by e_Key (sync_cache ts rng pre ps c)"
  by (simp add: sync_cache_def Let_def drop_missing_wf sync_pairs_wf)

definition old_index :: "cache \<Rightarrow> string \<Rightarrow> nat" where
  "old_index c k = (case mget c k of None \<Rightarrow> 0 | Some e \<Rightarrow> e_ModifyIndex e)"

text \<open>One synchronisation of a prefix with an answer of the store. Under the prefix the cache then
  holds exactly the keys of the answer; a key that was not cached, or was cached at an older index,
  gets the answer's value and index, and one at the same or a newer index keeps its entry. Keys
  outside the prefix are untouched, and every entry stays stored under its own key. The order in
  which the map is visited does not matter.\<close>

theorem sync_exact:
  assumes "\<And>m. range_ok rng m" "keyed_by e_Key (cache k)"
    and "distinct (map p_Key ps)" "\<forall>p \<in> set ps. has_prefix (p_Key p) pre"
  shows "keyed_by e_Key (cache (syncCache ts rng pre ps k)) \<and>
    (\<forall>key. has_prefix key pre \<longrightarrow> (mhas (cache (syncCache ts rng pre ps k)) key \<longleftrightarrow> key \<in> p_Key ` set ps)) \<and>
    (\<forall>key. \<not> has_prefix key pre \<longrightarrow> GetEntry key (syncCache ts rng pre ps k) = GetEntry key k) \<and>
    (\<forall>p \<in> set ps. \<exists>e. GetEntry (p_Key p) (syncCache ts rng pre ps k) = Some e \<and>
       e_ModifyIndex e = max (old_index (cache k) (p_Key p)) (p_ModifyIndex p) \<and>
       (if mhas (cache k) (p_Key p) \<and> p_ModifyIndex p \<le> old_index (cache k) (p_Key p)
        then GetEntry (p_Key p) k = Some e else e_Value e = p_Value p))"
proof (intro conjI)
  show "keyed_by e_Key (cache (syncCache ts rng pre ps k))"
    using assms(2) by (simp add: syncCache_def sync_cache_wf)
  have in_ps: "\<exists>e. mget (sync_pairs ts ps (cache k)) (p_Key p) = Some e \<and>
       e_ModifyIndex e = max (old_index (cache k) (p_Key p)) (p_ModifyIndex p) \<and>
       (if mhas (cache k) (p_Key p) \<and> p_ModifyIndex p \<le> old_index (cache k) (p_Key p)
        then mget (cache k) (p_Key p) = Some e else e_Value e = p_Value p)" if "p \<in> set ps" for p
  proof -
    from sync_pairs_in [OF assms(3) that] obtain t
      where t: "mget (sync_pairs ts ps (cache k)) (p_Key p) = mget (sync_pair t p (cache k)) (p_Key p)" by blast
    show ?thesis
    proof (cases "mget (cache k) (p_Key p)")
      case None
      then show ?thesis by (simp add: t sync_pair_get old_index_def mhas_def)
    next
      case (Some y)
      then show ?thesis
        by (cases "e_ModifyIndex y < p_ModifyIndex p") (simp_all add: t sync_pair_get old_index_def mhas_def max_def)
    qed
  qed
  have "mget (sync_pairs ts ps (cache k)) key \<noteq> None" if "key \<in> p_Key ` set ps" for key
    using that in_ps by auto
  then show "\<forall>key. has_prefix key pre \<longrightarrow> (mhas (cache (syncCache ts rng pre ps k)) key \<longleftrightarrow> key \<in> p_Key ` set ps)"
    by (auto simp: syncCache_def sync_cache_get [OF assms(1)] mhas_def)
  show "\<forall>key. \<not> has_prefix key pre \<longrightarrow> GetEntry key (syncCache ts rng pre ps k) = GetEntry key k"
    using assms(4) by (auto simp: syncCache_def GetEntry_def sync_cache_get [OF assms(1)] intro!: sync_pairs_other)
  show "\<forall>p \<in> set ps. \<exists>e. GetEntry (p_Key p) (syncCache ts rng pre ps k) = Some e \<and>
       e_ModifyIndex e = max (old_index (cache k) (p_Key p)) (p_ModifyIndex p) \<and>
       (if mhas (cache k) (p_Key p) \<and> p_ModifyIndex p \<le> old_index (cache k) (p_Key p)
        then GetEntry (p_Key p) k = Some e else e_Value e = p_Value p)"
  proof
    fix p assume p: "p \<in> set ps"
    then have "mget (cache (syncCache ts rng pre ps k)) (p_Key p) = mget (sync_pairs ts ps (cache k)) (p_Key p)"
      by (simp add: syncCache_def sync_cache_get [OF assms(1)])
    with in_ps [OF p] show "\<exists>e. GetEntry (p_Key p) (syncCache ts rng pre ps k) = Some e \<and>
       e_ModifyIndex e = max (old_index (cache k) (p_Key p)) (p_ModifyIndex p) \<and>
       (if mhas (cache k) (p_Key p) \<and> p_ModifyIndex p \<le> old_index (cache k) (p_Key p)
        then GetEntry (p_Key p) k = Some e else e_Value e = p_Value p)"
      by (simp only: GetEntry_def)
  qed
qed

definition kv0 :: kv_state where
  "kv0 = \<lparr>cache = [], watchers = [(''c/'', 0)], wheap = (\<lambda>_. new_watcher ''c/''), nwatchers = 1, active = [], asking = [],
     kv_stopCh = Open, kv_running = False, kv_cluster = ''c'', kv_prefix = ''c/''\<rparr>"

definition pair_a :: KVPair where
  "pair_a = \<lparr>p_Key = ''c/a'', p_Value = [1], p_ModifyIndex = 5\<rparr>"

theorem sync_exact_witness:
  "\<exists>e. GetEntry ''c/a'' (syncCache (\<lambda>n. 0) (\<lambda>m. m) ''c/'' [pair_a] kv0) = Some e \<and> e_Value e = [1] \<and>
     e_ModifyIndex e = 5"
proof -
  have "keyed_by e_Key (cache kv0)" by (simp add: kv0_def)
  from sync_exact [OF _ this, of "\<lambda>m. m" "[pair_a]" "''c/''" "\<lambda>n. 0"] show ?thesis
    by (auto simp: range_ok_def pair_a_def has_prefix_def kv0_def old_index_def)
qed

section \<open>The cache mirrors the store\<close>

text \<open>
  A history of the store: its pairs under a prefix at each index. What Consul promises: keys are
  unique and carry the prefix; a key's modify index never decreases, and changes when its value does.
\<close>

definition history_ok :: "string \<Rightarrow> (nat \<Rightarrow> KVPair list) \<Rightarrow> bool" where
  "history_ok pre snap \<longleftrightarrow>
     (\<forall>n. distinct (map p_Key (snap n)) \<and> (\<forall>p \<in> set (snap n). has_prefix (p_Key p) pre)) \<and>
     (\<forall>m n p q. m \<le> n \<longrightarrow> p \<in> set (snap m) \<longrightarrow> q \<in> set (snap n) \<longrightarrow> p_Key p = p_Key q \<longrightarrow>
        p_ModifyIndex p \<le> p_ModifyIndex q \<and> (p_ModifyIndex p = p_ModifyIndex q \<longrightarrow> p_Value p = p_Value q))"

text \<open>Under the prefix the cache says what the pairs say.\<close>

definition mirrors :: "string \<Rightarrow> cache \<Rightarrow> KVPair list \<Rightarrow> bool" where
  "mirrors pre c ps \<longleftrightarrow> keyed_by e_Key c \<and>
     (\<forall>key. has_prefix key pre \<longrightarrow> (mhas c key \<longleftrightarrow> key \<in> p_Key ` set ps)) \<and>
     (\<forall>p \<in> set ps. \<exists>e. mget c (p_Key p) = Some e \<and> e_Value e = p_Value p \<and> e_ModifyIndex e = p_ModifyIndex p)"

lemma mirrors_sync:
  assumes h: "history_ok pre snap" "m \<le> n" and c: "mirrors pre c (snap m)" and rng: "\<And>m. range_ok rng m"
  shows "mirrors pre (sync_cache ts rng pre (snap n) c) (snap n)"
proof -
  have d: "distinct (map p_Key (snap n))" and pf: "\<forall>p \<in> set (snap n). has_prefix (p_Key p) pre"
    using h(1) by (auto simp: history_ok_def)
  have q: "\<exists>e. mget (sync_pairs ts (snap n) c) (p_Key q) = Some e \<and> e_Value e = p_Value q \<and>
      e_ModifyIndex e = p_ModifyIndex q" if "q \<in> set (snap n)" for q
  proof -
    from sync_pairs_in [OF d that] obtain t
      where t: "mget (sync_pairs ts (snap n) c) (p_Key q) = mget (sync_pair t q c) (p_Key q)" by blast
    show ?thesis
    proof (cases "mget c (p_Key q)")
      case None
      then show ?thesis by (simp add: t sync_pair_get)
    next
      case (Some e)
      then have "p_Key q \<in> p_Key ` set (snap m)"
        using c pf that by (auto simp: mirrors_def mhas_def)
      then obtain p where p: "p \<in> set (snap m)" "p_Key p = p_Key q" by auto
      then have "e_Value e = p_Value p" "e_ModifyIndex e = p_ModifyIndex p"
        using c Some by (auto simp: mirrors_def)
      moreover have "p_ModifyIndex p \<le> p_ModifyIndex q \<and> (p_ModifyIndex p = p_ModifyIndex q \<longrightarrow> p_Value p = p_Value q)"
        using h p that by (auto simp: history_ok_def)
      ultimately show ?thesis using Some by (auto simp: t sync_pair_get)
    qed
  qed
  then have "mget (sync_pairs ts (snap n) c) key \<noteq> None" if "key \<in> p_Key ` set (snap n)" for key
    using that by auto
  with q c show ?thesis
    by (auto simp: mirrors_def sync_cache_wf sync_cache_get [OF rng] mhas_def)
qed

text \<open>The rounds of one watcher; the answers come from the history, or are errors.\<close>

fun rounds :: "query list \<Rightarrow> nat \<Rightarrow> kv_state \<Rightarrow> kv_state" where
  "rounds [] i k = k"
| "rounds (q # qs) i k = rounds qs i (fst (watchOnce q i k))"

definition answers_from :: "(nat \<Rightarrow> KVPair list) \<Rightarrow> query \<Rightarrow> bool" where
  "answers_from snap q \<longleftrightarrow> (\<forall>m. range_ok (q_range q) m) \<and>
     (case q_answer q of None \<Rightarrow> True | Some (ps, n) \<Rightarrow> ps = snap n)"

lemma watchOnce_mirrors:
  assumes "history_ok pre snap" "answers_from snap q" "w_Prefix (wheap k i) = pre"
    and "mirrors pre (cache k) (snap (lastIndex (wheap k i)))" "fst (watchOnce q i k) = k'"
  shows "mirrors pre (cache k') (snap (lastIndex (wheap k' i))) \<and> w_Prefix (wheap k' i) = pre \<and>
    lastIndex (wheap k i) \<le> lastIndex (wheap k' i)"
proof (cases "q_answer q")
  case None
  with assms show ?thesis by (auto simp: watchOnce_def)
next
  case (Some a)
  obtain ps n where a: "a = (ps, n)" by (cases a)
  show ?thesis
  proof (cases "n \<le> lastIndex (wheap k i)")
    case True
    with assms Some a show ?thesis by (auto simp: watchOnce_def)
  next
    case False
    with assms Some a have ps: "ps = snap n" and r: "\<And>m. range_ok (q_range q) m"
      by (auto simp: answers_from_def)
    have "k' = syncCache (q_times q) (q_range q) pre ps (set_watcher i (\<lambda>w. w\<lparr>lastIndex := n\<rparr>) k)"
      using assms(3,5) Some a False by (simp add: watchOnce_def)
    moreover have "mirrors pre (sync_cache (q_times q) (q_range q) pre (snap n) (cache k)) (snap n)"
      by (rule mirrors_sync [OF assms(1) _ assms(4) r]) (use False in simp)
    ultimately show ?thesis
      using assms(3) False by (simp add: syncCache_def set_watcher_def ps)
  qed
qed

text \<open>C15: A watcher keeps the cache in step with the store. If the cache mirrored the store, under the
  watcher's prefix, as of the watcher's last index, then after any number of rounds, whatever mix of
  errors, timeouts and changes, it mirrors it as of the new last index, which never goes back: the
  same keys, with the values and indices they had in the store.\<close>

theorem watcher_mirrors:
  assumes "history_ok pre snap" "\<forall>q \<in> set qs. answers_from snap q" "w_Prefix (wheap k i) = pre"
    and "mirrors pre (cache k) (snap (lastIndex (wheap k i)))"
  shows "mirrors pre (cache (rounds qs i k)) (snap (lastIndex (wheap (rounds qs i k) i))) \<and>
    lastIndex (wheap k i) \<le> lastIndex (wheap (rounds qs i k) i)"
  using assms(2-4)
proof (induction qs arbitrary: k)
  case Nil
  then show ?case by simp
next
  case (Cons q qs)
  from watchOnce_mirrors [OF assms(1) _ Cons.prems(2,3) refl, of q] Cons.prems(1)
  have "mirrors pre (cache (fst (watchOnce q i k))) (snap (lastIndex (wheap (fst (watchOnce q i k)) i)))"
    "w_Prefix (wheap (fst (watchOnce q i k)) i) = pre"
    "lastIndex (wheap k i) \<le> lastIndex (wheap (fst (watchOnce q i k)) i)" by auto
  with Cons.IH [of "fst (watchOnce q i k)"] Cons.prems(1) show ?case by auto
qed

definition snap_a :: "nat \<Rightarrow> KVPair list" where
  "snap_a n = (if n < 5 then [] else if n < 9 then [pair_a] else [pair_a\<lparr>p_Value := [2], p_ModifyIndex := 9\<rparr>])"

definition ask :: "nat \<Rightarrow> query" where
  "ask n = \<lparr>q_answer = Some (snap_a n, n), q_times = \<lambda>n. 0, q_range = \<lambda>m. m\<rparr>"

theorem watcher_mirrors_witness:
  "mirrors ''c/'' (cache (rounds [ask 5, ask 9] 0 kv0)) (snap_a (lastIndex (wheap (rounds [ask 5, ask 9] 0 kv0) 0)))"
proof -
  have h: "history_ok ''c/'' snap_a"
    by (auto simp: history_ok_def snap_a_def pair_a_def has_prefix_def)
  have a: "\<forall>q \<in> set [ask 5, ask 9]. answers_from snap_a q"
    by (simp add: ask_def answers_from_def range_ok_def)
  have w: "w_Prefix (wheap kv0 0) = ''c/''" by (simp add: kv0_def new_watcher_def)
  have "mirrors ''c/'' (cache kv0) (snap_a (lastIndex (wheap kv0 0)))"
    by (simp add: kv0_def new_watcher_def snap_a_def mirrors_def)
  from watcher_mirrors [OF h a w this] show ?thesis by blast
qed

section \<open>The life cycle of watchers\<close>

datatype kv_op =
    OpAdd string
  | OpRemove string
  | OpStart "string \<Rightarrow> query" "(string, nat) ranger" "(string, nat) ranger"
  | OpStop "(string, nat) ranger"
  | OpRound query nat \<comment> \<open>a started goroutine takes a step\<close>

definition kv_step :: "kv_op \<Rightarrow> kv_state \<Rightarrow> kv_state outcome" where
  "kv_step op k =
     (case op of
        OpAdd pre \<Rightarrow> Ok (AddWatcher pre k)
      | OpRemove pre \<Rightarrow> RemoveWatcher pre k
      | OpStart qs rng rng2 \<Rightarrow> Ok (kv_Start qs rng rng2 k)
      | OpStop rng \<Rightarrow> kv_Stop rng k
      | OpRound q i \<Rightarrow> Ok (if i \<in> set (active k) then watcher_start q i k else k))"

definition kv_allowed :: "kv_op \<Rightarrow> bool" where
  "kv_allowed op = (case op of
     OpStart qs rng rng2 \<Rightarrow> (\<forall>m. range_ok rng m) \<and> (\<forall>m. range_ok rng2 m)
   | OpStop rng \<Rightarrow> \<forall>m. range_ok rng m
   | _ \<Rightarrow> True)"

text \<open>
  The watched objects are distinct, not told to stop, and hold the prefix they are stored under; a
  goroutine runs at most once, and one that is not told to stop belongs to a watched object; while the
  store runs every watched object has its goroutine, otherwise none has. Only goroutines ask, each one
  question at a time.
\<close>

definition kv_inv :: "kv_state \<Rightarrow> bool" where
  "kv_inv k \<longleftrightarrow> mwf (watchers k) \<and> distinct (map snd (watchers k)) \<and>
     (\<forall>p \<in> set (watchers k).
        snd p < nwatchers k \<and> w_stopCh (wheap k (snd p)) = Open \<and> w_Prefix (wheap k (snd p)) = fst p) \<and>
     (\<forall>i \<in> set (active k). i < nwatchers k \<and> (w_stopCh (wheap k i) = Open \<longrightarrow> i \<in> snd ` set (watchers k))) \<and>
     distinct (active k) \<and> distinct (asking k) \<and> set (asking k) \<subseteq> set (active k) \<and>
     (if kv_running k then kv_stopCh k = Open \<and> snd ` set (watchers k) \<subseteq> set (active k)
      else snd ` set (watchers k) \<inter> set (active k) = {})"

lemma kv_invD:
  assumes "kv_inv k"
  shows "mwf (watchers k)" "distinct (map snd (watchers k))" "distinct (active k)"
    and "i \<in> snd ` set (watchers k) \<Longrightarrow> i < nwatchers k" "i \<in> snd ` set (watchers k) \<Longrightarrow> w_stopCh (wheap k i) = Open"
    and "i \<in> set (active k) \<Longrightarrow> i < nwatchers k"
    and "i \<in> set (active k) \<Longrightarrow> w_stopCh (wheap k i) = Open \<Longrightarrow> i \<in> snd ` set (watchers k)"
    and "kv_running k \<Longrightarrow> kv_stopCh k = Open" "kv_running k \<Longrightarrow> snd ` set (watchers k) \<subseteq> set (active k)"
    and "\<not> kv_running k \<Longrightarrow> snd ` set (watchers k) \<inter> set (active k) = {}"
    and "p \<in> set (watchers k) \<Longrightarrow> snd p < nwatchers k \<and> w_stopCh (wheap k (snd p)) = Open \<and>
      w_Prefix (wheap k (snd p)) = fst p"
    and "distinct (asking k)" "set (asking k) \<subseteq> set (active k)"
  using assms unfolding kv_inv_def by auto

lemma set_mput: "mwf m \<Longrightarrow> \<not> mhas m k \<Longrightarrow> set (mput k v m) = insert (k, v) (set m)"
  using gm.in_entries [of m] gm.in_entries [of "mput k v m"] by (auto simp: mhas_def split: if_splits)

lemma set_mdel: "mwf m \<Longrightarrow> set (mdel k m) = {p \<in> set m. fst p \<noteq> k}"
  using gm.in_entries [of m] gm.in_entries [of "mdel k m"] by (auto split: if_splits)

lemma distinct_snd_mput:
  "mwf m \<Longrightarrow> \<not> mhas m k \<Longrightarrow> distinct (map snd m) \<Longrightarrow> v \<notin> snd ` set m \<Longrightarrow> distinct (map snd (mput k v m))"
proof (induction m)
  case Nil
  then show ?case by (simp add: mput_def)
next
  case (Cons p m)
  obtain a b where p: "p = (a, b)" by (cases p)
  with Cons.prems have "\<not> mhas m k" "a \<noteq> k" "mwf m"
    by (auto simp: mhas_def mget_def mwf_def split: if_splits)
  with Cons p have "distinct (map snd (mput k v m))" "b \<notin> snd ` set (mput k v m)"
    by (auto simp: set_mput)
  with p \<open>a \<noteq> k\<close> show ?case by (simp add: mput_def)
qed

lemma distinct_snd_mdel: "distinct (map snd m) \<Longrightarrow> distinct (map snd (mdel k m))"
  by (simp add: mdel_def AList.delete_eq distinct_map_filter)

lemma kv_frame [simp]:
  "watchers (syncCache ts rng pre ps k) = watchers k" "wheap (syncCache ts rng pre ps k) = wheap k"
  "nwatchers (syncCache ts rng pre ps k) = nwatchers k" "active (syncCache ts rng pre ps k) = active k"
  "asking (syncCache ts rng pre ps k) = asking k" "asking (set_watcher i f k) = asking k"
  "kv_running (syncCache ts rng pre ps k) = kv_running k" "kv_stopCh (syncCache ts rng pre ps k) = kv_stopCh k"
  "watchers (set_watcher i f k) = watchers k" "nwatchers (set_watcher i f k) = nwatchers k"
  "active (set_watcher i f k) = active k" "kv_running (set_watcher i f k) = kv_running k"
  "kv_stopCh (set_watcher i f k) = kv_stopCh k" "cache (set_watcher i f k) = cache k"
  "wheap (set_watcher i f k) j = (if j = i then f (wheap k i) else wheap k j)"
  by (simp_all add: syncCache_def set_watcher_def)

lemma kv_inv_index:
  "kv_inv k \<Longrightarrow> (\<And>w. w_stopCh (f w) = w_stopCh w) \<Longrightarrow> (\<And>w. w_Prefix (f w) = w_Prefix w) \<Longrightarrow>
     kv_inv (set_watcher i f k)"
  by (auto simp: kv_inv_def)

lemma kv_inv_sync: "kv_inv k \<Longrightarrow> kv_inv (syncCache ts rng pre ps k)"
  by (simp add: kv_inv_def)

lemma kv_inv_watchOnce: "kv_inv k \<Longrightarrow> kv_inv (fst (watchOnce q i k))"
  by (auto simp: watchOnce_def intro!: kv_inv_sync kv_inv_index split: option.split)

lemma kv_inv_asking:
  "kv_inv k \<Longrightarrow> distinct js \<Longrightarrow> set js \<subseteq> set (active k) \<Longrightarrow> kv_inv (k\<lparr>asking := js\<rparr>)"
  by (simp add: kv_inv_def)

lemma kv_inv_return:
  assumes k: "kv_inv k" and c: "w_stopCh (wheap k i) = Closed" and a: "i \<notin> set (asking k)"
  shows "kv_inv (k\<lparr>active := filter (\<lambda>j. j \<noteq> i) (active k)\<rparr>)"
proof -
  have n: "i \<notin> snd ` set (watchers k)"
    using kv_invD(5) [OF k, of i] c by (metis stop_chan.distinct(1))
  have "snd ` set (watchers k) \<subseteq> set (filter (\<lambda>j. j \<noteq> i) (active k))" if "kv_running k"
    using kv_invD(9) [OF k that] n by auto
  moreover have "snd ` set (watchers k) \<inter> set (filter (\<lambda>j. j \<noteq> i) (active k)) = {}" if "\<not> kv_running k"
    using kv_invD(10) [OF k that] by auto
  moreover have "set (asking k) \<subseteq> set (filter (\<lambda>j. j \<noteq> i) (active k))"
    using kv_invD(13) [OF k] a by auto
  ultimately show ?thesis
    using k by (simp add: kv_inv_def)
qed

lemma kv_inv_round:
  assumes "kv_inv k" "i \<in> set (active k)"
  shows "kv_inv (watcher_start q i k)"
proof (cases "i \<in> set (asking k)")
  case True
  have "kv_inv (k\<lparr>asking := filter (\<lambda>j. j \<noteq> i) (asking k)\<rparr>)"
    by (rule kv_inv_asking) (use assms kv_invD(12,13) [OF assms(1)] in auto)
  with True show ?thesis by (simp add: watcher_start_def kv_inv_watchOnce)
next
  case False
  show ?thesis
  proof (cases "w_stopCh (wheap k i)")
    case Open
    have "kv_inv (k\<lparr>asking := asking k @ [i]\<rparr>)"
      by (rule kv_inv_asking) (use assms False kv_invD(12,13) [OF assms(1)] in auto)
    with Open False show ?thesis by (simp add: watcher_start_def)
  next
    case Closed
    with assms False show ?thesis by (simp add: watcher_start_def kv_inv_return)
  qed
qed

lemma kv_inv_add:
  assumes "kv_inv k"
  shows "kv_inv (AddWatcher pre k)"
proof (cases "mhas (watchers k) pre")
  case True
  with assms show ?thesis by (simp add: AddWatcher_def)
next
  case False
  let ?n = "nwatchers k" and ?k = "AddWatcher pre k"
  have wf: "mwf (watchers k)" and new: "?n \<notin> snd ` set (watchers k)" "?n \<notin> set (active k)"
    using kv_invD(1) [OF assms] kv_invD(4) [OF assms, of ?n] kv_invD(6) [OF assms, of ?n] by blast+
  have k: "watchers ?k = mput pre ?n (watchers k)" "wheap ?k = (wheap k)(?n := new_watcher pre)"
    "nwatchers ?k = Suc ?n" "active ?k = (if kv_running k then active k @ [?n] else active k)"
    "kv_running ?k = kv_running k" "kv_stopCh ?k = kv_stopCh k" "asking ?k = asking k"
    using False by (simp_all add: AddWatcher_def Let_def)
  have s: "set (mput pre ?n (watchers k)) = insert (pre, ?n) (set (watchers k))"
    by (rule set_mput [OF wf False])
  show ?thesis
    unfolding kv_inv_def k s
  proof (intro conjI)
    show "mwf (mput pre ?n (watchers k))" using wf by simp
    show "distinct (map snd (mput pre ?n (watchers k)))"
      by (rule distinct_snd_mput [OF wf False kv_invD(2) [OF assms] new(1)])
    show "\<forall>p \<in> insert (pre, ?n) (set (watchers k)). snd p < Suc ?n \<and>
        w_stopCh (((wheap k)(?n := new_watcher pre)) (snd p)) = Open \<and>
        w_Prefix (((wheap k)(?n := new_watcher pre)) (snd p)) = fst p"
    proof
      fix p assume p: "p \<in> insert (pre, ?n) (set (watchers k))"
      show "snd p < Suc ?n \<and> w_stopCh (((wheap k)(?n := new_watcher pre)) (snd p)) = Open \<and>
          w_Prefix (((wheap k)(?n := new_watcher pre)) (snd p)) = fst p"
      proof (cases "p = (pre, ?n)")
        case True
        then show ?thesis by (simp add: new_watcher_def)
      next
        case False
        with p have "p \<in> set (watchers k)" by simp
        moreover from this new(1) have "snd p \<noteq> ?n" by (metis image_eqI)
        ultimately show ?thesis using kv_invD(11) [OF assms, of p] by simp
      qed
    qed
    have "i < Suc ?n \<and> (w_stopCh (((wheap k)(?n := new_watcher pre)) i) = Open \<longrightarrow>
        i \<in> snd ` insert (pre, ?n) (set (watchers k)))" if "i \<in> insert ?n (set (active k))" for i
    proof (cases "i = ?n")
      case False
      with that have "i \<in> set (active k)" by simp
      with kv_invD(6,7) [OF assms this] False show ?thesis by simp
    qed simp
    then show "\<forall>i \<in> set (if kv_running k then active k @ [?n] else active k). i < Suc ?n \<and>
        (w_stopCh (((wheap k)(?n := new_watcher pre)) i) = Open \<longrightarrow> i \<in> snd ` insert (pre, ?n) (set (watchers k)))"
      by simp
    show "distinct (if kv_running k then active k @ [?n] else active k)"
      using kv_invD(3) [OF assms] new(2) by simp
    show "distinct (asking k)" by (rule kv_invD(12) [OF assms])
    show "set (asking k) \<subseteq> set (if kv_running k then active k @ [?n] else active k)"
      using kv_invD(13) [OF assms] by auto
    show "if kv_running k
        then kv_stopCh k = Open \<and>
          snd ` insert (pre, ?n) (set (watchers k)) \<subseteq> set (if kv_running k then active k @ [?n] else active k)
        else snd ` insert (pre, ?n) (set (watchers k)) \<inter> set (if kv_running k then active k @ [?n] else active k) = {}"
    proof (cases "kv_running k")
      case True
      with kv_invD(8,9) [OF assms this] show ?thesis by (simp add: subset_insertI2)
    next
      case False
      with kv_invD(10) [OF assms this] new(2) show ?thesis by simp
    qed
  qed
qed

lemma kv_inv_load1: "kv_inv k \<Longrightarrow> kv_inv (load_prefix qs w k)"
  by (cases w) (auto simp: load_prefix_def intro!: kv_inv_sync kv_inv_index split: option.split)

lemma kv_inv_load: "kv_inv k \<Longrightarrow> kv_inv (fold (load_prefix qs) ws k)"
  by (induction ws arbitrary: k) (simp_all add: kv_inv_load1)

lemma load_frame [simp]:
  "watchers (fold (load_prefix qs) ws k) = watchers k" "active (fold (load_prefix qs) ws k) = active k"
  "asking (fold (load_prefix qs) ws k) = asking k"
  "kv_running (fold (load_prefix qs) ws k) = kv_running k" "kv_stopCh (fold (load_prefix qs) ws k) = kv_stopCh k"
  by (induction ws arbitrary: k) (auto simp: load_prefix_def split: option.split prod.split)

lemma close_watcher_open:
  "w_stopCh (wheap k i) = Open \<Longrightarrow> close_watcher i k = Ok (set_watcher i (\<lambda>w. w\<lparr>w_stopCh := Closed\<rparr>) k)"
  by (simp add: close_watcher_def close_stop_def)

lemma remove_watcher_ok:
  assumes "kv_inv k"
  shows "\<exists>k'. RemoveWatcher pre k = Ok k' \<and> kv_inv k'"
proof (cases "mget (watchers k) pre")
  case None
  with assms show ?thesis by (simp add: RemoveWatcher_def)
next
  case (Some i)
  have p: "(pre, i) \<in> set (watchers k)"
    using Some gm.in_entries [OF kv_invD(1) [OF assms]] by simp
  then have o: "w_stopCh (wheap k i) = Open" using kv_invD(11) [OF assms p] by simp
  let ?k = "(set_watcher i (\<lambda>w. w\<lparr>w_stopCh := Closed\<rparr>) k)\<lparr>watchers := mdel pre (watchers k)\<rparr>"
  have s: "set (mdel pre (watchers k)) = {p \<in> set (watchers k). fst p \<noteq> pre}"
    by (rule set_mdel [OF kv_invD(1) [OF assms]])
  have n: "snd q \<noteq> i" if "q \<in> set (watchers k)" "fst q \<noteq> pre" for q
  proof
    assume "snd q = i"
    moreover have "inj_on snd (set (watchers k))" using kv_invD(2) [OF assms] by (simp add: distinct_map)
    ultimately have "q = (pre, i)" using that(1) p by (simp add: inj_on_def)
    with that(2) show False by simp
  qed
  have m: "snd q = i" if "q \<in> set (watchers k)" "fst q = pre" for q
    using that Some gm.in_entries [OF kv_invD(1) [OF assms], of pre "snd q"] by (metis option.inject prod.collapse)
  have i: "snd ` {p \<in> set (watchers k). fst p \<noteq> pre} = snd ` set (watchers k) - {i}"
  proof
    show "snd ` {p \<in> set (watchers k). fst p \<noteq> pre} \<subseteq> snd ` set (watchers k) - {i}"
      using n by blast
    show "snd ` set (watchers k) - {i} \<subseteq> snd ` {p \<in> set (watchers k). fst p \<noteq> pre}"
      using m by blast
  qed
  have "kv_inv ?k"
    unfolding kv_inv_def
  proof (intro conjI)
    show "\<forall>p \<in> set (watchers ?k). snd p < nwatchers ?k \<and> w_stopCh (wheap ?k (snd p)) = Open \<and>
        w_Prefix (wheap ?k (snd p)) = fst p"
      using n kv_invD(11) [OF assms] by (simp add: s)
    show "\<forall>j \<in> set (active ?k). j < nwatchers ?k \<and>
        (w_stopCh (wheap ?k j) = Open \<longrightarrow> j \<in> snd ` set (watchers ?k))"
      using kv_invD(6,7) [OF assms] by (simp add: s i)
    show "if kv_running ?k then kv_stopCh ?k = Open \<and> snd ` set (watchers ?k) \<subseteq> set (active ?k)
      else snd ` set (watchers ?k) \<inter> set (active ?k) = {}"
    proof (cases "kv_running k")
      case True
      with kv_invD(8,9) [OF assms this] show ?thesis by (simp add: s i) blast
    next
      case False
      with kv_invD(10) [OF assms this] show ?thesis by (simp add: s i) blast
    qed
  qed (use kv_invD(1-3,12,13) [OF assms] in \<open>simp_all add: distinct_snd_mdel\<close>)
  with o Some show ?thesis by (simp add: RemoveWatcher_def close_watcher_open)
qed

lemma kv_inv_start:
  assumes "kv_inv k" "\<And>m. range_ok rng2 m"
  shows "kv_inv (kv_Start qs rng rng2 k)"
proof (cases "kv_running k")
  case True
  with assms show ?thesis by (simp add: kv_Start_def)
next
  case False
  let ?k = "fold (load_prefix qs) (rng (watchers k)) (k\<lparr>kv_running := True, kv_stopCh := Open\<rparr>)"
  let ?r = "map snd (rng2 (watchers k))"
  have k1: "kv_inv (fold (load_prefix qs) (rng (watchers k)) k)"
    using assms(1) by (rule kv_inv_load)
  have h: "wheap (fold (load_prefix qs) ws (k\<lparr>kv_running := True, kv_stopCh := Open\<rparr>)) = wheap (fold (load_prefix qs) ws k) \<and>
      nwatchers (fold (load_prefix qs) ws (k\<lparr>kv_running := True, kv_stopCh := Open\<rparr>)) = nwatchers (fold (load_prefix qs) ws k)" for ws
  proof (induction ws rule: rev_induct)
    case Nil
    then show ?case by simp
  next
    case (snoc w ws)
    then show ?case by (cases w) (auto simp: load_prefix_def set_watcher_def split: option.split)
  qed
  have r: "set ?r = snd ` set (watchers k)" "distinct ?r"
    using range_ok_set [OF assms(2)] kv_invD(2) [OF assms(1)] assms(2) [of "watchers k"]
    by (simp, metis range_ok_def mset_eq_imp_distinct_iff mset_map)
  show ?thesis
    unfolding kv_inv_def
  proof (intro conjI)
    let ?s = "kv_Start qs rng rng2 k"
    have e: "watchers ?s = watchers k" "active ?s = active k @ ?r" "asking ?s = asking k" "kv_running ?s" "kv_stopCh ?s = Open"
      "wheap ?s = wheap (fold (load_prefix qs) (rng (watchers k)) k)"
      "nwatchers ?s = nwatchers (fold (load_prefix qs) (rng (watchers k)) k)"
      using False by (simp_all add: kv_Start_def Let_def h)
    show "\<forall>p \<in> set (watchers ?s). snd p < nwatchers ?s \<and> w_stopCh (wheap ?s (snd p)) = Open \<and>
        w_Prefix (wheap ?s (snd p)) = fst p"
      using kv_invD(11) [OF k1] by (simp add: e)
    show "\<forall>j \<in> set (active ?s). j < nwatchers ?s \<and> (w_stopCh (wheap ?s j) = Open \<longrightarrow> j \<in> snd ` set (watchers ?s))"
      using kv_invD(4,6,7) [OF k1] r by (auto simp: e)
    show "distinct (active ?s)"
      using kv_invD(3,10) [OF assms(1)] False r by (auto simp: e)
    show "distinct (asking ?s)" "set (asking ?s) \<subseteq> set (active ?s)"
      using kv_invD(12,13) [OF assms(1)] by (auto simp: e)
    show "mwf (watchers ?s)" "distinct (map snd (watchers ?s))"
      using kv_invD(1,2) [OF assms(1)] by (simp_all add: e)
    show "if kv_running ?s then kv_stopCh ?s = Open \<and> snd ` set (watchers ?s) \<subseteq> set (active ?s)
      else snd ` set (watchers ?s) \<inter> set (active ?s) = {}"
      using r by (simp add: e)
  qed
qed

lemma close_watchers_ok:
  assumes "distinct (map snd ws)" "\<forall>w \<in> set ws. w_stopCh (wheap k (snd w)) = Open"
  shows "\<exists>k'. close_watchers ws k = Ok k' \<and> (\<forall>i. w_stopCh (wheap k' i) = (if i \<in> snd ` set ws then Closed else w_stopCh (wheap k i))) \<and>
    active k' = active k \<and> nwatchers k' = nwatchers k \<and> kv_running k' = kv_running k \<and> cache k' = cache k \<and>
    kv_stopCh k' = kv_stopCh k \<and> asking k' = asking k"
  using assms
proof (induction ws arbitrary: k)
  case Nil
  then show ?case by simp
next
  case (Cons w ws)
  obtain pre i where w: "w = (pre, i)" by (cases w)
  let ?k = "set_watcher i (\<lambda>w. w\<lparr>w_stopCh := Closed\<rparr>) k"
  from Cons.prems w have n: "i \<notin> snd ` set ws" and o: "w_stopCh (wheap k i) = Open" by auto
  have "\<forall>w \<in> set ws. w_stopCh (wheap ?k (snd w)) = Open"
    using Cons.prems(2) n by (auto simp: image_iff)
  with Cons.IH [of ?k] Cons.prems(1) w obtain k' where
    k': "close_watchers ws ?k = Ok k'"
    "\<forall>j. w_stopCh (wheap k' j) = (if j \<in> snd ` set ws then Closed else w_stopCh (wheap ?k j))"
    "active k' = active ?k \<and> nwatchers k' = nwatchers ?k \<and> kv_running k' = kv_running ?k \<and> cache k' = cache ?k \<and>
      kv_stopCh k' = kv_stopCh ?k \<and> asking k' = asking ?k" by auto
  then show ?case
    by (intro exI [of _ k']) (auto simp: w close_watcher_open [OF o])
qed

text \<open>What stopping does, on every state that satisfies the invariant.\<close>

lemma kv_stop_ok:
  assumes "kv_inv k" "\<And>m. range_ok rng m"
  shows "\<exists>k'. kv_Stop rng k = Ok k' \<and> kv_inv k' \<and> \<not> kv_running k' \<and> cache k' = cache k \<and>
    active k' = active k \<and> asking k' = asking k \<and>
    (kv_running k \<longrightarrow> watchers k' = [] \<and> (\<forall>i \<in> set (active k'). w_stopCh (wheap k' i) = Closed))"
proof (cases "kv_running k")
  case False
  with assms show ?thesis by (simp add: kv_Stop_def)
next
  case True
  let ?ws = "rng (watchers k)" and ?k = "k\<lparr>kv_running := False, kv_stopCh := Closed\<rparr>"
  have r: "set ?ws = set (watchers k)" "distinct (map snd ?ws)"
    using range_ok_set [OF assms(2)] kv_invD(2) [OF assms(1)] assms(2) [of "watchers k"]
    by (simp, metis range_ok_def mset_eq_imp_distinct_iff mset_map)
  have "\<forall>w \<in> set ?ws. w_stopCh (wheap ?k (snd w)) = Open"
    using r kv_invD(11) [OF assms(1)] by simp
  from close_watchers_ok [OF r(2) this] obtain k' where
    k': "close_watchers ?ws ?k = Ok k'" and
    c': "\<forall>i. w_stopCh (wheap k' i) = (if i \<in> snd ` set ?ws then Closed else w_stopCh (wheap ?k i))" and
    f: "active k' = active ?k \<and> nwatchers k' = nwatchers ?k \<and> kv_running k' = kv_running ?k \<and> cache k' = cache ?k \<and>
      kv_stopCh k' = kv_stopCh ?k \<and> asking k' = asking ?k" by blast
  have c: "\<forall>i \<in> set (active k). w_stopCh (wheap k' i) = Closed"
  proof
    fix i assume i: "i \<in> set (active k)"
    show "w_stopCh (wheap k' i) = Closed"
    proof (cases "i \<in> snd ` set (watchers k)")
      case True
      then show ?thesis using c' r(1) by simp
    next
      case False
      with kv_invD(7) [OF assms(1) i] have "w_stopCh (wheap k i) = Closed"
        by (cases "w_stopCh (wheap k i)") auto
      with False show ?thesis using c' r(1) by simp
    qed
  qed
  have "kv_inv (k'\<lparr>watchers := []\<rparr>)"
    using c f kv_invD(3,6,12,13) [OF assms(1)] by (simp add: kv_inv_def)
  with True k' c f kv_invD(8) [OF assms(1) True] show ?thesis
    by (simp add: kv_Stop_def Let_def close_stop_def)
qed

lemma kv_step_safe:
  assumes "kv_inv k" "kv_allowed op"
  shows "\<exists>k'. kv_step op k = Ok k' \<and> kv_inv k'"
proof (cases op)
  case (OpAdd pre)
  with assms show ?thesis by (simp add: kv_step_def kv_inv_add)
next
  case (OpRemove pre)
  with remove_watcher_ok [OF assms(1)] show ?thesis by (simp add: kv_step_def)
next
  case (OpStart qs rng rng2)
  with assms show ?thesis by (simp add: kv_step_def kv_allowed_def kv_inv_start)
next
  case (OpStop rng)
  with assms kv_stop_ok [OF assms(1), of rng] show ?thesis by (auto simp: kv_step_def kv_allowed_def)
next
  case (OpRound q i)
  with assms show ?thesis by (simp add: kv_step_def kv_inv_round)
qed

interpretation kv: safe_machine kv_step kv_allowed kv_inv
  by unfold_locales (rule kv_step_safe)

lemma kv_inv_new: "NewKVStore dflt ok cfg = Some k \<Longrightarrow> kv_inv k"
  by (auto simp: NewKVStore_def Let_def mput_def kv_inv_def new_watcher_def mwf_def split: if_splits)

text \<open>C17: The life cycle of the store is safe. Starting from a new store, any sequence of adding and
  removing watchers, starting, stopping, restarting and steps of the running goroutines succeeds: no
  channel is closed twice. Afterwards no goroutine runs twice, and one that was not told to stop works
  for a watcher that is registered, under its own prefix.\<close>

theorem kv_lifecycle_safe:
  assumes "NewKVStore dflt client_ok cfg = Some k" "\<forall>op \<in> set ops. kv_allowed op"
  shows "\<exists>k'. run_ops kv_step ops k = Ok k' \<and> distinct (active k') \<and>
    (\<forall>i \<in> set (active k'). w_stopCh (wheap k' i) = Open \<longrightarrow>
       mget (watchers k') (w_Prefix (wheap k' i)) = Some i)"
proof -
  from kv.run_safe [OF kv_inv_new [OF assms(1)] assms(2)] obtain k'
    where k': "run_ops kv_step ops k = Ok k'" "kv_inv k'" by blast
  have "mget (watchers k') (w_Prefix (wheap k' i)) = Some i"
    if i: "i \<in> set (active k')" "w_stopCh (wheap k' i) = Open" for i
  proof -
    from kv_invD(7) [OF k'(2) i] obtain p where p: "p \<in> set (watchers k')" "snd p = i" by auto
    with kv_invD(11) [OF k'(2) p(1)] have "(w_Prefix (wheap k' i), i) \<in> set (watchers k')" by auto
    then show ?thesis by (simp add: gm.in_entries [OF kv_invD(1) [OF k'(2)]])
  qed
  with k' kv_invD(3) [OF k'(2)] show ?thesis by blast
qed

definition dflt_client :: consul_client_config where
  "dflt_client = \<lparr>cc_Address = '''', cc_Scheme = '''', cc_Token = '''', cc_Datacenter = ''''\<rparr>"

definition no_answer :: "string \<Rightarrow> query" where
  "no_answer pre = \<lparr>q_answer = None, q_times = \<lambda>n. 0, q_range = \<lambda>m. m\<rparr>"

theorem kv_lifecycle_safe_witness:
  "\<exists>k k'. NewKVStore dflt_client (\<lambda>c. True) (zero_config\<lparr>ClusterName := ''c''\<rparr>) = Some k \<and>
     run_ops kv_step [OpStart no_answer (\<lambda>m. m) (\<lambda>m. m), OpAdd ''x/'', OpStop (\<lambda>m. m), OpStop (\<lambda>m. m),
       OpStart no_answer (\<lambda>m. m) (\<lambda>m. m), OpRemove ''x/'', OpStop (\<lambda>m. m)] k = Ok k' \<and> distinct (active k')"
proof -
  have r: "\<And>m. range_ok (\<lambda>m. m) m" by (simp add: range_ok_def)
  let ?ops = "[OpStart no_answer (\<lambda>m. m) (\<lambda>m. m), OpAdd ''x/'', OpStop (\<lambda>m. m), OpStop (\<lambda>m. m),
       OpStart no_answer (\<lambda>m. m) (\<lambda>m. m), OpRemove ''x/'', OpStop (\<lambda>m. m)]"
  have a: "\<forall>op \<in> set ?ops. kv_allowed op"
    unfolding kv_allowed_def by (simp, intro conjI allI r)
  obtain k where k: "NewKVStore dflt_client (\<lambda>c. True) (zero_config\<lparr>ClusterName := ''c''\<rparr>) = Some k"
    by (simp add: NewKVStore_def Let_def)
  from kv_lifecycle_safe [OF k a] k show ?thesis by blast
qed

text \<open>
  What the goroutines of a stopped store still do. A step is a goroutine with the answer its query gets
  if it has one out. \<open>late\<close> picks the answers to the queries that are out when the steps begin: the first
  step of each goroutine that is asking. \<open>work_in\<close> is what \<^verbatim>\<open>watchOnce\<close> does with an answer.
\<close>

definition goroutines :: "(nat \<times> query) list \<Rightarrow> kv_op list" where
  "goroutines rs = map (\<lambda>(i, q). OpRound q i) rs"

fun late :: "nat list \<Rightarrow> (nat \<times> query) list \<Rightarrow> (nat \<times> query) list" where
  "late js [] = []"
| "late js ((i, q) # rs) = (if i \<in> set js then (i, q) # late (filter (\<lambda>j. j \<noteq> i) js) rs else late js rs)"

definition work_in :: "(nat \<times> query) list \<Rightarrow> kv_state \<Rightarrow> kv_state" where
  "work_in = fold (\<lambda>(i, q) k. fst (watchOnce q i k))"

text \<open>How many steps a goroutine that was told to stop needs to return.\<close>

definition steps_left :: "kv_state \<Rightarrow> nat \<Rightarrow> nat" where
  "steps_left k i = (if i \<in> set (asking k) then 2 else 1)"

definition still_active :: "(nat \<times> query) list \<Rightarrow> kv_state \<Rightarrow> nat list" where
  "still_active rs k = filter (\<lambda>i. count_list (map fst rs) i < steps_left k i) (active k)"

definition still_asking :: "(nat \<times> query) list \<Rightarrow> kv_state \<Rightarrow> nat list" where
  "still_asking rs k = filter (\<lambda>i. i \<notin> fst ` set rs) (asking k)"

lemma late_append: "late js (rs @ rs') = late js rs @ late (filter (\<lambda>j. j \<notin> fst ` set rs) js) rs'"
proof (induction js rs rule: late.induct)
  case (2 js i q rs)
  have "filter (\<lambda>j. j \<notin> fst ` set ((i, q) # rs)) js = filter (\<lambda>j. j \<notin> fst ` set rs) (filter (\<lambda>j. j \<noteq> i) js)"
    by (auto simp: filter_filter intro: filter_cong)
  moreover have "filter (\<lambda>j. j \<noteq> i) js = js" if "i \<notin> set js" by (rule filter_True) (use that in auto)
  ultimately show ?case using 2 by (auto simp del: filter_filter)
qed simp

lemma late_idle [simp]: "late [] rs = []"
  by (induction rs) auto

lemma late_once: "distinct js \<Longrightarrow> distinct (map fst (late js rs)) \<and> fst ` set (late js rs) \<subseteq> set js"
  by (induction js rs rule: late.induct) auto

lemma watchOnce_frame:
  "fst (watchOnce q i (k\<lparr>active := xs, asking := ys\<rparr>)) = (fst (watchOnce q i k))\<lparr>active := xs, asking := ys\<rparr>"
  "fst (watchOnce q i (k\<lparr>kv_running := b, kv_stopCh := c\<rparr>)) = (fst (watchOnce q i k))\<lparr>kv_running := b, kv_stopCh := c\<rparr>"
  "active (fst (watchOnce q i k)) = active k" "asking (fst (watchOnce q i k)) = asking k"
  "watchers (fst (watchOnce q i k)) = watchers k" "kv_running (fst (watchOnce q i k)) = kv_running k"
  "w_stopCh (wheap (fst (watchOnce q i k)) j) = w_stopCh (wheap k j)"
  by (auto simp: watchOnce_def syncCache_def set_watcher_def split: option.split)

lemma work_in_simps:
  "work_in [] k = k" "work_in ((i, q) # rs) k = work_in rs (fst (watchOnce q i k))"
  "work_in (rs @ rs') k = work_in rs' (work_in rs k)"
  by (simp_all add: work_in_def)

lemma work_in_frame:
  "work_in rs (k\<lparr>active := xs, asking := ys\<rparr>) = (work_in rs k)\<lparr>active := xs, asking := ys\<rparr>"
  "work_in rs (k\<lparr>kv_running := b, kv_stopCh := c\<rparr>) = (work_in rs k)\<lparr>kv_running := b, kv_stopCh := c\<rparr>"
  "active (work_in rs k) = active k" "asking (work_in rs k) = asking k"
  "watchers (work_in rs k) = watchers k" "kv_running (work_in rs k) = kv_running k"
  "w_stopCh (wheap (work_in rs k) j) = w_stopCh (wheap k j)"
  by (induction rs arbitrary: k) (auto simp: work_in_simps watchOnce_frame)

text \<open>The goroutines of a store all of whose channels are closed, whichever steps they take.\<close>

lemma stopped_steps:
  assumes "\<forall>i \<in> set (active k). w_stopCh (wheap k i) = Closed" "set (asking k) \<subseteq> set (active k)"
  shows "run_ops kv_step (goroutines rs) k =
    Ok ((work_in (late (asking k) rs) k)\<lparr>active := still_active rs k, asking := still_asking rs k\<rparr>)"
  using assms
proof (induction rs arbitrary: k)
  case Nil
  have "filter (\<lambda>i. 0 < steps_left k i) (active k) = active k" by (rule filter_True) (simp add: steps_left_def)
  then show ?case by (simp add: goroutines_def work_in_simps still_active_def still_asking_def)
next
  case (Cons r rs)
  obtain i q where r: "r = (i, q)" by (cases r)
  consider (answer) "i \<in> set (asking k)" | (gone) "i \<notin> set (active k)"
    | (return) "i \<in> set (active k)" "i \<notin> set (asking k)" by blast
  then show ?case
  proof cases
    case answer
    let ?k = "(fst (watchOnce q i k))\<lparr>active := active k, asking := filter (\<lambda>j. j \<noteq> i) (asking k)\<rparr>"
    have "kv_step (OpRound q i) k = Ok ?k"
      using answer Cons.prems(2) watchOnce_frame(1) [where q = q and i = i and k = k and xs = "active k" and ys = "filter (\<lambda>j. j \<noteq> i) (asking k)"]
      by (auto simp: kv_step_def watcher_start_def)
    moreover have "run_ops kv_step (goroutines rs) ?k =
        Ok ((work_in (late (asking ?k) rs) ?k)\<lparr>active := still_active rs ?k, asking := still_asking rs ?k\<rparr>)"
      by (rule Cons.IH) (use Cons.prems in \<open>auto simp: watchOnce_frame\<close>)
    moreover have "still_active rs ?k = still_active (r # rs) k"
      using answer by (auto simp: still_active_def steps_left_def r intro!: filter_cong)
    moreover have "still_asking rs ?k = still_asking (r # rs) k"
      by (auto simp: still_asking_def r filter_filter intro: filter_cong)
    ultimately show ?thesis
      using answer by (simp add: goroutines_def r work_in_simps work_in_frame)
  next
    case gone
    then have "i \<notin> set (asking k)" using Cons.prems(2) by blast
    moreover from gone this have "still_active (r # rs) k = still_active rs k" "still_asking (r # rs) k = still_asking rs k"
      by (auto simp: still_active_def still_asking_def r intro!: filter_cong)
    ultimately show ?thesis
      using gone Cons.IH [OF Cons.prems] by (simp add: goroutines_def r kv_step_def)
  next
    case return
    let ?k = "k\<lparr>active := filter (\<lambda>j. j \<noteq> i) (active k)\<rparr>"
    have "kv_step (OpRound q i) k = Ok ?k"
      using return Cons.prems(1) by (simp add: kv_step_def watcher_start_def)
    moreover have "run_ops kv_step (goroutines rs) ?k =
        Ok ((work_in (late (asking ?k) rs) ?k)\<lparr>active := still_active rs ?k, asking := still_asking rs ?k\<rparr>)"
      by (rule Cons.IH) (use Cons.prems return in auto)
    moreover have "work_in xs ?k = (work_in xs k)\<lparr>active := filter (\<lambda>j. j \<noteq> i) (active k)\<rparr>" for xs
      using work_in_frame(1) [where rs = xs and k = k and xs = "filter (\<lambda>j. j \<noteq> i) (active k)" and ys = "asking k"] by (simp add: work_in_frame)
    moreover have "still_active rs ?k = still_active (r # rs) k" "still_asking rs ?k = still_asking (r # rs) k"
      using return by (auto simp: still_active_def still_asking_def steps_left_def r filter_filter intro!: filter_cong)
    ultimately show ?thesis
      using return by (simp add: goroutines_def r)
  qed
qed

text \<open>C18: Stopping the store ends every goroutine. A goroutine that is at the top of its loop returns at its
  next step; one that has a query out first gets its answer and returns at the step after. So when every
  goroutine has gone that far, in whatever order, with whatever answers of Consul and however many
  steps more, none is left. Stopping itself leaves the cache alone, but the queries that were out still
  count: the cache ends as what it was with their answers worked in, one at most for each goroutine, in
  the order they came; it is as it was when none was out.\<close>

theorem stop_ends_goroutines:
  assumes "kv_inv k" "kv_running k" "\<And>m. range_ok rng m" "kv_Stop rng k = Ok k1"
    and "\<forall>i \<in> set (active k). steps_left k i \<le> count_list (map fst rs) i"
  shows "\<exists>k2. run_ops kv_step (goroutines rs) k1 = Ok k2 \<and> active k2 = [] \<and> asking k2 = [] \<and>
    cache k1 = cache k \<and> cache k2 = cache (work_in (late (asking k) rs) k1) \<and>
    distinct (map fst (late (asking k) rs)) \<and> (asking k = [] \<longrightarrow> cache k2 = cache k)"
proof -
  from kv_stop_ok [OF assms(1,3)] assms(2,4) have k1: "kv_inv k1" "cache k1 = cache k" "active k1 = active k"
    "asking k1 = asking k" "\<forall>i \<in> set (active k1). w_stopCh (wheap k1 i) = Closed"
    by auto
  let ?k2 = "(work_in (late (asking k) rs) k1)\<lparr>active := still_active rs k1, asking := still_asking rs k1\<rparr>"
  have "run_ops kv_step (goroutines rs) k1 = Ok ?k2"
    using stopped_steps [OF k1(5) kv_invD(13) [OF k1(1)], of rs] by (simp add: k1(4))
  moreover have "still_active rs k1 = []"
    using assms(5) by (auto simp: still_active_def steps_left_def k1(3,4) filter_empty_conv)
  moreover have "i \<in> fst ` set rs" if "i \<in> set (asking k)" for i
  proof -
    have "steps_left k i \<le> count_list (map fst rs) i" using assms(5) that kv_invD(13) [OF assms(1)] by blast
    then have "count_list (map fst rs) i \<noteq> 0" by (auto simp: steps_left_def split: if_splits)
    then show ?thesis by (simp add: count_list_0_iff)
  qed
  then have "still_asking rs k1 = []" by (auto simp: still_asking_def k1(4) filter_empty_conv)
  ultimately show ?thesis
    using k1(2) late_once [OF kv_invD(12) [OF assms(1)]] by (auto simp: work_in_simps)
qed

text \<open>Goroutine \<open>0\<close> has a query out when the store is stopped: the answer is worked in all the same.\<close>

theorem stop_ends_goroutines_witness:
  "\<exists>k1 k2. kv_Stop (\<lambda>m. m) (kv0\<lparr>kv_running := True, active := [0], asking := [0]\<rparr>) = Ok k1 \<and> cache k1 = [] \<and>
     run_ops kv_step (goroutines [(0, ask 5), (1, ask 9), (0, ask 9)]) k1 = Ok k2 \<and> active k2 = [] \<and>
     mhas (cache k2) ''c/a''"
proof -
  let ?k = "kv0\<lparr>kv_running := True, active := [0], asking := [0]\<rparr>"
  let ?rs = "[(0, ask 5), (1, ask 9), (0, ask 9)]"
  have i: "kv_inv ?k"
    by (simp add: kv_inv_def kv0_def new_watcher_def mwf_def)
  obtain k1 where k1: "kv_Stop (\<lambda>m. m) ?k = Ok k1" "cache k1 = []" "wheap k1 0 = (new_watcher ''c/'')\<lparr>w_stopCh := Closed\<rparr>"
    by (simp add: kv_Stop_def kv0_def new_watcher_def close_stop_def close_watcher_def set_watcher_def Let_def)
  have l: "late (asking ?k) ?rs = [(0, ask 5)]" by simp
  have "mhas (cache (work_in [(0, ask 5)] k1)) ''c/a''"
    using k1(2,3) by (simp add: work_in_simps watchOnce_def ask_def snap_a_def pair_a_def new_watcher_def syncCache_def
        sync_cache_def sync_pair_def set_watcher_def mhas_def mget_def mput_def)
  moreover have "\<exists>k2. run_ops kv_step (goroutines ?rs) k1 = Ok k2 \<and> active k2 = [] \<and> asking k2 = [] \<and>
      cache k1 = cache ?k \<and> cache k2 = cache (work_in (late (asking ?k) ?rs) k1) \<and>
      distinct (map fst (late (asking ?k) ?rs)) \<and> (asking ?k = [] \<longrightarrow> cache k2 = cache ?k)"
    by (rule stop_ends_goroutines [OF i _ _ k1(1)]) (simp_all add: range_ok_def steps_left_def)
  ultimately show ?thesis using k1(1,2) unfolding l by metis
qed

text \<open>C19: A store that was stopped is not brought back by starting it again. Stopping forgets the
  watchers, the default one too; after a restart, whatever the goroutines did in between, the store
  claims to run but watches nothing and has no goroutine it did not have before it was stopped. However
  long those go on before and after the restart, the only thing that still reaches the cache is the
  answers to the queries that were out at the stop; when none was out, the cache stays what it was,
  whatever happens in Consul.\<close>

theorem kv_restart_frozen:
  assumes "kv_inv k" "kv_running k" "\<And>m. range_ok rng m" "\<And>m. range_ok rng2 m"
  shows "\<exists>k1 k2 k3 k4. kv_Stop rng k = Ok k1 \<and> run_ops kv_step (goroutines rs) k1 = Ok k2 \<and>
    kv_Start qs rng rng2 k2 = k3 \<and> kv_running k3 \<and> watchers k3 = [] \<and>
    run_ops kv_step (goroutines rs2) k3 = Ok k4 \<and> watchers k4 = [] \<and> set (active k4) \<subseteq> set (active k) \<and>
    cache k4 = cache (work_in (late (asking k) (rs @ rs2)) k1) \<and> (asking k = [] \<longrightarrow> cache k4 = cache k)"
proof -
  from kv_stop_ok [OF assms(1,3)] assms(2) obtain k1 where k1: "kv_Stop rng k = Ok k1" "kv_inv k1" "\<not> kv_running k1"
    "cache k1 = cache k" "watchers k1 = []" "active k1 = active k" "asking k1 = asking k"
    "\<forall>i \<in> set (active k1). w_stopCh (wheap k1 i) = Closed" by auto
  let ?k2 = "(work_in (late (asking k) rs) k1)\<lparr>active := still_active rs k1, asking := still_asking rs k1\<rparr>"
  let ?k3 = "?k2\<lparr>kv_running := True, kv_stopCh := Open\<rparr>"
  let ?k4 = "(work_in (late (asking ?k3) rs2) ?k3)\<lparr>active := still_active rs2 ?k3, asking := still_asking rs2 ?k3\<rparr>"
  have e: "rng [] = []" "rng2 [] = []"
    using assms(3,4) [of "[]"] by (simp_all add: range_ok_def)
  have "run_ops kv_step (goroutines rs) k1 = Ok ?k2"
    using stopped_steps [OF k1(8) kv_invD(13) [OF k1(2)], of rs] by (simp add: k1(7))
  moreover have "kv_Start qs rng rng2 ?k2 = ?k3"
    using k1(3,5) by (simp add: kv_Start_def e work_in_frame)
  moreover have "run_ops kv_step (goroutines rs2) ?k3 = Ok ?k4"
  proof (rule stopped_steps)
    show "\<forall>i \<in> set (active ?k3). w_stopCh (wheap ?k3 i) = Closed"
      using k1(8) by (auto simp: still_active_def work_in_frame)
    show "set (asking ?k3) \<subseteq> set (active ?k3)"
    proof
      fix i assume "i \<in> set (asking ?k3)"
      then have "i \<in> set (asking k1)" "i \<notin> fst ` set rs" by (simp_all add: still_asking_def)
      then have "i \<in> set (active k1)" "count_list (map fst rs) i = 0"
        using kv_invD(13) [OF k1(2)] by (auto simp: count_list_0_iff)
      then show "i \<in> set (active ?k3)" by (simp add: still_active_def steps_left_def)
    qed
  qed
  moreover have "set (active ?k4) \<subseteq> set (active k)" by (auto simp: still_active_def k1(6))
  moreover have "cache ?k4 = cache (work_in (late (asking k) (rs @ rs2)) k1)"
    by (simp add: late_append work_in_simps work_in_frame still_asking_def k1(7))
  ultimately show ?thesis
    using k1(1,4,5) by (intro exI [of _ k1] exI [of _ ?k2] exI [of _ ?k3] exI [of _ ?k4])
      (auto simp: work_in_frame work_in_simps)
qed

text \<open>The query that was out at the stop is answered after the restart; what Consul has later is not seen.\<close>

theorem kv_restart_frozen_witness:
  "\<exists>k1 k2 k3 k4. kv_Stop (\<lambda>m. m) (kv0\<lparr>kv_running := True, active := [0], asking := [0]\<rparr>) = Ok k1 \<and>
     run_ops kv_step (goroutines []) k1 = Ok k2 \<and>
     kv_Start no_answer (\<lambda>m. m) (\<lambda>m. m) k2 = k3 \<and> kv_running k3 \<and> watchers k3 = [] \<and>
     run_ops kv_step (goroutines [(0, ask 5), (0, ask 9)]) k3 = Ok k4 \<and>
     (\<exists>e. GetEntry ''c/a'' k4 = Some e \<and> e_ModifyIndex e = 5)"
proof -
  let ?k = "kv0\<lparr>kv_running := True, active := [0], asking := [0]\<rparr>"
  have i: "kv_inv ?k"
    by (simp add: kv_inv_def kv0_def new_watcher_def mwf_def)
  have "kv_running ?k" "\<And>m. range_ok (\<lambda>m. m) (m :: (string, nat) gomap)" by (simp_all add: range_ok_def)
  from kv_restart_frozen [OF i this this(2), of "[]" no_answer "[(0, ask 5), (0, ask 9)]"]
  obtain k1 k2 k3 k4 where r: "kv_Stop (\<lambda>m. m) ?k = Ok k1" "run_ops kv_step (goroutines []) k1 = Ok k2"
    "kv_Start no_answer (\<lambda>m. m) (\<lambda>m. m) k2 = k3" "kv_running k3" "watchers k3 = []"
    "run_ops kv_step (goroutines [(0, ask 5), (0, ask 9)]) k3 = Ok k4"
    "cache k4 = cache (work_in (late (asking ?k) ([] @ [(0, ask 5), (0, ask 9)])) k1)"
    by blast
  have "late (asking ?k) ([] @ [(0, ask 5), (0, ask 9)]) = [(0, ask 5)]" by simp
  moreover have "cache k1 = []" "wheap k1 0 = (new_watcher ''c/'')\<lparr>w_stopCh := Closed\<rparr>"
    using r(1) by (auto simp: kv_Stop_def kv0_def new_watcher_def close_stop_def close_watcher_def set_watcher_def Let_def)
  ultimately have "\<exists>e. GetEntry ''c/a'' k4 = Some e \<and> e_ModifyIndex e = 5"
    using r(7) by (simp add: GetEntry_def work_in_simps watchOnce_def ask_def snap_a_def pair_a_def new_watcher_def syncCache_def
        sync_cache_def sync_pair_def set_watcher_def mget_def mput_def)
  with r(1-6) show ?thesis by blast
qed

end
