(* ===== verification/Provider.thy ===== *)
theory Provider
  imports KVStore
begin

text \<open>
  \<^verbatim>\<open>internal/server/consul_provider.go\<close>: service registration, the polled list of cluster members and
  the events about its changes. What Consul answers is an argument of each operation. Errors are a
  datatype; a send on the closed event channel is a panic.
\<close>

section \<open>State\<close>

record MemberInfo =
  mi_NodeName :: string
  mi_Address :: string
  mi_Port :: int
  mi_KindNames :: "string list"
  mi_Alive :: bool
  mi_LastSeen :: int

datatype TopologyEventType = TopologyChanged | TopologyBlocked | TopologyUnblocked

record TopologyEvent =
  te_Type :: TopologyEventType
  te_Members :: "MemberInfo list"

record provider =
  pr_cfg :: ClusterConfig
  pr_members :: "(string, MemberInfo) gomap"
  topologyCh :: "TopologyEvent chan"
  pr_stopCh :: stop_chan
  pr_running :: bool
  pr_watching :: nat \<comment> \<open>how many \<^verbatim>\<open>watchTopology\<close> goroutines were started\<close>

datatype provider_error =
    ClientFailed
  | AlreadyRunning
  | ConsulUnreachable
  | RegisterFailed
  | DeregisterFailed
  | QueryFailed
  | HeartbeatFailed
  | NoSuchNode string

text \<open>\<open>dflt\<close> is \<^verbatim>\<open>DefaultConfig()\<close>, \<open>client_ok\<close> whether \<^verbatim>\<open>NewClient\<close> accepts the configuration.\<close>

definition provider_client_config :: "consul_client_config \<Rightarrow> ClusterConfig \<Rightarrow> consul_client_config" where
  "provider_client_config dflt cfg =
     (let c = dflt\<lparr>cc_Address := Address (Consul cfg)\<rparr>;
          c = c\<lparr>cc_Scheme := Scheme (Consul cfg)\<rparr>
      in if Token (Consul cfg) \<noteq> '''' then c\<lparr>cc_Token := Token (Consul cfg)\<rparr> else c)"

definition NewConsulProvider ::
    "consul_client_config \<Rightarrow> (consul_client_config \<Rightarrow> bool) \<Rightarrow> ClusterConfig \<Rightarrow> provider_error + provider" where
  "NewConsulProvider dflt client_ok cfg =
     (if \<not> client_ok (provider_client_config dflt cfg) then Inl ClientFailed
      else Inr \<lparr>pr_cfg = cfg, pr_members = [], topologyCh = make_chan 10, pr_stopCh = Open, pr_running = False,
        pr_watching = 0\<rparr>)"

definition provider_Start :: "bool \<Rightarrow> provider \<Rightarrow> provider \<times> provider_error option" where
  "provider_Start leader_ok p =
     (if pr_running p then (p, Some AlreadyRunning)
      else if \<not> leader_ok then (p, Some ConsulUnreachable)
      else (p\<lparr>pr_running := True, pr_watching := pr_watching p + 1\<rparr>, None))"

definition provider_Stop :: "provider \<Rightarrow> provider outcome" where
  "provider_Stop p =
     (if \<not> pr_running p then Ok p
      else obind (close_stop (pr_stopCh p)) (\<lambda>ch.
        let p = p\<lparr>pr_stopCh := ch, pr_running := False\<rparr>
        in obind (close_chan (topologyCh p)) (\<lambda>ch. Ok (p\<lparr>topologyCh := ch\<rparr>))))"

section \<open>Registration\<close>

record registration =
  rg_ID :: string
  rg_Name :: string
  rg_Address :: string
  rg_Port :: int
  rg_Tags :: "string list"
  rg_Meta :: "(string, string) gomap"
  rg_TTL :: string
  rg_Deregister :: string

definition service_id :: "provider \<Rightarrow> string \<Rightarrow> string" where
  "service_id p nodeName = ClusterName (pr_cfg p) @ ''-'' @ nodeName"

text \<open>\<^verbatim>\<open>fmt.Sprintf("%v", kindNames)\<close>: the elements between brackets, separated by blanks.\<close>

definition show_strings :: "string list \<Rightarrow> string" where
  "show_strings ss = ''['' @ concat (case ss of [] \<Rightarrow> [] | s # ss \<Rightarrow> s # map (\<lambda>s. '' '' @ s) ss) @ '']''"

definition the_registration :: "provider \<Rightarrow> string \<Rightarrow> string \<Rightarrow> int \<Rightarrow> string list \<Rightarrow> registration" where
  "the_registration p nodeName address port kindNames =
     \<lparr>rg_ID = service_id p nodeName, rg_Name = ClusterName (pr_cfg p), rg_Address = address, rg_Port = port,
      rg_Tags = kindNames,
      rg_Meta = [(''node_name'', nodeName), (''cluster'', ClusterName (pr_cfg p)), (''kinds'', show_strings kindNames)],
      rg_TTL = show_int (i64 (TTLHeartbeatInterval (Consul (pr_cfg p)) * 3)) @ ''s'',
      rg_Deregister = show_int (DeregisterCriticalServiceAfter (Consul (pr_cfg p))) @ ''s''\<rparr>"

text \<open>The Consul agent: its operations on a state \<open>'c\<close>; the flag tells whether the call succeeded.\<close>

record 'c agent =
  ag_register :: "registration \<Rightarrow> 'c \<Rightarrow> 'c \<times> bool"
  ag_deregister :: "string \<Rightarrow> 'c \<Rightarrow> 'c \<times> bool"
  ag_update_ttl :: "string \<Rightarrow> string \<Rightarrow> string \<Rightarrow> 'c \<Rightarrow> 'c \<times> bool" \<comment> \<open>check id, output, status\<close>

definition RegisterService ::
    "'c agent \<Rightarrow> provider \<Rightarrow> string \<Rightarrow> string \<Rightarrow> int \<Rightarrow> string list \<Rightarrow> 'c \<Rightarrow> 'c \<times> provider_error option" where
  "RegisterService ag p nodeName address port kindNames c =
     (let (c, ok) = ag_register ag (the_registration p nodeName address port kindNames) c
      in (c, if ok then None else Some RegisterFailed))"

definition DeregisterService :: "'c agent \<Rightarrow> provider \<Rightarrow> string \<Rightarrow> 'c \<Rightarrow> 'c \<times> provider_error option" where
  "DeregisterService ag p nodeName c =
     (let (c, ok) = ag_deregister ag (service_id p nodeName) c in (c, if ok then None else Some DeregisterFailed))"

definition SendHeartbeat :: "'c agent \<Rightarrow> provider \<Rightarrow> string \<Rightarrow> 'c \<Rightarrow> 'c \<times> provider_error option" where
  "SendHeartbeat ag p nodeName c =
     (let checkID = ''service:'' @ service_id p nodeName;
          (c, ok) = ag_update_ttl ag checkID ''heartbeat ok'' ''passing'' c
      in (c, if ok then None else Some HeartbeatFailed))"

section \<open>Members\<close>

record service =
  sv_Meta :: "(string, string) gomap"
  sv_Address :: string
  sv_Port :: int
  sv_status :: string \<comment> \<open>\<^verbatim>\<open>AggregatedStatus\<close>\<close>

text \<open>\<open>now\<close> are the clock readings; the lookup of a missing key gives the empty string.\<close>

definition GetMembers :: "(nat \<Rightarrow> int) \<Rightarrow> service list option \<Rightarrow> provider_error + MemberInfo list" where
  "GetMembers now answer =
     (case answer of
        None \<Rightarrow> Inl QueryFailed
      | Some services \<Rightarrow>
          Inr (map (\<lambda>(k, svc). \<lparr>mi_NodeName = (case mget (sv_Meta svc) ''node_name'' of None \<Rightarrow> '''' | Some n \<Rightarrow> n),
              mi_Address = sv_Address svc, mi_Port = sv_Port svc, mi_KindNames = [],
              mi_Alive = (sv_status svc = ''passing''), mi_LastSeen = now k\<rparr>)
            (zip [0..<length services] services)))"

text \<open>The first loop: did a member join, or change its health?\<close>

definition member_changed :: "(string, MemberInfo) gomap \<Rightarrow> MemberInfo \<Rightarrow> bool" where
  "member_changed old m =
     (case mget old (mi_NodeName m) of None \<Rightarrow> True | Some o' \<Rightarrow> mi_Alive o' \<noteq> mi_Alive m)"

definition new_members :: "MemberInfo list \<Rightarrow> (string, MemberInfo) gomap" where
  "new_members ms = fold (\<lambda>m. mput (mi_NodeName m) m) ms []"

definition updateTopology :: "(nat \<Rightarrow> int) \<Rightarrow> service list option \<Rightarrow> provider \<Rightarrow> provider outcome" where
  "updateTopology now answer p =
     (case GetMembers now answer of
        Inl e \<Rightarrow> Ok p
      | Inr ms \<Rightarrow>
          (let changed = (list_ex (member_changed (pr_members p)) ms \<or>
                 list_ex (\<lambda>(name, m). name \<notin> mi_NodeName ` set ms) (pr_members p));
               p = p\<lparr>pr_members := new_members ms\<rparr>
           in if \<not> changed then Ok p
              else obind (select_send \<lparr>te_Type = TopologyChanged, te_Members = ms\<rparr> (topologyCh p))
                (\<lambda>r. case r of Sent ch \<Rightarrow> Ok (p\<lparr>topologyCh := ch\<rparr>) | WouldBlock \<Rightarrow> Ok p)))"

text \<open>\<^verbatim>\<open>watchTopology\<close>: what the \<^verbatim>\<open>select\<close> picks, until it returns.\<close>

datatype watch_event = CtxDone | StopClosed | Tick "nat \<Rightarrow> int" "service list option"

fun watchTopology :: "watch_event list \<Rightarrow> provider \<Rightarrow> (provider \<times> bool) outcome" where
  "watchTopology [] p = Ok (p, False)"
| "watchTopology (CtxDone # es) p = Ok (p, True)"
| "watchTopology (StopClosed # es) p = Ok (p, True)"
| "watchTopology (Tick now answer # es) p = obind (updateTopology now answer p) (watchTopology es)"

definition SubscribeTopology :: "provider \<Rightarrow> TopologyEvent chan" where
  "SubscribeTopology p = topologyCh p"

definition GetMemberByName :: "string \<Rightarrow> provider \<Rightarrow> provider_error + MemberInfo" where
  "GetMemberByName nodeName p =
     (case mget (pr_members p) nodeName of None \<Rightarrow> Inl (NoSuchNode nodeName) | Some m \<Rightarrow> Inr m)"

definition MemberCount :: "provider \<Rightarrow> int" where
  "MemberCount p = int (mlen (pr_members p))"

section \<open>Properties\<close>

text \<open>Who is known, and as what.\<close>

definition health_view :: "(string, MemberInfo) gomap \<Rightarrow> string \<Rightarrow> bool option" where
  "health_view m n = map_option mi_Alive (mget m n)"

lemma new_members_fold:
  "distinct (map mi_NodeName ms) \<Longrightarrow>
     mget (fold (\<lambda>m. mput (mi_NodeName m) m) ms acc) = mget acc ++ map_of (map (\<lambda>m. (mi_NodeName m, m)) ms)"
proof (induction ms arbitrary: acc)
  case Nil
  then show ?case by simp
next
  case (Cons m ms)
  then have "map_of (map (\<lambda>m. (mi_NodeName m, m)) ms) (mi_NodeName m) = None"
    by (auto simp: map_of_eq_None_iff)
  moreover from Cons have "mget (fold (\<lambda>m. mput (mi_NodeName m) m) ms (mput (mi_NodeName m) m acc)) =
      (mget acc)(mi_NodeName m \<mapsto> m) ++ map_of (map (\<lambda>m. (mi_NodeName m, m)) ms)" by simp
  ultimately show ?case by (auto simp: fun_eq_iff map_add_def split: option.split)
qed

lemma new_members_get:
  "distinct (map mi_NodeName ms) \<Longrightarrow> mget (new_members ms) n = Some m \<longleftrightarrow> m \<in> set ms \<and> mi_NodeName m = n"
proof -
  assume d: "distinct (map mi_NodeName ms)"
  then have "distinct (map fst (map (\<lambda>m. (mi_NodeName m, m)) ms))" by (simp add: comp_def)
  from map_of_eq_Some_iff [OF this] show ?thesis
    by (auto simp: new_members_def new_members_fold [OF d] mget_def)
qed

lemma new_members_dom: "distinct (map mi_NodeName ms) \<Longrightarrow> dom (mget (new_members ms)) = mi_NodeName ` set ms"
  using new_members_get by (fastforce simp: dom_def)

lemma new_members_wf: "mwf (new_members ms)"
proof -
  have "mwf acc \<Longrightarrow> mwf (fold (\<lambda>m. mput (mi_NodeName m) m) ms acc)" for acc
    by (induction ms arbitrary: acc) auto
  then show ?thesis by (simp add: new_members_def)
qed

lemma changed_view:
  assumes "distinct (map mi_NodeName ms)"
  shows "(list_ex (member_changed old) ms \<or> list_ex (\<lambda>(name, m). name \<notin> mi_NodeName ` set ms) old) \<longleftrightarrow>
    health_view (new_members ms) \<noteq> health_view old"
proof -
  have new: "health_view (new_members ms) (mi_NodeName m) = Some (mi_Alive m)" if "m \<in> set ms" for m
    using that new_members_get [OF assms(1), of "mi_NodeName m" m] by (simp add: health_view_def)
  have none: "health_view (new_members ms) n = None" if "n \<notin> mi_NodeName ` set ms" for n
    using that new_members_dom [OF assms(1)] by (auto simp: health_view_def)
  have ch: "member_changed old m \<longleftrightarrow> Some (mi_Alive m) \<noteq> health_view old (mi_NodeName m)" for m
    by (auto simp: member_changed_def health_view_def split: option.split)
  have 1: "list_ex (member_changed old) ms \<longleftrightarrow>
      (\<exists>n \<in> mi_NodeName ` set ms. health_view (new_members ms) n \<noteq> health_view old n)"
    using new by (auto simp: list_ex_iff ch)
  have d: "n \<in> fst ` set old \<longleftrightarrow> health_view old n \<noteq> None" for n
    using gm.dom_get [of old] by (auto simp: health_view_def)
  have e: "list_ex (\<lambda>(name, m). name \<notin> N) xs \<longleftrightarrow> (\<exists>n \<in> fst ` set xs. n \<notin> N)"
    for N :: "string set" and xs :: "(string \<times> MemberInfo) list"
    by (auto simp: list_ex_iff split_beta)
  have 2: "list_ex (\<lambda>(name, m). name \<notin> mi_NodeName ` set ms) old \<longleftrightarrow>
      (\<exists>n. n \<notin> mi_NodeName ` set ms \<and> health_view (new_members ms) n \<noteq> health_view old n)"
    unfolding e using d none by metis
  show ?thesis unfolding 1 2 fun_eq_iff by blast
qed

text \<open>What a poll has to be told about: somebody reported is not known, or not with this health, or somebody
  known was not reported.\<close>

definition news :: "(string, MemberInfo) gomap \<Rightarrow> MemberInfo list \<Rightarrow> bool" where
  "news old ms \<longleftrightarrow> (\<exists>m \<in> set ms. health_view old (mi_NodeName m) \<noteq> Some (mi_Alive m)) \<or>
     (\<exists>n. health_view old n \<noteq> None \<and> n \<notin> mi_NodeName ` set ms)"

lemma changed_news:
  "(list_ex (member_changed old) ms \<or> list_ex (\<lambda>(name, m). name \<notin> mi_NodeName ` set ms) old) \<longleftrightarrow> news old ms"
proof -
  have ch: "member_changed old m \<longleftrightarrow> health_view old (mi_NodeName m) \<noteq> Some (mi_Alive m)" for m
    by (auto simp: member_changed_def health_view_def split: option.split)
  have d: "n \<in> fst ` set old \<longleftrightarrow> health_view old n \<noteq> None" for n
    using gm.dom_get [of old] by (auto simp: health_view_def)
  have "list_ex (\<lambda>(name, m). name \<notin> mi_NodeName ` set ms) old \<longleftrightarrow> (\<exists>n \<in> fst ` set old. n \<notin> mi_NodeName ` set ms)"
    by (auto simp: list_ex_iff split_beta)
  moreover have "\<dots> \<longleftrightarrow> (\<exists>n. health_view old n \<noteq> None \<and> n \<notin> mi_NodeName ` set ms)"
    unfolding Bex_def d ..
  moreover have "list_ex (member_changed old) ms \<longleftrightarrow> (\<exists>m \<in> set ms. health_view old (mi_NodeName m) \<noteq> Some (mi_Alive m))"
    by (simp add: list_ex_iff ch)
  ultimately show ?thesis unfolding news_def by blast
qed

lemma new_members_last:
  "mget (new_members ms) n = map_of (rev (map (\<lambda>m. (mi_NodeName m, m)) ms)) n"
proof -
  have "mget (fold (\<lambda>m. mput (mi_NodeName m) m) ms acc) n =
      (case map_of (rev (map (\<lambda>m. (mi_NodeName m, m)) ms)) n of None \<Rightarrow> mget acc n | Some m \<Rightarrow> Some m)" for acc
    by (induction ms rule: rev_induct) auto
  then show ?thesis by (simp add: new_members_def mget_def split: option.split)
qed

text \<open>C33: Polling the members. The member list becomes what Consul reported, under the reported names;
  of several reports with one name (a service without the metadata has the empty name) the last
  counts. Subscribers are told, once and with the whole list, exactly when somebody reported was not
  known, or not with this health, or somebody known was not reported; and the event is lost when the
  event channel is full. When no two reports have one name, every reported node is known, they are as
  many as the reports, and the news is exactly that some node appeared, disappeared or changed its
  health.\<close>

theorem topology_events:
  assumes "GetMembers now answer = Inr ms" "\<not> closed (topologyCh p)"
  shows "\<exists>p'. updateTopology now answer p = Ok p' \<and> mwf (pr_members p') \<and>
    (\<forall>n. GetMemberByName n p' = (case map_of (rev (map (\<lambda>m. (mi_NodeName m, m)) ms)) n of
       None \<Rightarrow> Inl (NoSuchNode n) | Some m \<Rightarrow> Inr m)) \<and>
    buf (topologyCh p') = buf (topologyCh p) @
      (if news (pr_members p) ms \<and> length (buf (topologyCh p)) < capacity (topologyCh p)
       then [\<lparr>te_Type = TopologyChanged, te_Members = ms\<rparr>] else []) \<and>
    (distinct (map mi_NodeName ms) \<longrightarrow>
       (\<forall>m \<in> set ms. GetMemberByName (mi_NodeName m) p' = Inr m) \<and> MemberCount p' = int (length ms) \<and>
       (news (pr_members p) ms \<longleftrightarrow> health_view (pr_members p') \<noteq> health_view (pr_members p)))"
proof -
  let ?p = "p\<lparr>pr_members := new_members ms\<rparr>"
  let ?q = "if news (pr_members p) ms \<and> length (buf (topologyCh p)) < capacity (topologyCh p)
    then ?p\<lparr>topologyCh := (topologyCh p)\<lparr>buf := buf (topologyCh p) @ [\<lparr>te_Type = TopologyChanged, te_Members = ms\<rparr>]\<rparr>\<rparr>
    else ?p"
  have u: "updateTopology now answer p = Ok ?q"
    using assms changed_news [of "pr_members p" ms] by (simp add: updateTopology_def Let_def select_send_def)
  have d: "(\<forall>m \<in> set ms. GetMemberByName (mi_NodeName m) ?q = Inr m) \<and> MemberCount ?q = int (length ms) \<and>
      (news (pr_members p) ms \<longleftrightarrow> health_view (pr_members ?q) \<noteq> health_view (pr_members p))"
    if di: "distinct (map mi_NodeName ms)"
  proof -
    have "mlen (new_members ms) = length ms"
      using di by (metis distinct_card length_map list.set_map mlen_card new_members_dom new_members_wf)
    moreover have "mget (new_members ms) (mi_NodeName m) = Some m" if "m \<in> set ms" for m
      using that new_members_get [OF di] by simp
    ultimately show ?thesis
      using changed_view [OF di, of "pr_members p"] changed_news [of "pr_members p" ms]
      by (simp add: GetMemberByName_def MemberCount_def)
  qed
  show ?thesis
    by (intro exI [of _ ?q] conjI u impI d)
      (simp_all add: new_members_wf GetMemberByName_def new_members_last)
qed

definition one_node :: "string \<Rightarrow> service list option" where
  "one_node status = Some [\<lparr>sv_Meta = [(''node_name'', ''n1'')], sv_Address = ''10.0.0.1'', sv_Port = 8080, sv_status = status\<rparr>]"

theorem topology_events_witness:
  "\<exists>p'. updateTopology (\<lambda>k. 0) (one_node ''passing'')
       \<lparr>pr_cfg = zero_config, pr_members = [], topologyCh = make_chan 10, pr_stopCh = Open, pr_running = True, pr_watching = 1\<rparr> = Ok p' \<and>
     MemberCount p' = 1 \<and> length (buf (topologyCh p')) = 1"
proof -
  let ?p = "\<lparr>pr_cfg = zero_config, pr_members = [], topologyCh = make_chan 10, pr_stopCh = Open, pr_running = True, pr_watching = 1\<rparr>"
  let ?m = "\<lparr>mi_NodeName = ''n1'', mi_Address = ''10.0.0.1'', mi_Port = 8080, mi_KindNames = [], mi_Alive = True, mi_LastSeen = 0\<rparr>"
  have g: "GetMembers (\<lambda>k. 0) (one_node ''passing'') = Inr [?m]"
    by (simp add: GetMembers_def one_node_def mget_def)
  from topology_events [OF g, of ?p] obtain p' where p': "updateTopology (\<lambda>k. 0) (one_node ''passing'') ?p = Ok p'"
    "MemberCount p' = 1" "buf (topologyCh p') = (if news [] [?m] then [\<lparr>te_Type = TopologyChanged, te_Members = [?m]\<rparr>] else [])"
    by (auto simp: make_chan_def)
  have "news [] [?m]" by (simp add: news_def health_view_def mget_def)
  with p' show ?thesis by auto
qed

end
