(* ===== verification/Server.thy ===== *)
theory Server
  imports KVProps Provider GlobalRpc
begin

text \<open>
  \<^verbatim>\<open>internal/server/server.go\<close>: the server that owns the cluster member, the key-value store and the HTTP
  server. Starting and shutting down the cluster member and the HTTP server are library calls; the
  state keeps whether the member is up and what the HTTP server is doing. Starting the member panics
  when its provider fails; how the call ends is an argument. The HTTP server listens in a goroutine of
  its own, whose steps are \<open>http_step\<close>. The properties compare what repeated starting and stopping
  does to the three components with a life cycle.
\<close>

text \<open>What has become of an HTTP server: its goroutine has not listened yet, it serves, it could not listen or
  failed while serving (which is only logged), or it was shut down.\<close>

datatype http_state = Starting | Serving | ListenFailed | Shut

record server =
  sv_cfg :: ClusterConfig
  cluster_up :: bool
  sv_kv :: kv_state
  httpServer :: "(string \<times> http_state) option" \<comment> \<open>its address, and its state\<close>
  sv_stopCh :: stop_chan
  sv_running :: bool

datatype server_error = ProviderFailed | KVStoreFailed | ServerRunning

definition NewServer ::
    "bool \<Rightarrow> consul_client_config \<Rightarrow> (consul_client_config \<Rightarrow> bool) \<Rightarrow> ClusterConfig \<Rightarrow> server_error + server" where
  "NewServer provider_ok dflt client_ok cfg =
     (if \<not> provider_ok then Inl ProviderFailed
      else case NewKVStore dflt client_ok cfg of
        None \<Rightarrow> Inl KVStoreFailed
      | Some kv \<Rightarrow> Inr \<lparr>sv_cfg = cfg, cluster_up = False, sv_kv = kv, httpServer = None, sv_stopCh = Open,
          sv_running = False\<rparr>)"

text \<open>\<open>member\<close> is the panic that \<^verbatim>\<open>StartMember\<close> ends with, if it does; the lock is released then.\<close>

definition Start ::
    "(string \<Rightarrow> query) \<Rightarrow> (string, nat) ranger \<Rightarrow> (string, nat) ranger \<Rightarrow> panic option \<Rightarrow> server \<Rightarrow>
       (server \<times> server_error option) outcome" where
  "Start qs rng rng2 member s =
     (if sv_running s then Ok (s, Some ServerRunning)
      else case member of
        Some p \<Rightarrow> Panic p
      | None \<Rightarrow>
          (let s = s\<lparr>cluster_up := True\<rparr>;
               s = s\<lparr>sv_kv := kv_Start qs rng rng2 (sv_kv s)\<rparr>
           in Ok (s\<lparr>sv_running := True\<rparr>, None)))"

definition Stop :: "(string, nat) ranger \<Rightarrow> server \<Rightarrow> server outcome" where
  "Stop rng s =
     (if \<not> sv_running s then Ok s
      else obind (kv_Stop rng (sv_kv s)) (\<lambda>kv.
        let s = s\<lparr>sv_kv := kv\<rparr>;
            s = (case httpServer s of None \<Rightarrow> s | Some (addr, _) \<Rightarrow> s\<lparr>httpServer := Some (addr, Shut)\<rparr>);
            s = s\<lparr>cluster_up := False\<rparr>
        in obind (close_stop (sv_stopCh s)) (\<lambda>ch. Ok (s\<lparr>sv_stopCh := ch, sv_running := False\<rparr>))))"

definition StartHTTPServer :: "string \<Rightarrow> server \<Rightarrow> server" where
  "StartHTTPServer addr s = s\<lparr>httpServer := Some (addr, Starting)\<rparr>"

text \<open>The goroutine of the HTTP server: \<^verbatim>\<open>ListenAndServe\<close> gets its port or not, and may fail later; the error
  is logged. Once it was shut down it returns at once.\<close>

definition http_step :: "bool \<Rightarrow> server \<Rightarrow> server" where
  "http_step ok s =
     (case httpServer s of
        Some (addr, Starting) \<Rightarrow> s\<lparr>httpServer := Some (addr, if ok then Serving else ListenFailed)\<rparr>
      | Some (addr, Serving) \<Rightarrow> if ok then s else s\<lparr>httpServer := Some (addr, ListenFailed)\<rparr>
      | _ \<Rightarrow> s)"

definition IsRunning :: "server \<Rightarrow> bool" where
  "IsRunning s = sv_running s"

definition GetConfig :: "server \<Rightarrow> ClusterConfig" where
  "GetConfig s = sv_cfg s"

definition GetKVStore :: "server \<Rightarrow> kv_state" where
  "GetKVStore s = sv_kv s"

definition server_GetNodeName :: "server \<Rightarrow> string" where
  "server_GetNodeName s = NodeName (sv_cfg s)"

definition GetLocalGrainInstances :: "(string, GrainInstance) ranger \<Rightarrow> node \<Rightarrow> GrainInstance list" where
  "GetLocalGrainInstances rng w = GetInstances rng (grainReg w)"

section \<open>Properties\<close>

text \<open>Which states a server can be in: the store runs when the server does, and the stop channel is closed
  from the first stop on.\<close>

definition server_inv :: "server \<Rightarrow> bool" where
  "server_inv s \<longleftrightarrow> kv_inv (sv_kv s) \<and> kv_running (sv_kv s) = sv_running s"

definition ranges_ok :: "(string, nat) ranger \<Rightarrow> bool" where
  "ranges_ok rng \<longleftrightarrow> (\<forall>m. range_ok rng m)"

lemma kv_new_idle: "NewKVStore dflt ok cfg = Some k \<Longrightarrow> \<not> kv_running k"
  by (auto simp: NewKVStore_def Let_def split: if_splits)

text \<open>A start of a server that is not running, when \<^verbatim>\<open>StartMember\<close> returns.\<close>

definition started :: "(string \<Rightarrow> query) \<Rightarrow> (string, nat) ranger \<Rightarrow> (string, nat) ranger \<Rightarrow> server \<Rightarrow> server" where
  "started qs rng rng2 s = s\<lparr>cluster_up := True, sv_kv := kv_Start qs rng rng2 (sv_kv s), sv_running := True\<rparr>"

lemma Start_idle:
  "\<not> sv_running s \<Longrightarrow> Start qs rng rng2 None s = Ok (started qs rng rng2 s, None)"
  "\<not> sv_running s \<Longrightarrow> Start qs rng rng2 (Some p) s = Panic p"
  by (simp_all add: Start_def started_def Let_def)

lemma start_inv:
  assumes "server_inv s" "ranges_ok rng2"
  shows "server_inv (started qs rng rng2 s)" "sv_running (started qs rng rng2 s)"
    "sv_stopCh (started qs rng rng2 s) = sv_stopCh s" "httpServer (started qs rng rng2 s) = httpServer s"
  using assms by (auto simp: started_def server_inv_def ranges_ok_def kv_Start_def Let_def
      dest: kv_inv_start [of "sv_kv s" rng2 qs rng])

lemma stop_first:
  assumes "server_inv s" "sv_running s" "sv_stopCh s = Open" "ranges_ok rng"
  shows "\<exists>s'. Stop rng s = Ok s' \<and> server_inv s' \<and> \<not> sv_running s' \<and> sv_stopCh s' = Closed \<and> \<not> cluster_up s' \<and>
    httpServer s' = map_option (\<lambda>(addr, _). (addr, Shut)) (httpServer s) \<and>
    (\<forall>i \<in> set (active (sv_kv s')). w_stopCh (wheap (sv_kv s') i) = Closed)"
proof -
  from kv_stop_ok [of "sv_kv s" rng] assms obtain kv where
    "kv_Stop rng (sv_kv s) = Ok kv" "kv_inv kv" "\<not> kv_running kv" "\<forall>i \<in> set (active kv). w_stopCh (wheap kv i) = Closed"
    by (auto simp: server_inv_def ranges_ok_def)
  with assms show ?thesis by (auto simp: Stop_def Let_def close_stop_def server_inv_def split: option.split)
qed

lemma stop_again:
  assumes "server_inv s" "sv_running s" "sv_stopCh s = Closed" "ranges_ok rng"
  shows "Stop rng s = Panic ClosedChannel"
proof -
  from kv_stop_ok [of "sv_kv s" rng] assms obtain kv where "kv_Stop rng (sv_kv s) = Ok kv"
    by (auto simp: server_inv_def ranges_ok_def)
  with assms show ?thesis by (simp add: Stop_def Let_def close_stop_def split: option.split)
qed

text \<open>C34: A server stops once. From a new server, starting and stopping works (when the library's calls that
  start and stop the cluster member return): it runs after the start, and after the stop neither it nor its cluster member nor its store runs, and stopping again changes
  nothing. But a server that was started again cannot be stopped: the stop panics on the channel the
  first stop closed. The same holds for the Consul provider, which moreover never gets its channels
  back when it is started again.\<close>

theorem server_stops_once:
  assumes "NewServer pok dflt cok cfg = Inr s0" "ranges_ok rng" "ranges_ok rng2"
    and "NewConsulProvider dflt client_ok cfg = Inr p0"
  shows "(\<exists>s1 s2 s3. Start qs rng rng2 None s0 = Ok (s1, None) \<and> IsRunning s1 \<and> Stop rng s1 = Ok s2 \<and> \<not> IsRunning s2 \<and>
      \<not> cluster_up s2 \<and> \<not> kv_running (GetKVStore s2) \<and> Stop rng s2 = Ok s2 \<and>
      Start qs rng rng2 None s2 = Ok (s3, None) \<and> Stop rng s3 = Panic ClosedChannel) \<and>
    (\<exists>p1 p2 p3. provider_Start True p0 = (p1, None) \<and> provider_Stop p1 = Ok p2 \<and> provider_Stop p2 = Ok p2 \<and>
      provider_Start True p2 = (p3, None) \<and> pr_stopCh p3 = Closed \<and> closed (topologyCh p3) \<and>
      provider_Stop p3 = Panic ClosedChannel)"
proof (intro conjI)
  have i: "server_inv s0" "\<not> sv_running s0" "sv_stopCh s0 = Open"
    using assms(1) kv_inv_new kv_new_idle
    by (auto simp: NewServer_def server_inv_def split: if_splits option.splits)
  let ?s1 = "started qs rng rng2 s0"
  note s1 = start_inv [OF i(1) assms(3), of qs rng]
  from stop_first [OF s1(1,2) _ assms(2)] s1(3) i(3) obtain s2 where
    s2: "Stop rng ?s1 = Ok s2" "server_inv s2" "\<not> sv_running s2" "sv_stopCh s2 = Closed" "\<not> cluster_up s2" by auto
  let ?s3 = "started qs rng rng2 s2"
  note s3 = start_inv [OF s2(2) assms(3), of qs rng]
  have "Stop rng ?s3 = Panic ClosedChannel"
    by (rule stop_again [OF s3(1,2) _ assms(2)]) (simp add: s3(3) s2(4))
  moreover have "Start qs rng rng2 None s0 = Ok (?s1, None)" "Start qs rng rng2 None s2 = Ok (?s3, None)" "Stop rng s2 = Ok s2"
    using i(2) s2(3) by (simp_all add: Start_idle Stop_def)
  ultimately show "\<exists>s1 s2 s3. Start qs rng rng2 None s0 = Ok (s1, None) \<and> IsRunning s1 \<and> Stop rng s1 = Ok s2 \<and> \<not> IsRunning s2 \<and>
      \<not> cluster_up s2 \<and> \<not> kv_running (GetKVStore s2) \<and> Stop rng s2 = Ok s2 \<and>
      Start qs rng rng2 None s2 = Ok (s3, None) \<and> Stop rng s3 = Panic ClosedChannel"
    using s1(2) s2 by (auto simp: IsRunning_def GetKVStore_def server_inv_def)
  show "\<exists>p1 p2 p3. provider_Start True p0 = (p1, None) \<and> provider_Stop p1 = Ok p2 \<and> provider_Stop p2 = Ok p2 \<and>
      provider_Start True p2 = (p3, None) \<and> pr_stopCh p3 = Closed \<and> closed (topologyCh p3) \<and>
      provider_Stop p3 = Panic ClosedChannel"
    using assms(4) by (auto simp: NewConsulProvider_def provider_Start_def provider_Stop_def make_chan_def
        close_stop_def close_chan_def Let_def split: if_splits)
qed

theorem server_stops_once_witness:
  "\<exists>s0 s1 s2. NewServer True dflt_client (\<lambda>c. True) zero_config = Inr s0 \<and>
     Start no_answer (\<lambda>m. m) (\<lambda>m. m) None s0 = Ok (s1, None) \<and> Stop (\<lambda>m. m) s1 = Ok s2 \<and> \<not> IsRunning s2"
proof -
  obtain s0 where s: "NewServer True dflt_client (\<lambda>c. True) zero_config = Inr s0"
    by (simp add: NewServer_def NewKVStore_def Let_def)
  obtain p0 where p: "NewConsulProvider dflt_client (\<lambda>_. True) zero_config = Inr p0" by (simp add: NewConsulProvider_def)
  have r: "ranges_ok (\<lambda>m. m)" by (simp add: ranges_ok_def range_ok_def)
  from server_stops_once [OF s r r p, of no_answer] s show ?thesis by blast
qed

end
