(* ===== verification/HttpApi.thy ===== *)
theory HttpApi
  imports Server Texts
begin

text \<open>
  The HTTP API: \<^verbatim>\<open>internal/api/handlers.go\<close>, \<^verbatim>\<open>cluster_handlers.go\<close>, \<^verbatim>\<open>actor_handlers.go\<close> and
  \<^verbatim>\<open>kvstore_handlers.go\<close>, the dependencies \<^verbatim>\<open>router.go\<close> keeps, and the functions \<^verbatim>\<open>main.go\<close> hands it. A
  handler gives the status and the JSON document it writes (\<open>hval\<close>; \<^verbatim>\<open>gin.H\<close> is \<open>HObj\<close>). Requests to
  other nodes, their decoding, the clock and time formatting are arguments.
\<close>

section \<open>Responses\<close>

record ActorInstanceInfo =
  ai_KindName :: string
  ai_Identity :: string
  ai_NodeName :: string
  ai_NodeAddress :: string

datatype hval =
    HInt int
  | HStr string
  | HBool bool
  | HObj "(string \<times> hval) list"
  | HList "hval list"
  | HMembers "MemberInfo list"
  | HInstances "ActorInstanceInfo list"

type_synonym http_response = "int \<times> hval"

text \<open>The router's dependencies; \<open>None\<close> is a nil pointer or function. Members or the error's text.\<close>

record router =
  rt_cfg :: ClusterConfig
  rt_nodeName :: string
  rt_kvStore :: "kv_state option"
  rt_getMembers :: "string + MemberInfo list"
  rt_memberCount :: int
  rt_isRunning :: bool
  rt_getLocalInstances :: "GrainInstance list option"
  rt_getKindNames :: "string list option"

definition failure :: "string \<Rightarrow> hval" where
  "failure m = HObj [(''code'', HInt (-1)), (''message'', HStr m)]"

definition healthCheck :: "router \<Rightarrow> http_response" where
  "healthCheck r =
     (if \<not> rt_isRunning r
      then (503, HObj [(''status'', HStr ''unhealthy''), (''node_name'', HStr (NodeName (rt_cfg r)))])
      else (200, HObj [(''status'', HStr ''healthy''), (''node_name'', HStr (NodeName (rt_cfg r)))]))"

section \<open>Cluster\<close>

definition getClusterInfo :: "string \<Rightarrow> router \<Rightarrow> http_response" where
  "getClusterInfo now r =
     (200, HObj [(''code'', HInt 0), (''data'', HObj
       [(''cluster_name'', HStr (ClusterName (rt_cfg r))), (''node_name'', HStr (NodeName (rt_cfg r))),
        (''node_address'', HStr (Host (rt_cfg r))), (''member_count'', HInt (rt_memberCount r)),
        (''is_running'', HBool (rt_isRunning r)), (''start_time'', HStr now)])])"

definition getClusterMembers :: "router \<Rightarrow> http_response" where
  "getClusterMembers r =
     (case rt_getMembers r of
        Inl err \<Rightarrow> (500, failure (t_members_failed @ err))
      | Inr ms \<Rightarrow> (200, HObj [(''code'', HInt 0), (''count'', HInt (int (length ms))), (''data'', HMembers ms)]))"

definition cluster_status :: "MemberInfo list \<Rightarrow> string" where
  "cluster_status ms =
     (let aliveCount = length (filter mi_Alive ms)
      in if aliveCount = 0 then ''unhealthy''
         else if aliveCount < length ms then ''degraded'' else ''healthy'')"

definition getClusterStatus :: "string \<Rightarrow> router \<Rightarrow> http_response" where
  "getClusterStatus now r =
     (case rt_getMembers r of
        Inl err \<Rightarrow> (500, failure (t_status_failed @ err))
      | Inr ms \<Rightarrow> (200, HObj [(''code'', HInt 0), (''data'', HObj
          [(''status'', HStr (cluster_status ms)), (''member_count'', HInt (int (length ms))),
           (''members'', HMembers ms), (''timestamp'', HStr now)])]))"

section \<open>Actors\<close>

text \<open>\<^verbatim>\<open>strings.LastIndex(s, ":")\<close>, as the text before and after; \<open>None\<close> for -1.\<close>

definition split_last_colon :: "string \<Rightarrow> (string \<times> string) option" where
  "split_last_colon s =
     (if CHR '':'' \<in> set s
      then (let after = rev (takeWhile (\<lambda>c. c \<noteq> CHR '':'') (rev s))
            in Some (take (length s - length after - 1) s, after))
      else None)"

definition grpcToHTTPAddress :: "string \<Rightarrow> string" where
  "grpcToHTTPAddress grpcAddr =
     (case split_last_colon grpcAddr of
        None \<Rightarrow> grpcAddr @ '':8180''
      | Some (host, grpcPortStr) \<Rightarrow>
          (let grpcPort = (case sscanf_d grpcPortStr of None \<Rightarrow> 0 | Some p \<Rightarrow> p)
           in if grpcPort = 0 then grpcAddr @ '':8180''
              else host @ '':'' @ show_int (i64 (grpcPort + 100))))"

text \<open>What a GET of another node gives, and what its body decodes to: code, count, data.\<close>

record 'b fetch_env =
  http_get :: "string \<Rightarrow> (int \<times> 'b option) option" \<comment> \<open>status, body (\<open>None\<close>: it cannot be read)\<close>
  parse_instances :: "'b \<Rightarrow> (int \<times> int \<times> ActorInstanceInfo list) option"

datatype fetch_error = GetFailed | BadStatus int | BodyFailed | DecodeFailed | NodeError

definition fetchNodeInstances :: "'b fetch_env \<Rightarrow> string \<Rightarrow> string \<Rightarrow> fetch_error + ActorInstanceInfo list" where
  "fetchNodeInstances e nodeAddress nodeName =
     (let httpAddress = grpcToHTTPAddress nodeAddress;
          apiURL = ''http://'' @ httpAddress @ ''/api/actor/local-instances''
      in case http_get e apiURL of
           None \<Rightarrow> Inl GetFailed
         | Some (status, body) \<Rightarrow>
             if status \<noteq> 200 then Inl (BadStatus status)
             else (case body of
                 None \<Rightarrow> Inl BodyFailed
               | Some b \<Rightarrow> (case parse_instances e b of
                     None \<Rightarrow> Inl DecodeFailed
                   | Some (code, cnt, data) \<Rightarrow>
                       if code \<noteq> 0 then Inl NodeError
                       else Inr (map (\<lambda>i. i\<lparr>ai_NodeName := nodeName\<rparr>) data))))"

fun collect_instances :: "'b fetch_env \<Rightarrow> MemberInfo list \<Rightarrow> ActorInstanceInfo list" where
  "collect_instances e [] = []"
| "collect_instances e (m # ms) =
     (case fetchNodeInstances e (mi_Address m) (mi_NodeName m) of
        Inl err \<Rightarrow> collect_instances e ms
      | Inr is \<Rightarrow> is @ collect_instances e ms)"

definition getActorInstances :: "'b fetch_env \<Rightarrow> router \<Rightarrow> http_response" where
  "getActorInstances e r =
     (case rt_getMembers r of
        Inl err \<Rightarrow> (500, failure (t_members_failed @ err))
      | Inr ms \<Rightarrow>
          (let all = collect_instances e ms
           in (200, HObj [(''code'', HInt 0), (''count'', HInt (int (length all))), (''data'', HInstances all)])))"

definition local_instances :: "router \<Rightarrow> GrainInstance list \<Rightarrow> ActorInstanceInfo list" where
  "local_instances r is = map (\<lambda>i. \<lparr>ai_KindName = gi_KindName i, ai_Identity = gi_Identity i,
     ai_NodeName = rt_nodeName r, ai_NodeAddress = Host (rt_cfg r) @ '':'' @ show_int (Port (rt_cfg r))\<rparr>) is"

definition getLocalActorInstances :: "router \<Rightarrow> http_response" where
  "getLocalActorInstances r =
     (case rt_getLocalInstances r of
        None \<Rightarrow> (200, HObj [(''code'', HInt 0), (''count'', HInt 0), (''data'', HInstances [])])
      | Some is \<Rightarrow>
          (200, HObj [(''code'', HInt 0), (''count'', HInt (int (length is))),
             (''data'', HInstances (local_instances r is))]))"

definition getGrainKinds :: "router \<Rightarrow> http_response" where
  "getGrainKinds r =
     (case rt_getKindNames r of
        None \<Rightarrow> (200, HObj [(''code'', HInt 0), (''count'', HInt 0), (''data'', HList [])])
      | Some ks \<Rightarrow>
          (200, HObj [(''code'', HInt 0), (''count'', HInt (int (length ks))),
             (''data'', HList (map (\<lambda>k. HObj [(''kind_name'', HStr k)]) ks))]))"

text \<open>The error's text is the library's or that of \<open>rpc_error\<close>: an argument turns it into words.\<close>

definition GrainCall ::
    "'c cluster \<Rightarrow> string \<Rightarrow> (rpc_error \<Rightarrow> string) \<Rightarrow> (bytes \<Rightarrow> string) \<Rightarrow> string \<Rightarrow> string \<Rightarrow> string \<Rightarrow> 'c \<Rightarrow>
       ('c \<times> http_response) outcome" where
  "GrainCall cl traceId words as_text kindName identity name c =
     (if name = '''' then Ok (c, 400, failure t_name_missing)
      else obind (RequestFuture cl traceId
          (Some \<lparr>Kind = kindName, Identity = identity, TraceID = '''', Name = name, Code = 0, MsgId = 0, Data = None\<rparr>) c)
        (\<lambda>(c, r). case r of
           Inl err \<Rightarrow> Ok (c, 500, failure (words err))
         | Inr resp \<Rightarrow> Ok (c, 200, HObj [(''code'', HInt 0), (''data'', HObj
             [(''kind_name'', HStr kindName), (''identity'', HStr (Identity resp)),
              (''result'', HStr (as_text (case Data resp of None \<Rightarrow> [] | Some b \<Rightarrow> b)))])])))"

section \<open>Key-value store\<close>

definition calculateUsagePercent :: "int \<Rightarrow> int" where
  "calculateUsagePercent keyCount =
     (if keyCount = 0 then 0
      else (let percent = quot (i64 (keyCount * 100)) 10000
            in if percent > 100 then 100 else percent))"

definition entry_json :: "(int \<Rightarrow> string) \<Rightarrow> (bytes \<Rightarrow> string) \<Rightarrow> KVEntry \<Rightarrow> hval" where
  "entry_json rfc3339 as_text e = HObj [(''key'', HStr (e_Key e)), (''value'', HStr (as_text (e_Value e))),
     (''length'', HInt (int (length (e_Value e)))), (''modify_index'', HInt (int (e_ModifyIndex e))),
     (''updated_at'', HStr (rfc3339 (e_UpdatedAt e)))]"

definition latest_update :: "KVEntry list \<Rightarrow> int option" where
  "latest_update es =
     (case es of
        [] \<Rightarrow> None
      | e0 # _ \<Rightarrow> Some (fold (\<lambda>e t. if e_UpdatedAt e > t then e_UpdatedAt e else t) es (e_UpdatedAt e0)))"

definition buildKVStoreStatus ::
    "(int \<Rightarrow> string) \<Rightarrow> (bytes \<Rightarrow> string) \<Rightarrow> KVEntry list \<Rightarrow> int \<Rightarrow> string \<Rightarrow> hval" where
  "buildKVStoreStatus rfc3339 as_text entries keyCount health =
     HObj [(''key_count'', HInt keyCount), (''health'', HStr health),
       (''usage_percent'', HInt (calculateUsagePercent keyCount)),
       (''last_update'', HStr (case latest_update entries of None \<Rightarrow> '''' | Some t \<Rightarrow> rfc3339 t)),
       (''keys'', HList (map (entry_json rfc3339 as_text) entries))]"

definition getKVStoreStatus ::
    "(int \<Rightarrow> string) \<Rightarrow> (bytes \<Rightarrow> string) \<Rightarrow> (string, KVEntry) ranger \<Rightarrow> router \<Rightarrow> http_response" where
  "getKVStoreStatus rfc3339 as_text rng r =
     (case rt_kvStore r of
        None \<Rightarrow> (200, HObj [(''code'', HInt 0),
          (''data'', buildKVStoreStatus rfc3339 as_text [] 0 ''service_unavailable''), (''message'', HStr t_kv_missing)])
      | Some kv \<Rightarrow>
          (let entries = ListFromCache rng '''' kv;
               keyCount = int (length entries);
               health = (if keyCount = 0 then ''warning'' else ''healthy'')
           in (200, HObj [(''code'', HInt 0), (''data'', buildKVStoreStatus rfc3339 as_text entries keyCount health),
                (''count'', HInt keyCount)])))"

definition getKVStoreKey ::
    "(int \<Rightarrow> string) \<Rightarrow> (bytes \<Rightarrow> string) \<Rightarrow> string \<Rightarrow> router \<Rightarrow> http_response" where
  "getKVStoreKey rfc3339 as_text key r =
     (case rt_kvStore r of
        None \<Rightarrow> (200, failure t_kv_missing)
      | Some kv \<Rightarrow>
          if key = '''' then (400, failure t_key_missing)
          else (case GetEntry key kv of
              None \<Rightarrow> (200, failure t_key_absent)
            | Some e \<Rightarrow> (200, HObj [(''code'', HInt 0), (''data'', HObj
                [(''key'', HStr (e_Key e)), (''value'', HStr (as_text (e_Value e))),
                 (''modify_index'', HInt (int (e_ModifyIndex e))), (''created_at'', HStr (rfc3339 (e_CreatedAt e))),
                 (''updated_at'', HStr (rfc3339 (e_UpdatedAt e)))])])))"

definition GetAllKeys ::
    "(int \<Rightarrow> string) \<Rightarrow> (bytes \<Rightarrow> string) \<Rightarrow> (string, KVEntry) ranger \<Rightarrow> router \<Rightarrow> http_response" where
  "GetAllKeys rfc3339 as_text rng r =
     (case rt_kvStore r of
        None \<Rightarrow> (200, failure t_kv_missing)
      | Some kv \<Rightarrow>
          (let entries = ListFromCache rng '''' kv
           in (200, HObj [(''code'', HInt 0), (''data'', HList (map (entry_json rfc3339 as_text) entries)),
                (''count'', HInt (int (length entries)))])))"

section \<open>What main.go hands to the router\<close>

text \<open>A member as the cluster library lists it: id and port.\<close>

definition main_members :: "ClusterConfig \<Rightarrow> (string \<times> int) list \<Rightarrow> string + MemberInfo list" where
  "main_members cfg ms = Inr (map (\<lambda>(i, port). \<lparr>mi_NodeName = i, mi_Address = Host cfg @ '':'' @ show_int port,
     mi_Port = 0, mi_KindNames = [], mi_Alive = True, mi_LastSeen = 0\<rparr>) ms)"

definition main_router ::
    "ClusterConfig \<Rightarrow> (string \<times> int) list \<Rightarrow> server \<Rightarrow> (string, GrainInstance) ranger \<Rightarrow> (string, bool) ranger \<Rightarrow> node \<Rightarrow> router" where
  "main_router cfg ms s rng rngk w =
     \<lparr>rt_cfg = cfg, rt_nodeName = NodeName cfg, rt_kvStore = Some (GetKVStore s), rt_getMembers = main_members cfg ms,
      rt_memberCount = int (length ms), rt_isRunning = IsRunning s,
      rt_getLocalInstances = Some (GetLocalGrainInstances rng w),
      rt_getKindNames = Some (GetKindNames rng rngk (grainReg w))\<rparr>"

definition main_apiAddr :: "ClusterConfig \<Rightarrow> string" where
  "main_apiAddr cfg = Host cfg @ '':'' @ show_int (HealthCheckPort cfg)"

section \<open>Properties\<close>

lemma show_int_no_colon: "CHR '':'' \<notin> set (show_int i)"
proof -
  have "\<not> is_digit (CHR '':'')" by (simp add: is_digit_def)
  with digits_all [of "nat i"] digits_all [of "nat (- i)"] show ?thesis
    by (auto simp: show_int_def list_all_iff)
qed

lemma split_last_colon_port:
  assumes "CHR '':'' \<notin> set port"
  shows "split_last_colon (host @ '':'' @ port) = Some (host, port)"
proof -
  have "takeWhile (\<lambda>c. c \<noteq> CHR '':'') (rev port @ CHR '':'' # rev host) = rev port"
    using assms by (simp add: takeWhile_append2 takeWhile_tail) (metis (mono_tags, lifting) set_rev takeWhile_append2 append_Nil2 takeWhile.simps(1,2))
  then show ?thesis by (simp add: split_last_colon_def)
qed

lemma grpcToHTTPAddress_port:
  assumes "1 \<le> p" "p \<le> 65535"
  shows "grpcToHTTPAddress (host @ '':'' @ show_int p) = host @ '':'' @ show_int (p + 100)"
proof -
  have "sscanf_d (show_int p @ []) = Some p" by (rule sscanf_d_show_int) (use assms in auto)
  with assms show ?thesis
    by (simp add: grpcToHTTPAddress_def split_last_colon_port [OF show_int_no_colon, simplified] i64_id)
qed

lemma address_inj: "h @ '':'' @ show_int p = h' @ '':'' @ show_int p' \<longleftrightarrow> h = h' \<and> p = p'"
proof
  assume e: "h @ '':'' @ show_int p = h' @ '':'' @ show_int p'"
  have "split_last_colon (h @ '':'' @ show_int p) = Some (h, show_int p)"
    "split_last_colon (h' @ '':'' @ show_int p') = Some (h', show_int p')"
    by (rule split_last_colon_port [OF show_int_no_colon])+
  then have "(h, show_int p) = (h', show_int p')" unfolding e by (metis option.inject)
  then show "h = h' \<and> p = p'" by (metis Pair_inject show_int_inj)
qed simp

text \<open>C35: Which HTTP servers the nodes find. A node that lists another member, with the port that one is
  configured with, derives for it the address of its own host and the member's port plus 100. So it
  finds the member's HTTP server exactly when both are configured with the same host and the member's
  health port is its port plus 100, as it is when its configuration file leaves it open; a member on
  another host is never found, whatever its ports.\<close>

theorem peers_find_http:
  assumes "Load e path = Inr c" "read_file e path = Some b" "path \<noteq> ''''"
    and "(if suffix ''.json'' path then parse_json e b else parse_yaml e b) = Some f"
    and "main_members reader ls = Inr ms" "(i, Port c) \<in> set ls"
  shows "\<exists>m \<in> set ms. mi_NodeName m = i \<and>
    grpcToHTTPAddress (mi_Address m) = Host reader @ '':'' @ show_int (Port c + 100) \<and>
    (grpcToHTTPAddress (mi_Address m) = main_apiAddr c \<longleftrightarrow>
       Host reader = Host c \<and> HealthCheckPort c = Port c + 100) \<and>
    (HealthCheckPort f = 0 \<longrightarrow> (grpcToHTTPAddress (mi_Address m) = main_apiAddr c \<longleftrightarrow> Host reader = Host c))"
proof -
  note l = load_facts [OF assms(1-4)]
  have p: "1 \<le> Port c" "Port c \<le> 65535" using l by (simp_all add: config_ok_def)
  let ?m = "\<lparr>mi_NodeName = i, mi_Address = Host reader @ '':'' @ show_int (Port c), mi_Port = 0,
      mi_KindNames = [], mi_Alive = True, mi_LastSeen = 0\<rparr>"
  have "?m \<in> set ms"
    using assms(5,6) by (force simp: main_members_def)
  moreover have "grpcToHTTPAddress (mi_Address ?m) = Host reader @ '':'' @ show_int (Port c + 100)"
    using grpcToHTTPAddress_port [OF p] by simp
  moreover have "HealthCheckPort f = 0 \<Longrightarrow> HealthCheckPort c = Port c + 100" using l by simp
  moreover have "Host reader @ '':'' @ show_int (Port c + 100) = main_apiAddr c \<longleftrightarrow>
      Host reader = Host c \<and> HealthCheckPort c = Port c + 100"
    unfolding main_apiAddr_def address_inj by auto
  ultimately show ?thesis by (intro bexI [of _ ?m]) simp_all
qed

theorem peers_find_http_witness:
  "\<exists>c ms m. Load (sample_load 9090) ''c.yaml'' = Inr c \<and>
     main_members (zero_config\<lparr>Host := ''x'' @ Host c\<rparr>) [(''n1'', Port c)] = Inr ms \<and> m \<in> set ms \<and>
     mi_NodeName m = ''n1'' \<and> grpcToHTTPAddress (mi_Address m) \<noteq> main_apiAddr c"
proof -
  from Load_sample [of 9090] obtain c where c: "Load (sample_load 9090) ''c.yaml'' = Inr c" by auto
  let ?r = "zero_config\<lparr>Host := ''x'' @ Host c\<rparr>"
  obtain ms where m: "main_members ?r [(''n1'', Port c)] = Inr ms" by (simp add: main_members_def)
  have h: "Host ?r \<noteq> Host c" by simp
  have "\<exists>m \<in> set ms. mi_NodeName m = ''n1'' \<and> (grpcToHTTPAddress (mi_Address m) = main_apiAddr c \<longleftrightarrow>
       Host ?r = Host c \<and> HealthCheckPort c = Port c + 100)"
    using peers_find_http [OF c sample_load_file m, of "''n1''"] by (meson list.set_intros(1))
  with h c m show ?thesis by blast
qed

definition entry_a :: KVEntry where
  "entry_a = \<lparr>e_Key = ''a'', e_Value = [1], e_ModifyIndex = 5, e_CreatedAt = 2, e_UpdatedAt = 3\<rparr>"

definition srv0 :: server where
  "srv0 = \<lparr>sv_cfg = zero_config, cluster_up = True, sv_kv = kv0\<lparr>cache := [(''a'', entry_a)]\<rparr>, httpServer = None,
    sv_stopCh = Open, sv_running = True\<rparr>"

text \<open>The status of the cluster is unhealthy when no member is alive, healthy when all of at least one
  are, and degraded otherwise. With the member list \<^verbatim>\<open>main.go\<close> supplies, which calls every member
  alive, degraded is never reported: the answer is healthy unless there is no member at all.\<close>

theorem status_report:
  "cluster_status ms =
     (if \<forall>m \<in> set ms. \<not> mi_Alive m then ''unhealthy''
      else if \<forall>m \<in> set ms. mi_Alive m then ''healthy'' else ''degraded'') \<and>
   (\<exists>rest. getClusterStatus now (main_router cfg ls s rng rngk w) = (200, HObj [(''code'', HInt 0), (''data'', HObj
      ((''status'', HStr (if ls = [] then ''unhealthy'' else ''healthy'')) # rest))]))"
proof
  have len: "length (filter mi_Alive ms) < length ms \<longleftrightarrow> (\<exists>m \<in> set ms. \<not> mi_Alive m)"
    by (metis filter_True length_filter_less less_irrefl)
  then show "cluster_status ms =
     (if \<forall>m \<in> set ms. \<not> mi_Alive m then ''unhealthy''
      else if \<forall>m \<in> set ms. mi_Alive m then ''healthy'' else ''degraded'')"
    by (auto simp: cluster_status_def Let_def filter_empty_conv)
  have "filter mi_Alive (map (\<lambda>(i, port). \<lparr>mi_NodeName = i, mi_Address = Host cfg @ '':'' @ show_int port,
     mi_Port = 0, mi_KindNames = [], mi_Alive = True, mi_LastSeen = 0\<rparr>) ls) = map (\<lambda>(i, port). \<lparr>mi_NodeName = i,
     mi_Address = Host cfg @ '':'' @ show_int port, mi_Port = 0, mi_KindNames = [], mi_Alive = True, mi_LastSeen = 0\<rparr>) ls"
    by (intro filter_True) auto
  then show "\<exists>rest. getClusterStatus now (main_router cfg ls s rng rngk w) = (200, HObj [(''code'', HInt 0), (''data'', HObj
      ((''status'', HStr (if ls = [] then ''unhealthy'' else ''healthy'')) # rest))])"
    by (simp add: getClusterStatus_def main_router_def main_members_def cluster_status_def Let_def del: filter_map)
qed

theorem status_report_witness:
  "cluster_status [\<lparr>mi_NodeName = ''a'', mi_Address = '''', mi_Port = 0, mi_KindNames = [], mi_Alive = True, mi_LastSeen = 0\<rparr>,
     \<lparr>mi_NodeName = ''b'', mi_Address = '''', mi_Port = 0, mi_KindNames = [], mi_Alive = False, mi_LastSeen = 0\<rparr>] = ''degraded''"
  using status_report [of "[\<lparr>mi_NodeName = ''a'', mi_Address = '''', mi_Port = 0, mi_KindNames = [], mi_Alive = True, mi_LastSeen = 0\<rparr>,
     \<lparr>mi_NodeName = ''b'', mi_Address = '''', mi_Port = 0, mi_KindNames = [], mi_Alive = False, mi_LastSeen = 0\<rparr>]"]
  by simp

text \<open>The local instances a node reports are the grains in its registry, each once, with this node's
  name and gRPC address, in whatever order the registry is visited. Distinct instances are distinct
  pairs of kind and identity as long as kinds contain no colon.\<close>

theorem local_instances_report:
  assumes "grain_registry_wf (grainReg w)" "range_ok rng (grainReg w)"
  shows "\<exists>is. getLocalActorInstances (main_router cfg ls s rng rngk w) =
      (200, HObj [(''code'', HInt 0), (''count'', HInt (Count (grainReg w))), (''data'', HInstances is)]) \<and>
    (\<lambda>i. (ai_KindName i, ai_Identity i)) ` set is = {(gi_KindName g, gi_Identity g) |g. \<exists>k. mget (grainReg w) k = Some g} \<and>
    (\<forall>i \<in> set is. ai_NodeName i = NodeName cfg \<and> ai_NodeAddress i = Host cfg @ '':'' @ show_int (Port cfg)) \<and>
    distinct (map (\<lambda>i. registry_key (ai_KindName i) (ai_Identity i)) is)"
proof -
  let ?r = "main_router cfg ls s rng rngk w" and ?gs = "GetInstances rng (grainReg w)"
  have wf: "mwf (grainReg w)" using assms(1) by (rule keyed_by_mwf)
  have g: "set ?gs = {g. \<exists>k. mget (grainReg w) k = Some g}"
    using range_ok_get [OF assms(2) wf] by (force simp: GetInstances_def)
  have "map (\<lambda>i. registry_key (gi_KindName i) (gi_Identity i)) ?gs = map fst (rng (grainReg w))"
    using range_ok_get [OF assms(2) wf] keyed_by_key [OF assms(1)]
    by (auto simp: GetInstances_def instance_key_def)
  then have d: "distinct (map (\<lambda>i. registry_key (ai_KindName i) (ai_Identity i)) (local_instances ?r ?gs))"
    using range_ok_distinct [OF assms(2) wf] by (simp add: local_instances_def comp_def)
  have c: "int (length ?gs) = Count (grainReg w)"
    by (simp add: GetInstances_def Count_def range_ok_length [OF assms(2)])
  show ?thesis
  proof (intro exI conjI)
    show "getLocalActorInstances ?r = (200, HObj [(''code'', HInt 0), (''count'', HInt (Count (grainReg w))),
        (''data'', HInstances (local_instances ?r ?gs))])"
      by (simp add: getLocalActorInstances_def main_router_def GetLocalGrainInstances_def local_instances_def flip: c)
    show "(\<lambda>i. (ai_KindName i, ai_Identity i)) ` set (local_instances ?r ?gs) =
        {(gi_KindName g, gi_Identity g) |g. \<exists>k. mget (grainReg w) k = Some g}"
      unfolding local_instances_def by (auto simp: g image_iff) blast
    show "\<forall>i \<in> set (local_instances ?r ?gs). ai_NodeName i = NodeName cfg \<and>
        ai_NodeAddress i = Host cfg @ '':'' @ show_int (Port cfg)"
      by (auto simp: local_instances_def main_router_def)
    show "distinct (map (\<lambda>i. registry_key (ai_KindName i) (ai_Identity i)) (local_instances ?r ?gs))"
      by (rule d)
  qed
qed

theorem local_instances_report_witness:
  "\<exists>is. getLocalActorInstances (main_router zero_config [] srv0 (\<lambda>m. m) (\<lambda>m. m)
       (new_node\<lparr>grainReg := Register ''chat'' ''lobby'' NewGrainRegistry\<rparr>)) =
     (200, HObj [(''code'', HInt 0), (''count'', HInt 1), (''data'', HInstances is)])"
proof -
  let ?w = "new_node\<lparr>grainReg := Register ''chat'' ''lobby'' NewGrainRegistry\<rparr>"
  have "grain_registry_wf (grainReg ?w)" by (simp add: wf_intros)
  moreover have "range_ok (\<lambda>m. m) (grainReg ?w)" by (simp add: range_ok_def)
  moreover have "Count (grainReg ?w) = 1"
    by (simp add: Count_def mlen_def Register_def NewGrainRegistry_def mput_def)
  ultimately show ?thesis
    using local_instances_report [of ?w "\<lambda>m. m" zero_config "[]" srv0 "\<lambda>m. m"] by auto
qed

lemma usage_percent:
  assumes "0 \<le> n" "n < 2 ^ 56"
  shows "calculateUsagePercent n = min 100 (n div 100)"
proof -
  have "i64 (n * 100) = n * 100" using assms by (intro i64_id) auto
  moreover have "n * 100 div 10000 = n div 100" by simp
  ultimately show ?thesis using assms by (simp add: calculateUsagePercent_def Let_def quot_nonneg min_def)
qed

lemma fold_latest:
  "fold (\<lambda>e t. if e_UpdatedAt e > t then e_UpdatedAt e else t) es t0 = Max (insert t0 (e_UpdatedAt ` set es))"
proof (induction es arbitrary: t0)
  case Nil
  then show ?case by simp
next
  case (Cons e es)
  have "Max (insert (max t0 (e_UpdatedAt e)) (e_UpdatedAt ` set es)) = Max (insert t0 (e_UpdatedAt ` set (e # es)))"
    by (cases "es = []") (simp_all add: Max_insert max.assoc)
  moreover have "(if e_UpdatedAt e > t0 then e_UpdatedAt e else t0) = max t0 (e_UpdatedAt e)" by auto
  ultimately show ?case using Cons by simp
qed

text \<open>The status of the key-value store shows the cache as it is: the count is the size of the cache,
  the health is a warning exactly when it is empty, the usage is the share of 10000 keys in percent,
  rounded down and capped at 100, and the last update is the newest update time of all entries,
  whichever entry is visited first.\<close>

theorem kv_status_report:
  assumes "range_ok rng (cache (GetKVStore s))" "mlen (cache (GetKVStore s)) < 2 ^ 56"
  shows "\<exists>keys last. getKVStoreStatus rfc as_text rng (main_router cfg ls s grng rngk w) =
      (200, HObj [(''code'', HInt 0), (''data'', HObj
        [(''key_count'', HInt (GetCacheSize (GetKVStore s))),
         (''health'', HStr (if cache (GetKVStore s) = [] then ''warning'' else ''healthy'')),
         (''usage_percent'', HInt (min 100 (GetCacheSize (GetKVStore s) div 100))), (''last_update'', HStr last),
         (''keys'', HList keys)]), (''count'', HInt (GetCacheSize (GetKVStore s)))]) \<and>
    mset keys = image_mset (\<lambda>(k, e). entry_json rfc as_text e) (mset (cache (GetKVStore s))) \<and>
    (cache (GetKVStore s) \<noteq> [] \<longrightarrow> last = rfc (Max ((\<lambda>(k, e). e_UpdatedAt e) ` set (cache (GetKVStore s)))))"
proof -
  let ?c = "cache (GetKVStore s)"
  let ?es = "ListFromCache rng '''' (GetKVStore s)"
  have es: "?es = map snd (rng ?c)"
    by (simp add: ListFromCache_def case_prod_unfold)
  have l: "int (length ?es) = GetCacheSize (GetKVStore s)"
    by (simp add: es GetCacheSize_def range_ok_length [OF assms(1)])
  have z: "GetCacheSize (GetKVStore s) = 0 \<longleftrightarrow> ?c = []" by (simp add: GetCacheSize_def mlen_def)
  have u: "calculateUsagePercent (GetCacheSize (GetKVStore s)) = min 100 (GetCacheSize (GetKVStore s) div 100)"
    using assms(2) by (intro usage_percent) (simp_all add: GetCacheSize_def)
  let ?last = "case latest_update ?es of None \<Rightarrow> '''' | Some t \<Rightarrow> rfc t"
  have m: "?last = rfc (Max ((\<lambda>(k, e). e_UpdatedAt e) ` set ?c))" if "?c \<noteq> []"
  proof -
    have "?es \<noteq> []" using that l z by auto
    then obtain e0 es' where c: "?es = e0 # es'" by (cases ?es) auto
    have "e_UpdatedAt ` set ?es = (\<lambda>(k, e). e_UpdatedAt e) ` set ?c"
      by (simp add: es range_ok_set [OF assms(1)] image_image case_prod_unfold)
    moreover have "latest_update ?es = Some (Max (e_UpdatedAt ` set ?es))"
      unfolding latest_update_def c list.case fold_latest by simp
    ultimately show ?thesis by simp
  qed
  have k: "mset (map (entry_json rfc as_text) ?es) = image_mset (\<lambda>(k, e). entry_json rfc as_text e) (mset ?c)"
    using assms(1) by (simp add: es range_ok_def image_mset.compositionality comp_def case_prod_unfold flip: mset_map)
      (metis mset_map)
  have e: "?es = [] \<longleftrightarrow> ?c = []" using l z by auto
  have r: "getKVStoreStatus rfc as_text rng (main_router cfg ls s grng rngk w) =
      (200, HObj [(''code'', HInt 0), (''data'', HObj
        [(''key_count'', HInt (GetCacheSize (GetKVStore s))),
         (''health'', HStr (if ?c = [] then ''warning'' else ''healthy'')),
         (''usage_percent'', HInt (min 100 (GetCacheSize (GetKVStore s) div 100))), (''last_update'', HStr ?last),
         (''keys'', HList (map (entry_json rfc as_text) ?es))]), (''count'', HInt (GetCacheSize (GetKVStore s)))])"
    by (simp add: getKVStoreStatus_def main_router_def buildKVStoreStatus_def Let_def l u e)
  show ?thesis
    by (intro exI conjI impI, rule r, rule k, rule m)
qed

theorem kv_status_report_witness:
  "\<exists>keys last. getKVStoreStatus show_int (\<lambda>b. ''b'') (\<lambda>m. m) (main_router zero_config [] srv0 (\<lambda>m. m) (\<lambda>m. m) new_node) =
      (200, HObj [(''code'', HInt 0), (''data'', HObj
        [(''key_count'', HInt 1), (''health'', HStr ''healthy''), (''usage_percent'', HInt 0), (''last_update'', HStr last),
         (''keys'', HList keys)]), (''count'', HInt 1)]) \<and> last = show_int 3"
proof -
  have c: "cache (GetKVStore srv0) = [(''a'', entry_a)]"
    by (simp add: srv0_def GetKVStore_def)
  have "range_ok (\<lambda>m. m) (cache (GetKVStore srv0))" "mlen (cache (GetKVStore srv0)) < 2 ^ 56"
    by (simp_all add: range_ok_def c mlen_def)
  from kv_status_report [OF this, of show_int "\<lambda>b. ''b''" zero_config "[]" "\<lambda>m. m" "\<lambda>m. m" new_node] show ?thesis
    by (auto simp: c GetCacheSize_def mlen_def entry_a_def)
qed

end
