(* ===== verification/System.thy ===== *)
theory System
  imports ChatProps UserProps WsProps
begin

text \<open>
  A node as a whole. \<open>sys_state\<close> puts the grains that are active on a node beside its WebSocket side;
  \<open>grain_request\<close> is one message to a grain of one of the kinds \<^verbatim>\<open>internal/server/server.go\<close> registers:
  the grain is made and started when it is not active, and then runs one \<^verbatim>\<open>Receive\<close>. What the code relies
  on of the actor framework is \<open>serves\<close>: a request is either lost or handled once by the addressed
  grain, and the reply arrives or is lost. \<open>step\<close> is the relation of the atomic steps from which
  everything on the node is made, whoever takes them and in whatever order; the handlers of the
  WebSocket side are sequences of such steps, so every interleaving of goroutines is a sequence of
  steps too. \<open>sys_inv\<close> is what every such sequence keeps.
\<close>

section \<open>Grains\<close>

record sys_state = ws_state +
  sys_rooms :: "(string, chat_grain) gomap"
  sys_users :: "(string, user_grain) gomap"
  sys_hellos :: "(string, unit hello_grain) gomap"

type_synonym sys_env = "unit sys_state_ext ws_env"

definition new_sys :: sys_state where
  "new_sys = ws_state.extend (NewWebSocketManager new_node) \<lparr>sys_rooms = [], sys_users = [], sys_hellos = []\<rparr>"

definition node_of :: "'n node_scheme \<Rightarrow> node" where
  "node_of s = \<lparr>grainReg = grainReg s, roomReg = roomReg s, published = published s\<rparr>"

definition with_node :: "node \<Rightarrow> 'n node_scheme \<Rightarrow> 'n node_scheme" where
  "with_node w s = s\<lparr>grainReg := grainReg w, roomReg := roomReg w, published := published w\<rparr>"

text \<open>A turn of the grain \<open>g0\<close>, which is made and started first when it is not active.\<close>

definition grain_turn ::
    "('h, 'z) base_grain_scheme \<Rightarrow> actor_ctx \<Rightarrow>
       (('h, 'z) base_grain_scheme \<Rightarrow> node \<Rightarrow> (('h, 'z) base_grain_scheme \<times> node \<times> 'r) outcome) \<Rightarrow>
       ('h, 'z) base_grain_scheme option \<Rightarrow> node \<Rightarrow> (('h, 'z) base_grain_scheme \<times> node \<times> 'r) outcome" where
  "grain_turn new ctx receive g0 w =
     (case g0 of
        Some g \<Rightarrow> receive g w
      | None \<Rightarrow> (let (g, w) = onStarted ctx new w in receive g w))"

text \<open>What the grains of a call are given: the environments of the two kinds and the actor's own id.\<close>

record grain_env =
  ge_chat :: chat_env
  ge_user :: user_env
  ge_self :: string

definition grain_ctx :: "grain_env \<Rightarrow> string \<Rightarrow> string \<Rightarrow> actor_ctx" where
  "grain_ctx ge k i = \<lparr>selfId = ge_self ge, clusterIdentity = Some (k, i)\<rparr>"

definition hello_invoke ::
    "unit \<Rightarrow> unit hello_grain \<Rightarrow> node \<Rightarrow> RpcMsg \<Rightarrow> (unit hello_grain, unit) handled" where
  "hello_invoke h g w m = Ok (g, w, None, ErrorCode_OK)"

text \<open>\<open>None\<close>: the kind is not registered.\<close>

definition grain_request ::
    "grain_env \<Rightarrow> string \<Rightarrow> string \<Rightarrow> actor_msg \<Rightarrow> sys_state \<Rightarrow> (sys_state \<times> RpcMsg option) option outcome" where
  "grain_request ge i k am s =
     (let ctx = grain_ctx ge k i
      in if k = ''hello'' then
           obind (grain_turn NewHelloGrain ctx (Receive (codec_of (ge_chat ge)) hello_invoke ctx am)
               (mget (sys_hellos s) i) (node_of s))
             (\<lambda>(g, w, r). Ok (Some ((with_node w s)\<lparr>sys_hellos := mput i g (sys_hellos s)\<rparr>, r)))
         else if k = ''user'' then
           obind (grain_turn NewUserGrain ctx (Receive (ucodec_of (ge_user ge)) (user_invoke (ge_user ge)) ctx am)
               (mget (sys_users s) i) (node_of s))
             (\<lambda>(g, w, r). Ok (Some ((with_node w s)\<lparr>sys_users := mput i g (sys_users s)\<rparr>, r)))
         else if k = ''chat'' then
           obind (grain_turn NewChatGrain ctx (Receive (codec_of (ge_chat ge)) (chat_invoke (ge_chat ge)) ctx am)
               (mget (sys_rooms s) i) (node_of s))
             (\<lambda>(g, w, r). Ok (Some ((with_node w s)\<lparr>sys_rooms := mput i g (sys_rooms s)\<rparr>, r)))
         else Ok None)"

text \<open>One codec for the whole cluster.\<close>

definition grain_env_ok :: "codec \<Rightarrow> grain_env \<Rightarrow> bool" where
  "grain_env_ok cd ge \<longleftrightarrow> codec_of (ge_chat ge) = cd \<and> ucodec_of (ge_user ge) = cd"

text \<open>The rest of the cluster as it is seen from this node: which grains live on other nodes, and what the
  other nodes have published. A node that is \<open>alone\<close> has no other nodes.\<close>

record view =
  elsewhere :: "string \<Rightarrow> string \<Rightarrow> bool"
  foreign :: "(string \<times> RpcMsg) set"

definition alone :: view where
  "alone = \<lparr>elsewhere = (\<lambda>k i. False), foreign = {}\<rparr>"

lemma alone_simps [simp]: "elsewhere alone k i = False" "foreign alone = {}"
  by (simp_all add: alone_def)

text \<open>A request is lost, or answered; a grain of this node is given the request exactly once, even if its
  answer is lost; nothing is known of the answers of other nodes.\<close>

definition serves :: "view \<Rightarrow> grain_env \<Rightarrow> sys_state cluster \<Rightarrow> bool" where
  "serves v ge cl \<longleftrightarrow> (\<forall>s i k m.
     cl s i k m = (s, RequestErr) \<or> cl s i k m = (s, FutureErr) \<or>
     (if elsewhere v k i then \<exists>r. cl s i k m = (s, Replied r)
      else \<exists>s' r. grain_request ge i k (Envelope m) s = Ok (Some (s', Some r)) \<and>
        (cl s i k m = (s', Replied r) \<or> cl s i k m = (s', FutureErr))))"

text \<open>A bare message that is no envelope is lost or reaches the grain, which ignores it.\<close>

definition serves_raw :: "view \<Rightarrow> grain_env \<Rightarrow> (string \<Rightarrow> string \<Rightarrow> proto_msg \<Rightarrow> sys_state \<Rightarrow> sys_state) \<Rightarrow> bool" where
  "serves_raw v ge rr \<longleftrightarrow> (\<forall>s i k q.
     rr i k q s = s \<or> (\<not> elsewhere v k i \<and> (\<exists>s' r. grain_request ge i k OtherMessage s = Ok (Some (s', r)) \<and> rr i k q s = s')))"

text \<open>The environment of a handler: the framework serves, and a pid it hands out is new.\<close>

definition env_ok :: "view \<Rightarrow> codec \<Rightarrow> sys_env \<Rightarrow> sys_state \<Rightarrow> bool" where
  "env_ok v cd e s \<longleftrightarrow> wcodec e = cd \<and>
     (\<exists>ge. grain_env_ok cd ge \<and> serves v ge (wcluster e) \<and> serves_raw v ge (raw_request e)) \<and>
     (\<forall>p. spawn_pid e = Some p \<longrightarrow> p \<notin> fst ` set (spawned s))"

text \<open>A pid the actor system hands out is not in use.\<close>

definition pid_new :: "sys_env \<Rightarrow> sys_state \<Rightarrow> bool" where
  "pid_new e s \<longleftrightarrow> (\<forall>p. spawn_pid e = Some p \<longrightarrow> p \<notin> fst ` set (spawned s))"

lemma env_ok_pid: "env_ok v cd e s \<Longrightarrow> pid_new e s"
  by (simp add: env_ok_def pid_new_def)

section \<open>Steps\<close>

definition set_actor :: "string \<Rightarrow> ws_grain \<Rightarrow> sys_state \<Rightarrow> sys_state" where
  "set_actor p g s = s\<lparr>spawned := map (\<lambda>(q, h). if q = p then (q, g) else (q, h)) (spawned s)\<rparr>"

text \<open>The messages an actor of a connection gets: its start, what is published on a topic it subscribed
  to, and bare messages.\<close>

definition actor_gets :: "view \<Rightarrow> sys_state \<Rightarrow> string \<Rightarrow> actor_msg \<Rightarrow> bool" where
  "actor_gets v s p am = (case am of
     Envelope m \<Rightarrow> \<exists>t. (t, m) \<in> set (published s) \<union> foreign v \<and> (t, Some p) \<in> set (subs s)
   | _ \<Rightarrow> True)"

text \<open>The framework may stop an active grain; nothing in the code reacts to that (the code that did is commented out).\<close>

definition stop_grain :: "string \<Rightarrow> string \<Rightarrow> sys_state \<Rightarrow> sys_state" where
  "stop_grain k i s =
     (if k = ''hello'' then s\<lparr>sys_hellos := mdel i (sys_hellos s)\<rparr>
      else if k = ''user'' then s\<lparr>sys_users := mdel i (sys_users s)\<rparr>
      else if k = ''chat'' then s\<lparr>sys_rooms := mdel i (sys_rooms s)\<rparr>
      else s)"

inductive step :: "view \<Rightarrow> codec \<Rightarrow> sys_state \<Rightarrow> sys_state \<Rightarrow> bool" for v cd where
  Connect: "step v cd s (fst (HandleWebSocket ok s))"
| Call: "grain_env_ok cd ge \<Longrightarrow> i \<noteq> '''' \<Longrightarrow> \<not> elsewhere v k i \<Longrightarrow>
    grain_request ge i k am s = Ok (Some (s', r)) \<Longrightarrow> step v cd s s'"
| StopGrain: "step v cd s (stop_grain k i s)"
| Send: "c < nconns s \<Longrightarrow> sendToClient (e :: sys_env) c m s = Ok s' \<Longrightarrow> step v cd s s'"
| Register: "c < nconns s \<Longrightarrow> step v cd s (login_register c q s)"
| Spawn: "c < nconns s \<Longrightarrow> pid_new e s \<Longrightarrow> step v cd s (fst (OnLogin e c s))"
| EnterRoom: "c < nconns s \<Longrightarrow> step v cd s (with_client c (\<lambda>x. x\<lparr>ws_currentRoom := r\<rparr>) s)"
| Subscribe: "c < nconns s \<Longrightarrow> step v cd s (SubscribeTopic (e :: sys_env) c t s)"
| Unregister: "c < nconns s \<Longrightarrow> step v cd s (unregisterClient c s)"
| CloseConn: "c < nconns s \<Longrightarrow> step v cd s (Close c s)"
| Write: "c < nconns s \<Longrightarrow> writePump p ev (conns s c) = Some (x, b) \<Longrightarrow> step v cd s (with_client c (\<lambda>_. x) s)"
| ActorTurn: "(p, g) \<in> set (spawned s) \<Longrightarrow> actor_gets v s p am \<Longrightarrow> clusterIdentity ctx = None \<Longrightarrow> wcodec e = cd \<Longrightarrow>
    Receive (wcodec e) (ws_invoke e) ctx am g s = Ok (g', s', r) \<Longrightarrow> step v cd s (set_actor p g' s')"

definition reachable :: "view \<Rightarrow> codec \<Rightarrow> sys_state \<Rightarrow> bool" where
  "reachable v cd s \<longleftrightarrow> (step v cd)\<^sup>*\<^sup>* new_sys s"

section \<open>Frames\<close>

text \<open>What a message to a grain leaves alone: the WebSocket side of the node.\<close>

definition same_ws :: "sys_state \<Rightarrow> sys_state \<Rightarrow> bool" where
  "same_ws s s' \<longleftrightarrow> conns s' = conns s \<and> nconns s' = nconns s \<and> clients s' = clients s \<and>
     spawned s' = spawned s \<and> subs s' = subs s"

text \<open>What the WebSocket side leaves alone: the grains, their registries and what is published.\<close>

definition same_grains :: "sys_state \<Rightarrow> sys_state \<Rightarrow> bool" where
  "same_grains s s' \<longleftrightarrow> sys_rooms s' = sys_rooms s \<and> sys_users s' = sys_users s \<and> sys_hellos s' = sys_hellos s \<and>
     node_of s' = node_of s"

lemma node_of_simps [simp]:
  "grainReg (node_of s) = grainReg s" "roomReg (node_of s) = roomReg s" "published (node_of s) = published s"
  by (simp_all add: node_of_def)

lemma with_node_simps [simp]:
  "node_of (with_node w s) = w" "grainReg (with_node w s) = grainReg w" "roomReg (with_node w s) = roomReg w"
  "published (with_node w s) = published w"
  by (simp_all add: node_of_def with_node_def)

lemma with_node_sys [simp]:
  fixes s :: sys_state
  shows "conns (with_node w s) = conns s" "nconns (with_node w s) = nconns s" "clients (with_node w s) = clients s"
    "spawned (with_node w s) = spawned s" "subs (with_node w s) = subs s" "sys_rooms (with_node w s) = sys_rooms s"
    "sys_users (with_node w s) = sys_users s" "sys_hellos (with_node w s) = sys_hellos s"
  by (simp_all add: with_node_def)

lemma node_of_update [simp]:
  fixes s :: sys_state
  shows "node_of (s\<lparr>sys_rooms := a\<rparr>) = node_of s" "node_of (s\<lparr>sys_users := b\<rparr>) = node_of s"
    "node_of (s\<lparr>sys_hellos := d\<rparr>) = node_of s" "node_of (s\<lparr>clients := x\<rparr>) = node_of s"
    "node_of (s\<lparr>spawned := y\<rparr>) = node_of s" "node_of (s\<lparr>subs := z\<rparr>) = node_of s"
    "node_of (s\<lparr>conns := u\<rparr>) = node_of s" "node_of (s\<lparr>nconns := n\<rparr>) = node_of s"
  by (simp_all add: node_of_def)

lemma same_grains_refl [simp]: "same_grains s s"
  by (simp add: same_grains_def)

lemma same_grains_ws [simp]:
  "same_grains s (with_client c f s)" "same_grains s (unregisterClient c s)" "same_grains s (login_register c q s)"
  "same_grains s (fst (OnLogin e c s))" "same_grains s (SubscribeTopic e c t s)" "same_grains s (Close c s)"
  "same_grains s (fst (HandleWebSocket ok s))"
  by (auto simp: same_grains_def with_client_def unregisterClient_def login_register_def OnLogin_def Let_def
      SubscribeTopic_def Close_def HandleWebSocket_def split: prod.splits option.splits)

lemma same_grains_send: "sendToClient (e :: sys_env) c m s = Ok s' \<Longrightarrow> same_grains s s'"
  using sendToClient_frame by (fastforce simp: only_send_def)

lemma grain_request_ws: "grain_request ge i k am s = Ok (Some (s', r)) \<Longrightarrow> same_ws s s'"
  by (auto simp: grain_request_def same_ws_def obind_Ok_iff Let_def split: if_splits)

lemma obind_assertE:
  "obind (assert_string x) f = Ok s' \<Longrightarrow> (\<And>x. f x = Ok s' \<Longrightarrow> P) \<Longrightarrow> P"
  "obind (assert_float y) g = Ok s' \<Longrightarrow> (\<And>x. g x = Ok s' \<Longrightarrow> P) \<Longrightarrow> P"
  by (auto simp: obind_Ok_iff)

section \<open>What a handler does\<close>

text \<open>
  The interface between the handlers of a connection and what runs beside them. A handler does its own
  things, makes at most one request that it waits for, and then does its own things again. Whatever
  holds before the request and after it, if it is kept by what the handler does itself and if the request
  leads from one to the other, holds when the handler returns. A login ends by making an actor.
\<close>

locale handler_run =
  fixes c :: nat and e :: sys_env and before :: "sys_state \<Rightarrow> bool" and after :: "sys_state \<Rightarrow> bool" and ended :: "sys_state \<Rightarrow> bool"
  assumes raw: "before s \<Longrightarrow> i \<noteq> '''' \<Longrightarrow> before (raw_request e i k q s)"
    and register: "before s \<Longrightarrow> before (login_register c x s)"
    and call: "before s \<Longrightarrow> i \<noteq> '''' \<Longrightarrow> wcluster e s i k m = (s', r) \<Longrightarrow> after s'"
    and no_call: "before s \<Longrightarrow> after s"
    and send: "sendToClient e c out s = Ok s' \<Longrightarrow> after s \<Longrightarrow> after s'"
    and room: "after s \<Longrightarrow> after (with_client c (\<lambda>x. x\<lparr>ws_currentRoom := n\<rparr>) s)"
    and subscribe: "after s \<Longrightarrow> after (SubscribeTopic e c n s)"
    and unregister: "after s \<Longrightarrow> after (unregisterClient c s)"
    and spawn: "sendToClient e c out (fst (OnLogin e c s)) = Ok s' \<Longrightarrow> after s \<Longrightarrow> ended s'"
    and stop: "after s \<Longrightarrow> ended s"
begin

lemma rpc:
  assumes "Rpc (wcluster e) cd t i k n q s = Ok (s', r)" "before s"
  shows "after s'"
proof (cases "i = ''''")
  case True
  with assms no_call show ?thesis by (simp add: Rpc_def)
next
  case False
  from assms no_call [OF assms(2)] call [OF assms(2) False] show ?thesis
    by (auto simp: Rpc_def RequestFuture_def obind_Ok_iff Let_def split: if_splits option.splits prod.splits call_result.splits)
qed

lemma ask:
  assumes "obind (Rpc (wcluster e) cd t i k n q s) f = Ok s'" "before s"
    and "\<And>s2 r. after s2 \<Longrightarrow> f (s2, r) = Ok s' \<Longrightarrow> after s'"
  shows "after s'"
proof -
  from assms(1) obtain s2 r where r: "Rpc (wcluster e) cd t i k n q s = Ok (s2, r)" and f: "f (s2, r) = Ok s'"
    by (auto simp: obind_Ok_iff)
  show ?thesis by (rule assms(3) [OF rpc [OF r assms(2)] f])
qed

lemma send_first: "sendToClient e c out s = Ok s' \<Longrightarrow> before s \<Longrightarrow> after s'"
  using send no_call by blast

lemma send_joined:
  "sendToClient e c out (SubscribeTopic e c n (with_client c (ws_currentRoom_update (\<lambda>_. r)) s)) = Ok s' \<Longrightarrow> after s \<Longrightarrow> after s'"
  using send [OF _ subscribe [OF room]] by blast

lemma send_left: "sendToClient e c out (with_client c (ws_currentRoom_update (\<lambda>_. r)) s) = Ok s' \<Longrightarrow> after s \<Longrightarrow> after s'"
  using send [OF _ room] by blast

lemmas parts = send send_first send_joined send_left

lemma logout:
  assumes "handleLogout e c s = Ok s'" "before s"
  shows "after s'"
proof (cases "ws_userID (conns s c) = 0")
  case True
  with assms no_call show ?thesis by (simp add: handleLogout_def)
next
  case False
  note q = assms(1) [unfolded handleLogout_def Let_def if_not_P [OF False]]
  show ?thesis
    by (rule ask [OF q raw [OF assms(2)]]) (auto intro: send unregister split: sum.splits proto_msg.splits if_splits)
qed

lemma create: "handleCreateRoom e c msg s = Ok s' \<Longrightarrow> before s \<Longrightarrow> after s'"
  unfolding handleCreateRoom_def Let_def
  by (auto elim!: obind_assertE ask intro: parts split: jval.splits if_splits sum.splits proto_msg.splits)

lemma join: "handleJoinRoom e c msg s = Ok s' \<Longrightarrow> before s \<Longrightarrow> after s'"
  unfolding handleJoinRoom_def Let_def
  by (auto elim!: obind_assertE ask intro: parts split: jval.splits if_splits sum.splits proto_msg.splits)

lemma leave: "handleLeaveRoom e c s = Ok s' \<Longrightarrow> before s \<Longrightarrow> after s'"
  unfolding handleLeaveRoom_def Let_def
  by (auto elim!: ask intro: parts no_call split: if_splits sum.splits proto_msg.splits)

lemma say: "handleSendMessage e c msg s = Ok s' \<Longrightarrow> before s \<Longrightarrow> after s'"
  unfolding handleSendMessage_def Let_def
  by (auto elim!: obind_assertE ask intro: parts split: jval.splits if_splits sum.splits proto_msg.splits)

lemma list_rooms: "handleGetRoomList e c msg s = Ok s' \<Longrightarrow> before s \<Longrightarrow> after s'"
  by (auto simp: handleGetRoomList_def intro: parts split: if_splits)

lemma list_users: "handleGetRoomUsers e c msg s = Ok s' \<Longrightarrow> before s \<Longrightarrow> after s'"
  unfolding handleGetRoomUsers_def Let_def
  by (auto elim!: ask intro: parts split: if_splits sum.splits proto_msg.splits)

text \<open>The login makes an actor between the request and the answer to the client.\<close>

lemma login_finish:
  assumes "login_finish e c (u, n, i) s = Ok s'" "before s"
  shows "ended s'"
proof -
  from assms(1) obtain s1 r where r: "Rpc (wcluster e) (wcodec e) (wtrace e) (''user-'' @ show_int u) ''user'' ''Login''
      (proto_msg.ChatLoginReq u n i) s = Ok (s1, r)"
    by (auto simp: login_finish_def obind_Ok_iff)
  from assms(1) [unfolded login_finish_def split r obind.simps] rpc [OF r assms(2)] show ?thesis
    by (auto intro: send spawn stop split: sum.splits proto_msg.splits if_splits)
qed

lemma login:
  assumes "handleLogin e c msg s = Ok s'" "before s"
  shows "ended s'"
proof -
  from assms(1) obtain q where q: "login_request e msg = Ok q" by (auto simp: handleLogin_def obind_Ok_iff)
  from assms(1) [unfolded handleLogin_def q obind.simps] show ?thesis
    by (auto intro: stop [OF send_first [OF _ assms(2)]] login_finish [OF _ register [OF assms(2)]] split: option.splits if_splits)
qed

lemma message:
  assumes "handleMessage e c msg s = Ok s'" "before s"
  shows "ended s'"
  using assms login [OF _ assms(2)] logout [OF _ assms(2)] create [OF _ assms(2)] join [OF _ assms(2)] leave [OF _ assms(2)]
    say [OF _ assms(2)] list_rooms [OF _ assms(2)] list_users [OF _ assms(2)]
  by (auto simp: handleMessage_def intro: stop send_first split: if_splits)

end

section \<open>The handlers are sequences of steps\<close>

text \<open>Steps that make no connection and no actor.\<close>

definition quiet :: "view \<Rightarrow> codec \<Rightarrow> sys_state \<Rightarrow> sys_state \<Rightarrow> bool" where
  "quiet v cd s s' \<longleftrightarrow> (step v cd)\<^sup>*\<^sup>* s s' \<and> nconns s' = nconns s \<and> map fst (spawned s') = map fst (spawned s)"

lemma quiet_refl [simp]: "quiet v cd s s"
  by (simp add: quiet_def)

lemma quietD: "quiet v cd s s' \<Longrightarrow> (step v cd)\<^sup>*\<^sup>* s s'" "quiet v cd s s' \<Longrightarrow> nconns s' = nconns s"
  by (simp_all add: quiet_def)

lemma quiet_step:
  "quiet v cd s s1 \<Longrightarrow> step v cd s1 s2 \<Longrightarrow> nconns s2 = nconns s1 \<Longrightarrow> map fst (spawned s2) = map fst (spawned s1) \<Longrightarrow>
     quiet v cd s s2"
  unfolding quiet_def by (metis rtranclp.rtrancl_into_rtrancl)

lemma env_ok_quiet: "quiet v cd s s1 \<Longrightarrow> env_ok v cd e s \<Longrightarrow> env_ok v cd e s1"
  unfolding env_ok_def quiet_def by (simp flip: set_map)

lemma quiet_send:
  assumes "sendToClient (e :: sys_env) c m s1 = Ok s2" "quiet v cd s s1" "c < nconns s"
  shows "quiet v cd s s2"
proof -
  from sendToClient_frame [OF assms(1)] have "nconns s2 = nconns s1" "spawned s2 = spawned s1"
    by (simp_all add: only_sendD)
  with assms show ?thesis
    by (intro quiet_step [OF assms(2)] step.Send [OF _ assms(1)]) (simp_all add: quietD)
qed

lemma quiet_call:
  assumes "grain_request ge i k am s1 = Ok (Some (s2, r))" "grain_env_ok cd ge" "i \<noteq> ''''" "quiet v cd s s1"
    and "\<not> elsewhere v k i"
  shows "quiet v cd s s2"
proof (rule quiet_step [OF assms(4) step.Call [OF assms(2,3,5,1)]])
  show "nconns s2 = nconns s1" "map fst (spawned s2) = map fst (spawned s1)"
    using grain_request_ws [OF assms(1)] by (simp_all add: same_ws_def)
qed

lemma quiet_cluster:
  assumes "wcluster e s1 i k m = (s2, r)" "env_ok v cd e s1" "i \<noteq> ''''" "quiet v cd s s1"
  shows "quiet v cd s s2"
proof -
  from assms(2) obtain ge where ge: "grain_env_ok cd ge" "serves v ge (wcluster e)"
    by (auto simp: env_ok_def)
  from assms(1) consider "s2 = s1"
    | s' x where "\<not> elsewhere v k i" "grain_request ge i k (Envelope m) s1 = Ok (Some (s', x))" "s2 = s'"
    using ge(2) [unfolded serves_def, rule_format, of s1 i k m] by (auto split: if_splits)
  then show ?thesis
    using quiet_call ge(1) assms(3,4) by cases auto
qed

lemma quiet_raw:
  assumes "quiet v cd s s1" "grain_env_ok cd ge" "serves_raw v ge (raw_request e)" "i \<noteq> ''''"
  shows "quiet v cd s (raw_request e i k q s1)"
proof -
  from assms(3) consider "raw_request e i k q s1 = s1"
    | s' x where "\<not> elsewhere v k i" "grain_request ge i k OtherMessage s1 = Ok (Some (s', x))" "raw_request e i k q s1 = s'"
    unfolding serves_raw_def by metis
  then show ?thesis
    using quiet_call assms by cases auto
qed

lemma quiet_ws:
  assumes "quiet v cd s s1" "c < nconns s"
  shows "quiet v cd s (with_client c (\<lambda>x. x\<lparr>ws_currentRoom := r\<rparr>) s1)" "quiet v cd s (unregisterClient c s1)"
    "quiet v cd s (login_register c q s1)" "quiet v cd s (SubscribeTopic (e :: sys_env) c t s1)"
    "quiet v cd s (Close c s1)"
proof -
  have c: "c < nconns s1" using assms quietD(2) by simp
  show "quiet v cd s (with_client c (\<lambda>x. x\<lparr>ws_currentRoom := r\<rparr>) s1)"
    by (rule quiet_step [OF assms(1) step.EnterRoom [OF c]]) simp_all
  show "quiet v cd s (unregisterClient c s1)"
    by (rule quiet_step [OF assms(1) step.Unregister [OF c]]) (simp_all add: unregisterClient_def)
  show "quiet v cd s (login_register c q s1)"
    by (rule quiet_step [OF assms(1) step.Register [OF c]]) (simp_all add: login_register_def split: prod.split)
  show "quiet v cd s (SubscribeTopic e c t s1)"
    by (rule quiet_step [OF assms(1) step.Subscribe [OF c]]) (simp_all add: SubscribeTopic_def)
  show "quiet v cd s (Close c s1)"
    by (rule quiet_step [OF assms(1) step.CloseConn [OF c]]) (simp_all add: Close_def)
qed

lemma quiet_joined:
  assumes "sendToClient e c m (SubscribeTopic e' c t (with_client c (ws_currentRoom_update (\<lambda>_. r)) s1)) = Ok s2"
    and "quiet v cd s s1" "c < nconns s"
  shows "quiet v cd s s2"
  using assms(1) quiet_ws(4) [OF quiet_ws(1) [OF assms(2,3)] assms(3)] assms(3) by (rule quiet_send)

definition goes :: "view \<Rightarrow> codec \<Rightarrow> sys_state \<Rightarrow> sys_state \<Rightarrow> bool" where
  "goes v cd s s' \<longleftrightarrow> (step v cd)\<^sup>*\<^sup>* s s' \<and> nconns s' = nconns s"

lemma goes_quiet: "quiet v cd s s' \<Longrightarrow> goes v cd s s'"
  by (simp add: goes_def quiet_def)

lemma goes_spawned:
  assumes "sendToClient e c m (fst (OnLogin e c s1)) = Ok s2" "quiet v cd s s1" "env_ok v cd e s" "c < nconns s"
  shows "goes v cd s s2"
proof -
  have c: "c < nconns s1" using quietD(2) [OF assms(2)] assms(4) by simp
  have n: "nconns (fst (OnLogin e c s1)) = nconns s1" by (auto simp: OnLogin_def Let_def split: option.split)
  have "step v cd s1 (fst (OnLogin e c s1))" using env_ok_pid [OF env_ok_quiet [OF assms(2,3)]] by (rule step.Spawn [OF c])
  moreover have "quiet v cd (fst (OnLogin e c s1)) s2" using c n by (intro quiet_send [OF assms(1)]) simp_all
  ultimately show ?thesis
    using assms(2) n unfolding quiet_def goes_def by (metis rtranclp.rtrancl_into_rtrancl rtranclp_trans)
qed

text \<open>On a node where nothing else runs meanwhile, a handler is a sequence of steps.\<close>

interpretation node: handler_run c e "\<lambda>s1. env_ok v cd e s \<and> c < nconns s \<and> quiet v cd s s1"
    "\<lambda>s1. env_ok v cd e s \<and> c < nconns s \<and> quiet v cd s s1" "goes v cd s"
  for c :: nat and e :: sys_env and v cd s
proof (unfold_locales, goal_cases)
  case (1 s1 i k q)
  then obtain ge where "grain_env_ok cd ge" "serves_raw v ge (raw_request e)" by (auto simp: env_ok_def)
  with 1 quiet_raw show ?case by blast
next
  case (2 s1 x)
  then show ?case by (simp add: quiet_ws(3))
next
  case (3 s1 i k m s2 r)
  then show ?case using quiet_cluster [OF _ env_ok_quiet] by blast
next
  case (5 out s1 s2)
  then show ?case using quiet_send [OF 5(1)] by blast
next
  case (6 s1 n)
  then show ?case by (simp add: quiet_ws(1))
next
  case (7 s1 n)
  then show ?case by (simp add: quiet_ws(4))
next
  case (8 s1)
  then show ?case by (simp add: quiet_ws(2))
next
  case (9 out s1 s2)
  then show ?case using goes_spawned [OF 9(1)] by blast
next
  case (10 s1)
  then show ?case by (simp add: goes_quiet)
qed

lemma handleLeaveRoom_quiet:
  "handleLeaveRoom e c s = Ok s' \<Longrightarrow> env_ok v cd e s \<Longrightarrow> c < nconns s \<Longrightarrow> quiet v cd s s'"
  using node.leave [of e c s s' v cd s] by simp

lemma handleMessage_goes: "handleMessage e c msg s = Ok s' \<Longrightarrow> env_ok v cd e s \<Longrightarrow> c < nconns s \<Longrightarrow> goes v cd s s'"
  using node.message [of e c msg s s' v cd s] by simp

text \<open>The read loop: each frame is handled in an environment that is fine when the frame arrives.\<close>

fun env_run :: "view \<Rightarrow> codec \<Rightarrow> nat \<Rightarrow> (sys_env \<times> frame) list \<Rightarrow> sys_state \<Rightarrow> bool" where
  "env_run v cd c [] s = True"
| "env_run v cd c ((e, ReadError) # fs) s = True"
| "env_run v cd c ((e, Frame b) # fs) s =
     (env_ok v cd e s \<and> (case jdec e b of
        None \<Rightarrow> env_run v cd c fs s
      | Some m \<Rightarrow> (case handleMessage e c m s of Ok s' \<Rightarrow> env_run v cd c fs s' | Panic p \<Rightarrow> True)))"

lemma goes_trans: "goes v cd s1 s2 \<Longrightarrow> goes v cd s2 s3 \<Longrightarrow> goes v cd s1 s3"
  by (auto simp: goes_def)

lemma readPump_goes:
  "readPump c fs s = Ok (s', b) \<Longrightarrow> env_run v cd c fs s \<Longrightarrow> c < nconns s \<Longrightarrow> goes v cd s s'"
proof (induction c fs s arbitrary: s' b rule: readPump.induct)
  case (1 c s)
  then show ?case by (simp add: goes_quiet)
next
  case (2 c e fs s)
  then have s': "s' = Close c (unregisterClient c s)" by (simp add: Close_def)
  show ?case
    unfolding s' using 2(3) by (intro goes_quiet quiet_ws) simp_all
next
  case (3 c e message fs s)
  show ?case
  proof (cases "jdec e message")
    case None
    with 3 show ?thesis by simp
  next
    case (Some m)
    with 3(3) obtain s1 where s1: "handleMessage e c m s = Ok s1" "readPump c fs s1 = Ok (s', b)"
      by (auto simp: obind_Ok_iff)
    from Some s1(1) 3(4,5) have g: "goes v cd s s1" by (auto intro: handleMessage_goes)
    moreover have "goes v cd s1 s'"
      using 3(2) [OF Some s1(2)] g Some s1(1) 3(4,5) by (simp add: goes_def)
    ultimately show ?thesis by (rule goes_trans)
  qed
qed

end
