(* ===== verification/SystemInv.thy ===== *)
theory SystemInv
  imports System
begin

text \<open>
  The invariant of a node: what holds of its grains (\<open>grains_inv\<close>) and of its connections and their
  actors (\<open>conn_inv\<close>) in every reachable state, with one lemma per step.
\<close>

section \<open>Grains\<close>

definition is_active :: "sys_state \<Rightarrow> string \<Rightarrow> string \<Rightarrow> bool" where
  "is_active s k i \<longleftrightarrow> k = ''hello'' \<and> mhas (sys_hellos s) i \<or> k = ''user'' \<and> mhas (sys_users s) i \<or>
     k = ''chat'' \<and> mhas (sys_rooms s) i"

definition grain_kinds :: "string set" where
  "grain_kinds = {''hello'', ''user'', ''chat''}"

definition listed :: "GrainRegistry \<Rightarrow> string \<Rightarrow> string \<Rightarrow> bool" where
  "listed r k i \<longleftrightarrow> mget r (registry_key k i) = Some \<lparr>gi_KindName = k, gi_Identity = i\<rparr>"

text \<open>The envelope carries a chat message of the room.\<close>

definition room_message :: "codec \<Rightarrow> string \<Rightarrow> RpcMsg \<Rightarrow> bool" where
  "room_message cd t m \<longleftrightarrow> (\<exists>c b. cm_RoomId c = t \<and> marshal cd (proto_msg.ChatUserMessage (Some c)) = Some b \<and>
     Data m = Some b)"

definition called :: "string \<Rightarrow> string \<Rightarrow> ('h, 'z) base_grain_scheme \<Rightarrow> bool" where
  "called k i g \<longleftrightarrow> gKind g = k \<and> gIdentity g = i \<and> i \<noteq> ''''"

text \<open>A hello grain handles nothing and has counted no calls.\<close>

definition hello_inv :: "unit hello_grain \<Rightarrow> bool" where
  "hello_inv g \<longleftrightarrow> (\<forall>j. find_handler g j = None) \<and> GetCallCount g = 0"

definition grain_maps_ok :: "sys_state \<Rightarrow> bool" where
  "grain_maps_ok s \<longleftrightarrow>
     (\<forall>i g. mget (sys_rooms s) i = Some g \<longrightarrow> chat_inv g (node_of s) \<and> called ''chat'' i g) \<and>
     (\<forall>i g. mget (sys_users s) i = Some g \<longrightarrow> user_inv g (node_of s) \<and> called ''user'' i g) \<and>
     (\<forall>i g. mget (sys_hellos s) i = Some g \<longrightarrow> hello_inv g \<and> called ''hello'' i g)"

definition registries_ok :: "codec \<Rightarrow> sys_state \<Rightarrow> bool" where
  "registries_ok cd s \<longleftrightarrow>
     room_registry_wf (roomReg s) \<and> grain_registry_wf (grainReg s) \<and>
     (\<forall>i. GetRoom i (roomReg s) \<noteq> None \<longrightarrow> listed (grainReg s) ''chat'' i) \<and>
     (\<forall>(t, m) \<in> set (published s). broadcast_ok t (t, m) \<and> room_message cd t m \<and> listed (grainReg s) ''chat'' t) \<and>
     (\<forall>k i. is_active s k i \<longrightarrow> listed (grainReg s) k i)"

definition grains_inv :: "codec \<Rightarrow> sys_state \<Rightarrow> bool" where
  "grains_inv cd s \<longleftrightarrow> grain_maps_ok s \<and> registries_ok cd s"

text \<open>How a turn of the grain \<open>i\<close> of kind \<open>k\<close> may change the node.\<close>

definition node_grows :: "codec \<Rightarrow> string \<Rightarrow> string \<Rightarrow> node \<Rightarrow> node \<Rightarrow> bool" where
  "node_grows cd k i w w' \<longleftrightarrow>
     (\<forall>key. mget (grainReg w') key = mget (grainReg w) key \<or>
        key = registry_key k i \<and> mget (grainReg w') key = Some \<lparr>gi_KindName = k, gi_Identity = i\<rparr>) \<and>
     (grain_registry_wf (grainReg w) \<longrightarrow> grain_registry_wf (grainReg w')) \<and>
     (room_registry_wf (roomReg w) \<longrightarrow> room_registry_wf (roomReg w')) \<and>
     (\<forall>j. GetRoom j (roomReg w') \<noteq> None \<longrightarrow> GetRoom j (roomReg w) \<noteq> None \<or> k = ''chat'' \<and> j = i) \<and>
     (\<exists>ps. published w' = published w @ ps \<and>
        (\<forall>p \<in> set ps. k = ''chat'' \<and> broadcast_ok i p \<and> room_message cd i (snd p)))"

lemma node_grows_refl [simp]: "node_grows cd k i w w"
  by (simp add: node_grows_def)

lemma node_grows_trans:
  assumes "node_grows cd k i w1 w2" "node_grows cd k i w2 w3"
  shows "node_grows cd k i w1 w3"
proof -
  let ?ok = "\<lambda>p. k = ''chat'' \<and> broadcast_ok i p \<and> room_message cd i (snd p)"
  note 1 = assms(1) [unfolded node_grows_def] and 2 = assms(2) [unfolded node_grows_def]
  from 1 obtain ps where ps: "published w2 = published w1 @ ps" "\<forall>p \<in> set ps. ?ok p" by blast
  from 2 obtain qs where qs: "published w3 = published w2 @ qs" "\<forall>p \<in> set qs. ?ok p" by blast
  have pub: "\<exists>ps. published w3 = published w1 @ ps \<and> (\<forall>p \<in> set ps. ?ok p)"
    using ps qs by (intro exI [of _ "ps @ qs"]) auto
  have "mget (grainReg w3) key = mget (grainReg w1) key \<or>
      key = registry_key k i \<and> mget (grainReg w3) key = Some \<lparr>gi_KindName = k, gi_Identity = i\<rparr>" for key
    using spec [OF conjunct1 [OF 1], of key] spec [OF conjunct1 [OF 2], of key] by auto
  moreover have "GetRoom j (roomReg w3) \<noteq> None \<longrightarrow> GetRoom j (roomReg w1) \<noteq> None \<or> k = ''chat'' \<and> j = i" for j
    using 1 2 by blast
  ultimately show ?thesis
    unfolding node_grows_def using 1 2 pub by simp
qed

lemma onStarted_grain_ctx:
  assumes "i \<noteq> ''''" "k \<noteq> ''''"
  shows "called k i (fst (onStarted (grain_ctx ge k i) g w))" "node_grows cd k i w (snd (onStarted (grain_ctx ge k i) g w))"
  using assms by (auto simp: onStarted_def grain_ctx_def called_def Let_def node_grows_def Register_def
      instance_key_def intro!: wf_intros)

lemma same_actor_ctx: "called k i g \<Longrightarrow> same_actor g (grain_ctx ge k i)"
  by (simp add: called_def same_actor_def grain_ctx_def)

subsection \<open>Chat grains\<close>

lemma chat_invoke_kind:
  "chat_invoke e h g w m = Ok (g', w', r, c) \<Longrightarrow> gKind g' = gKind g \<and> grainReg w' = grainReg w"
  by (cases h) (auto simp: handler_defs Let_def obind_Ok_iff broadcastToMembers_def
      split: option.splits proto_msg.splits if_splits)

lemma chat_invoke_rooms:
  assumes "chat_invoke e h g w m = Ok (g', w', r, c)" "GetRoom j (roomReg w') \<noteq> None"
  shows "GetRoom j (roomReg w) \<noteq> None \<or> j = gIdentity g"
  using assms by (cases h) (auto simp: handler_defs Let_def obind_Ok_iff broadcastToMembers_def room_info_def
      split: option.splits proto_msg.splits if_splits)

lemma broadcast_room_message:
  assumes "cm_RoomId c = gIdentity g"
  shows "\<exists>ps. published (broadcastToMembers e g (proto_msg.ChatUserMessage (Some c)) x w) = published w @ ps \<and>
    (\<forall>p \<in> set ps. broadcast_ok (gIdentity g) p \<and> room_message (codec_of e) (gIdentity g) (snd p))"
proof (cases "marshal (codec_of e) (proto_msg.ChatUserMessage (Some c))")
  case (Some b)
  with assms have "room_message (codec_of e) (gIdentity g) (request_of '''' (gIdentity g) (gIdentity g) ''broadcast''
      (proto_msg.ChatUserMessage (Some c)) b)"
    by (auto simp: room_message_def request_of_def)
  with Some show ?thesis
    by (simp add: broadcast_message broadcast_ok_def request_of_def msg_id_def MsgId_value_def MsgId_value_entries_def)
qed (simp add: broadcast_message)

lemma chat_invoke_room_messages:
  assumes "chat_invoke e h g w m = Ok (g', w', r, c)"
  shows "\<exists>ps. published w' = published w @ ps \<and>
    (\<forall>p \<in> set ps. broadcast_ok (gIdentity g) p \<and> room_message (codec_of e) (gIdentity g) (snd p))"
proof (cases "h = HSendMessage")
  case False
  with others_published [OF False assms] show ?thesis by simp
next
  case True
  have b: "\<exists>ps. published (broadcastToMembers e (g\<lparr>messages := ms\<rparr>) (proto_msg.ChatUserMessage (Some c)) x w) = published w @ ps \<and>
      (\<forall>p \<in> set ps. broadcast_ok (gIdentity g) p \<and> room_message (codec_of e) (gIdentity g) (snd p))"
    if "cm_RoomId c = gIdentity g" for c ms x
    using that broadcast_room_message [of c "g\<lparr>messages := ms\<rparr>" e x w] by simp
  from True assms show ?thesis
    by (auto simp: ChatSendMessageReq_def Let_def intro!: b split: option.splits proto_msg.splits if_splits)
qed

lemma chat_receive:
  assumes "chat_inv g w" "called ''chat'' i g" "Receive cd (chat_invoke e) (grain_ctx ge ''chat'' i) am g w = Ok (g', w', r)"
    and "codec_of e = cd"
  shows "chat_inv g' w' \<and> called ''chat'' i g' \<and> node_grows cd ''chat'' i w w'"
proof -
  have inv: "chat_inv g' w'" "gIdentity g' = gIdentity g"
    using chat.receive_ok [where ctx = "grain_ctx ge ''chat'' i" and cd = cd and e = e and am = am, OF assms(1) same_actor_ctx [OF assms(2)]] assms(3) by auto
  have "gKind g' = ''chat'' \<and> node_grows cd ''chat'' i w w'"
  proof (cases am)
    case Started
    with assms(3) onStarted_grain_ctx [where k = "''chat''" and i = i and ge = ge and g = g and w = w] assms(2) show ?thesis
      by (auto simp: Receive_def called_def split: prod.splits)
  next
    case (Envelope m)
    show ?thesis
    proof (cases "find_handler g (MsgId m)")
      case (Some h)
      with Envelope assms(3) obtain x c where h: "chat_invoke e h g w m = Ok (g', w', x, c)"
        by (auto simp: Receive_def obind_Ok_iff)
      from chat_invoke_room_messages [OF h] chat_invoke_kind [OF h] chat_invoke_rooms [OF h] inv(1) assms(2,4)
      show ?thesis by (auto simp: node_grows_def called_def dest: chat_invD(9))
    qed (use Envelope assms(2,3) in \<open>simp add: Receive_def called_def\<close>)
  qed (use assms(2,3) in \<open>simp add: Receive_def called_def\<close>)
  with inv assms(2) show ?thesis by (simp add: called_def)
qed

subsection \<open>User and hello grains\<close>

lemma user_invoke_node:
  "user_inv g w \<Longrightarrow> user_invoke e h g w m = Ok (g', w', r, c) \<Longrightarrow> w' = w \<and> gKind g' = gKind g"
  by (cases h) (auto simp: handler_defs Let_def user_inv_def split: option.splits proto_msg.splits if_splits)

lemma user_receive:
  assumes "user_inv g w" "called ''user'' i g" "Receive cd (user_invoke e) (grain_ctx ge ''user'' i) am g w = Ok (g', w', r)"
  shows "user_inv g' w' \<and> called ''user'' i g' \<and> node_grows cd ''user'' i w w'"
proof -
  have inv: "user_inv g' w'" "gIdentity g' = gIdentity g"
    using user.receive_ok [where ctx = "grain_ctx ge ''user'' i" and cd = cd and e = e and am = am,
      OF assms(1) same_actor_ctx [OF assms(2)]] assms(3) by auto
  have "gKind g' = ''user'' \<and> node_grows cd ''user'' i w w'"
  proof (cases am)
    case Started
    with assms(3) onStarted_grain_ctx [where k = "''user''" and i = i and ge = ge and g = g and w = w] assms(2)
    show ?thesis by (auto simp: Receive_def called_def split: prod.splits)
  next
    case (Envelope m)
    show ?thesis
    proof (cases "find_handler g (MsgId m)")
      case (Some h)
      with Envelope assms(3) obtain x c where h: "user_invoke e h g w m = Ok (g', w', x, c)"
        by (auto simp: Receive_def obind_Ok_iff)
      from user_invoke_node [OF assms(1) h] assms(2) show ?thesis by (simp add: called_def)
    qed (use Envelope assms(2,3) in \<open>simp add: Receive_def called_def\<close>)
  qed (use assms(2,3) in \<open>simp add: Receive_def called_def\<close>)
  with inv assms(2) show ?thesis by (simp add: called_def)
qed

lemma hello_receive:
  assumes "hello_inv g" "called ''hello'' i g"
    and "Receive cd' hello_invoke (grain_ctx ge ''hello'' i) am g w = Ok (g', w', r)"
  shows "hello_inv g' \<and> called ''hello'' i g' \<and> node_grows cd ''hello'' i w w'"
proof (cases am)
  case Started
  with assms(3) have g: "g' = fst (onStarted (grain_ctx ge ''hello'' i) g w)" "w' = snd (onStarted (grain_ctx ge ''hello'' i) g w)"
    by (auto simp: Receive_def split: prod.splits)
  from assms(2) have i: "i \<noteq> ''''" by (simp add: called_def)
  show ?thesis
    unfolding g using assms(1) by (simp add: onStarted_grain_ctx i hello_inv_def GetCallCount_def)
qed (use assms in \<open>auto simp: Receive_def hello_inv_def\<close>)

text \<open>A turn, with the activation before it.\<close>

lemma grain_turn_grows:
  assumes "grain_turn new (grain_ctx ge k i) rcv g0 w = Ok (g', w', r)" "i \<noteq> ''''" "k \<noteq> ''''"
    and "\<And>g. g0 = Some g \<Longrightarrow> P g w \<and> called k i g"
    and "g0 = None \<Longrightarrow> P (fst (onStarted (grain_ctx ge k i) new w)) (snd (onStarted (grain_ctx ge k i) new w))"
    and "\<And>g w g' w' r. P g w \<Longrightarrow> called k i g \<Longrightarrow> rcv g w = Ok (g', w', r) \<Longrightarrow>
      P g' w' \<and> called k i g' \<and> node_grows cd k i w w'"
  shows "P g' w' \<and> called k i g' \<and> node_grows cd k i w w' \<and>
    (g0 = None \<longrightarrow> listed (grainReg w') k i)"
proof (cases g0)
  case (Some g)
  with assms(1) have r: "rcv g w = Ok (g', w', r)" by (simp add: grain_turn_def)
  from assms(4) [OF Some] have "P g w" "called k i g" by simp_all
  from assms(6) [OF this r] Some show ?thesis by simp
next
  case None
  obtain g1 w1 where 1: "onStarted (grain_ctx ge k i) new w = (g1, w1)" by fastforce
  with None assms(1) have r: "rcv g1 w1 = Ok (g', w', r)" by (simp add: grain_turn_def)
  from assms(5) None 1 have "P g1 w1" by simp
  moreover have c: "called k i g1" "node_grows cd k i w w1"
    using onStarted_grain_ctx [OF assms(2,3), where ge = ge and g = new and w = w] 1 by simp_all
  ultimately have g: "P g' w' \<and> called k i g' \<and> node_grows cd k i w1 w'" using assms(6) r by blast
  have "mget (grainReg w1) (registry_key k i) = Some \<lparr>gi_KindName = k, gi_Identity = i\<rparr>"
    using onStarted_registers [of "grain_ctx ge k i" new w] c(1) 1 by (simp add: Register_def called_def)
  moreover have "mget (grainReg w') (registry_key k i) = mget (grainReg w1) (registry_key k i) \<or>
      mget (grainReg w') (registry_key k i) = Some \<lparr>gi_KindName = k, gi_Identity = i\<rparr>"
    using g by (auto simp: node_grows_def)
  ultimately show ?thesis using g node_grows_trans [OF c(2)] by (auto simp: listed_def)
qed


subsection \<open>A call\<close>

lemma grain_kinds_key:
  "k \<in> grain_kinds \<Longrightarrow> k' \<in> grain_kinds \<Longrightarrow> registry_key k i = registry_key k' i' \<longleftrightarrow> k = k' \<and> i = i'"
  using registry_key_inj [of k k' i i'] by (auto simp: grain_kinds_def)

lemma active_kind: "is_active s k i \<Longrightarrow> k \<in> grain_kinds"
  by (auto simp: is_active_def grain_kinds_def)

lemma listed_grows:
  assumes "node_grows cd k i w w'" "k \<in> grain_kinds" "k' \<in> grain_kinds" "listed (grainReg w) k' j"
  shows "listed (grainReg w') k' j"
  using assms grain_kinds_key [OF assms(3,2), of j i] unfolding node_grows_def listed_def by metis

lemma registries_grow:
  assumes inv: "registries_ok cd s" and grows: "node_grows cd k i (node_of s) (node_of s')" and k: "k \<in> grain_kinds"
    and act: "\<And>k' j. is_active s' k' j \<Longrightarrow> is_active s k' j \<or> k' = k \<and> j = i"
    and new: "\<not> is_active s k i \<Longrightarrow> listed (grainReg s') k i"
  shows "registries_ok cd s'"
proof -
  note inv = inv [unfolded registries_ok_def]
  have keep: "listed (grainReg s') k' j" if "k' \<in> grain_kinds" "listed (grainReg s) k' j" for k' j
    using listed_grows [OF grows k that(1)] that(2) by simp
  have self: "listed (grainReg s') k i" using inv keep k new by blast
  have chat: "''chat'' \<in> grain_kinds" by (simp add: grain_kinds_def)
  have wf: "room_registry_wf (roomReg s')" "grain_registry_wf (grainReg s')"
    using inv grows by (simp_all add: node_grows_def)
  moreover have "listed (grainReg s') ''chat'' j" if "GetRoom j (roomReg s') \<noteq> None" for j
  proof -
    from that grows have "GetRoom j (roomReg s) \<noteq> None \<or> k = ''chat'' \<and> j = i" by (simp add: node_grows_def)
    with inv keep [OF chat] self show ?thesis by blast
  qed
  moreover have "broadcast_ok t (t, m) \<and> room_message cd t m \<and> listed (grainReg s') ''chat'' t"
    if m: "(t, m) \<in> set (published s')" for t m
  proof -
    from grows obtain ps where ps: "published s' = published s @ ps"
      "\<forall>p \<in> set ps. k = ''chat'' \<and> broadcast_ok i p \<and> room_message cd i (snd p)"
      by (auto simp: node_grows_def)
    from m ps(1) consider "(t, m) \<in> set (published s)" | "(t, m) \<in> set ps" by auto
    then show ?thesis
    proof cases
      case 1
      with inv have "broadcast_ok t (t, m) \<and> room_message cd t m \<and> listed (grainReg s) ''chat'' t" by blast
      with keep [OF chat] show ?thesis by blast
    next
      case 2
      with ps(2) have "k = ''chat'' \<and> broadcast_ok i (t, m) \<and> room_message cd i m" by fastforce
      moreover from this have "t = i" by (simp add: broadcast_ok_def)
      ultimately show ?thesis using self by simp
    qed
  qed
  moreover have "listed (grainReg s') k' j" if "is_active s' k' j" for k' j
    using act [OF that] inv keep active_kind self by blast
  ultimately show ?thesis unfolding registries_ok_def by blast
qed

lemma active_put:
  "is_active (with_node w s\<lparr>sys_rooms := mput i g (sys_rooms s)\<rparr>) k j \<longleftrightarrow> is_active s k j \<or> k = ''chat'' \<and> j = i"
  "is_active (with_node w s\<lparr>sys_users := mput i u (sys_users s)\<rparr>) k j \<longleftrightarrow> is_active s k j \<or> k = ''user'' \<and> j = i"
  "is_active (with_node w s\<lparr>sys_hellos := mput i h (sys_hellos s)\<rparr>) k j \<longleftrightarrow> is_active s k j \<or> k = ''hello'' \<and> j = i"
  by (auto simp: is_active_def mhas_def)

lemma active_iff:
  "is_active s ''hello'' i \<longleftrightarrow> mget (sys_hellos s) i \<noteq> None" "is_active s ''user'' i \<longleftrightarrow> mget (sys_users s) i \<noteq> None"
  "is_active s ''chat'' i \<longleftrightarrow> mget (sys_rooms s) i \<noteq> None"
  by (simp_all add: is_active_def mhas_def)

lemma grain_kinds_members [simp]: "''hello'' \<in> grain_kinds" "''user'' \<in> grain_kinds" "''chat'' \<in> grain_kinds"
  by (simp_all add: grain_kinds_def)

lemma grains_inv_turn:
  assumes "grains_inv cd s" "grain_maps_ok s'" "node_grows cd k i (node_of s) (node_of s')" "k \<in> grain_kinds"
    and "\<And>k' j. is_active s' k' j \<longleftrightarrow> is_active s k' j \<or> k' = k \<and> j = i"
    and "\<not> is_active s k i \<Longrightarrow> listed (grainReg s') k i"
  shows "grains_inv cd s'"
  using registries_grow [OF _ assms(3,4)] assms by (simp add: grains_inv_def)

text \<open>The grains other than the one that took its turn do not notice.\<close>

lemma grain_maps_ok_node:
  "grain_maps_ok s \<Longrightarrow> node_grows cd k i (node_of s) w \<Longrightarrow> grain_maps_ok (with_node w s)"
  by (auto simp: grain_maps_ok_def chat_inv_def user_inv_def node_grows_def)

lemma grain_maps_ok_put:
  "grain_maps_ok s \<Longrightarrow> chat_inv g (node_of s) \<Longrightarrow> called ''chat'' i g \<Longrightarrow> grain_maps_ok (s\<lparr>sys_rooms := mput i g (sys_rooms s)\<rparr>)"
  "grain_maps_ok s \<Longrightarrow> user_inv u (node_of s) \<Longrightarrow> called ''user'' i u \<Longrightarrow> grain_maps_ok (s\<lparr>sys_users := mput i u (sys_users s)\<rparr>)"
  "grain_maps_ok s \<Longrightarrow> hello_inv h \<Longrightarrow> called ''hello'' i h \<Longrightarrow>
     grain_maps_ok (s\<lparr>sys_hellos := mput i h (sys_hellos s)\<rparr>)"
  by (auto simp: grain_maps_ok_def)


lemma grain_turn_chat:
  assumes "grain_turn NewChatGrain (grain_ctx ge ''chat'' i) (Receive cd (chat_invoke e) (grain_ctx ge ''chat'' i) am)
      (mget (sys_rooms s) i) (node_of s) = Ok (g', w', r)"
    and "grains_inv cd s" "i \<noteq> ''''" "codec_of e = cd"
  shows "chat_inv g' w' \<and> called ''chat'' i g' \<and> node_grows cd ''chat'' i (node_of s) w' \<and>
    (mget (sys_rooms s) i = None \<longrightarrow> listed (grainReg w') ''chat'' i)"
proof (rule grain_turn_grows [where P = chat_inv, OF assms(1,3)])
  show "chat_inv g (node_of s) \<and> called ''chat'' i g" if "mget (sys_rooms s) i = Some g" for g
    using assms(2) that by (simp add: grains_inv_def grain_maps_ok_def)
  show "chat_inv (fst (onStarted (grain_ctx ge ''chat'' i) NewChatGrain (node_of s)))
      (snd (onStarted (grain_ctx ge ''chat'' i) NewChatGrain (node_of s)))"
    using assms(2) by (simp add: grains_inv_def registries_ok_def chat_inv_activate)
  show "chat_inv g' w' \<and> called ''chat'' i g' \<and> node_grows cd ''chat'' i w w'"
    if "chat_inv g w" "called ''chat'' i g" "Receive cd (chat_invoke e) (grain_ctx ge ''chat'' i) am g w = Ok (g', w', r)"
    for g w g' w' r
    using that assms(4) by (rule chat_receive)
qed simp


lemma grain_turn_user:
  assumes "grain_turn NewUserGrain (grain_ctx ge ''user'' i) (Receive cd (user_invoke e) (grain_ctx ge ''user'' i) am)
      (mget (sys_users s) i) (node_of s) = Ok (g', w', r)"
    and "grains_inv cd s" "i \<noteq> ''''"
  shows "user_inv g' w' \<and> called ''user'' i g' \<and> node_grows cd ''user'' i (node_of s) w' \<and>
    (mget (sys_users s) i = None \<longrightarrow> listed (grainReg w') ''user'' i)"
proof (rule grain_turn_grows [where P = user_inv, OF assms(1,3)])
  show "user_inv g (node_of s) \<and> called ''user'' i g" if "mget (sys_users s) i = Some g" for g
    using assms(2) that by (simp add: grains_inv_def grain_maps_ok_def)
  show "user_inv g' w' \<and> called ''user'' i g' \<and> node_grows cd ''user'' i w w'"
    if "user_inv g w" "called ''user'' i g" "Receive cd (user_invoke e) (grain_ctx ge ''user'' i) am g w = Ok (g', w', r)"
    for g w g' w' r
    using that by (rule user_receive)
qed (simp_all add: user_inv_start user_inv_new)

lemma hello_inv_new: "hello_inv (fst (onStarted ctx NewHelloGrain w))"
proof -
  have "CallCount NewHelloGrain = 0" by (simp add: NewHelloGrain_def HelloGrain_Init_def zero_base_def)
  then show ?thesis by (simp add: hello_inv_def GetCallCount_def)
qed

lemma grain_turn_hello:
  assumes "grain_turn NewHelloGrain (grain_ctx ge ''hello'' i) (Receive cd' hello_invoke (grain_ctx ge ''hello'' i) am)
      (mget (sys_hellos s) i) (node_of s) = Ok (g', w', r)"
    and "grains_inv cd s" "i \<noteq> ''''"
  shows "hello_inv g' \<and> called ''hello'' i g' \<and> node_grows cd ''hello'' i (node_of s) w' \<and>
    (mget (sys_hellos s) i = None \<longrightarrow> listed (grainReg w') ''hello'' i)"
proof (rule grain_turn_grows [where P = "\<lambda>g w. hello_inv g", OF assms(1,3)])
  show "hello_inv g \<and> called ''hello'' i g" if "mget (sys_hellos s) i = Some g" for g
    using assms(2) that by (simp add: grains_inv_def grain_maps_ok_def)
  show "hello_inv g' \<and> called ''hello'' i g' \<and> node_grows cd ''hello'' i w w'"
    if "hello_inv g" "called ''hello'' i g"
      "Receive cd' hello_invoke (grain_ctx ge ''hello'' i) am g w = Ok (g', w', r)"
    for g w g' w' r
    using that by (rule hello_receive)
qed (simp_all add: hello_inv_new)

lemma call_facts:
  assumes "grain_request ge i k am s = Ok (Some (s', r))" "grains_inv cd s" "grain_env_ok cd ge" "i \<noteq> ''''"
  shows "grain_maps_ok s' \<and> node_grows cd k i (node_of s) (node_of s') \<and> k \<in> grain_kinds \<and>
    (\<forall>k' j. is_active s' k' j \<longleftrightarrow> is_active s k' j \<or> k' = k \<and> j = i) \<and> (\<not> is_active s k i \<longrightarrow> listed (grainReg s') k i)"
proof -
  have cd: "codec_of (ge_chat ge) = cd" "ucodec_of (ge_user ge) = cd"
    using assms(3) by (simp_all add: grain_env_ok_def)
  have inv: "grain_maps_ok s" "registries_ok cd s" using assms(2) by (simp_all add: grains_inv_def)
  from assms(1) consider
      (hello) g w where "k = ''hello''" "s' = (with_node w s)\<lparr>sys_hellos := mput i g (sys_hellos s)\<rparr>"
        "grain_turn NewHelloGrain (grain_ctx ge ''hello'' i) (Receive cd hello_invoke (grain_ctx ge ''hello'' i) am)
          (mget (sys_hellos s) i) (node_of s) = Ok (g, w, r)"
    | (user) g w where "k = ''user''" "s' = (with_node w s)\<lparr>sys_users := mput i g (sys_users s)\<rparr>"
        "grain_turn NewUserGrain (grain_ctx ge ''user'' i) (Receive cd (user_invoke (ge_user ge)) (grain_ctx ge ''user'' i) am)
          (mget (sys_users s) i) (node_of s) = Ok (g, w, r)"
    | (chat) g w where "k = ''chat''" "s' = (with_node w s)\<lparr>sys_rooms := mput i g (sys_rooms s)\<rparr>"
        "grain_turn NewChatGrain (grain_ctx ge ''chat'' i) (Receive cd (chat_invoke (ge_chat ge)) (grain_ctx ge ''chat'' i) am)
          (mget (sys_rooms s) i) (node_of s) = Ok (g, w, r)"
    by (auto simp: grain_request_def obind_Ok_iff Let_def cd split: if_splits)
  then show ?thesis
  proof cases
    case hello
    note t = grain_turn_hello [OF hello(3) assms(2,4)]
    then have "node_grows cd k i (node_of s) w" by (simp add: hello(1))
    from grain_maps_ok_node [OF inv(1) this] have "grain_maps_ok s'" unfolding hello(2) using t grain_maps_ok_put(3) by fastforce
    moreover have "\<not> is_active s k i \<Longrightarrow> listed (grainReg s') k i" using t by (simp add: hello(1,2) active_iff)
    ultimately show ?thesis using t by (simp add: hello(1,2) active_put)
  next
    case user
    note t = grain_turn_user [OF user(3) assms(2,4)]
    then have "node_grows cd k i (node_of s) w" by (simp add: user(1))
    from grain_maps_ok_node [OF inv(1) this] have "grain_maps_ok s'" unfolding user(2) using t grain_maps_ok_put(2) by fastforce
    moreover have "\<not> is_active s k i \<Longrightarrow> listed (grainReg s') k i" using t by (simp add: user(1,2) active_iff)
    ultimately show ?thesis using t by (simp add: user(1,2) active_put)
  next
    case chat
    note t = grain_turn_chat [OF chat(3) assms(2,4) cd(1)]
    then have "node_grows cd k i (node_of s) w" by (simp add: chat(1))
    from grain_maps_ok_node [OF inv(1) this] have "grain_maps_ok s'" unfolding chat(2) using t grain_maps_ok_put(1) by fastforce
    moreover have "\<not> is_active s k i \<Longrightarrow> listed (grainReg s') k i" using t by (simp add: chat(1,2) active_iff)
    ultimately show ?thesis using t by (simp add: chat(1,2) active_put)
  qed
qed

lemma call_inv:
  assumes "grain_request ge i k am s = Ok (Some (s', r))" "grains_inv cd s" "grain_env_ok cd ge" "i \<noteq> ''''"
  shows "grains_inv cd s'"
  using call_facts [OF assms] grains_inv_turn [OF assms(2)] by blast

section \<open>Connections\<close>

definition chan_ok :: "bytes chan \<Rightarrow> bool" where
  "chan_ok ch \<longleftrightarrow> capacity ch = 256 \<and> chan_wf ch"

definition actor_ok :: "nat \<Rightarrow> ws_grain \<Rightarrow> bool" where
  "actor_ok n g \<longleftrightarrow> wc g < n \<and> gKind g = ''client'' \<and> gIdentity g \<noteq> '''' \<and>
     (\<forall>i. find_handler g i = (if i = MsgId_PChatUserMessage then Some HChatUserMessage else None))"

definition conn_inv :: "sys_state \<Rightarrow> bool" where
  "conn_inv s \<longleftrightarrow>
     (\<forall>c. chan_ok (ws_send (conns s c))) \<and>
     mwf (clients s) \<and> (\<forall>u c. mget (clients s) u = Some c \<longrightarrow> c < nconns s) \<and>
     distinct (map fst (spawned s)) \<and> (\<forall>(p, g) \<in> set (spawned s). actor_ok (nconns s) g) \<and>
     (\<forall>c p. ws_pid (conns s c) = Some p \<longrightarrow> (\<exists>g. (p, g) \<in> set (spawned s) \<and> wc g = c)) \<and>
     (\<forall>t p. (t, Some p) \<in> set (subs s) \<longrightarrow> p \<in> fst ` set (spawned s))"

lemma conn_invI:
  assumes "\<And>c. chan_ok (ws_send (conns s c))" "mwf (clients s)" "\<And>u c. mget (clients s) u = Some c \<Longrightarrow> c < nconns s"
    and "distinct (map fst (spawned s))" "\<And>p g. (p, g) \<in> set (spawned s) \<Longrightarrow> actor_ok (nconns s) g"
    and "\<And>c p. ws_pid (conns s c) = Some p \<Longrightarrow> \<exists>g. (p, g) \<in> set (spawned s) \<and> wc g = c"
    and "\<And>t p. (t, Some p) \<in> set (subs s) \<Longrightarrow> p \<in> fst ` set (spawned s)"
  shows "conn_inv s"
  using assms unfolding conn_inv_def by (intro conjI) blast+

lemma conn_invD:
  assumes "conn_inv s"
  shows "chan_ok (ws_send (conns s c))" "mwf (clients s)" "mget (clients s) u = Some c \<Longrightarrow> c < nconns s"
    and "distinct (map fst (spawned s))" "(p, g) \<in> set (spawned s) \<Longrightarrow> actor_ok (nconns s) g"
    and "ws_pid (conns s c) = Some p \<Longrightarrow> \<exists>g. (p, g) \<in> set (spawned s) \<and> wc g = c"
    and "(t, Some p) \<in> set (subs s) \<Longrightarrow> p \<in> fst ` set (spawned s)"
  using assms unfolding conn_inv_def by auto

lemma chan_ok_make [simp]: "chan_ok (ws_send NewWSClient)"
  by (simp add: chan_ok_def chan_wf_def)

lemma conn_inv_same_ws: "same_ws s s' \<Longrightarrow> conn_inv s \<Longrightarrow> conn_inv s'"
  by (simp add: same_ws_def conn_inv_def)

text \<open>A change of one connection that keeps its actor.\<close>

lemma conn_inv_client:
  "conn_inv s \<Longrightarrow> chan_ok (ws_send (f (conns s c))) \<Longrightarrow> ws_pid (f (conns s c)) = ws_pid (conns s c) \<Longrightarrow>
     conn_inv (with_client c f s)"
  by (auto simp: conn_inv_def)

lemma conn_inv_chan: "conn_inv s \<Longrightarrow> chan_ok (ws_send (conns s c))"
  by (simp add: conn_inv_def)

lemma send_chan_ok:
  assumes "sendToClient (e :: sys_env) c m s = Ok s'" "chan_ok (ws_send (conns s c))"
  shows "chan_ok (ws_send (conns s' c))"
proof (cases "jenc e m")
  case (Some b)
  show ?thesis
    by (rule select_send_cases [of "ws_send (conns s c)" b])
      (use assms Some in \<open>auto simp: sendToClient_def close_chan_def chan_ok_def chan_wf_def\<close>)
qed (use assms in \<open>simp add: sendToClient_def\<close>)

lemma conn_inv_send:
  assumes "sendToClient (e :: sys_env) c m s = Ok s'" "conn_inv s"
  shows "conn_inv s'"
proof -
  from sendToClient_frame [OF assms(1)] obtain ch where s': "s' = with_client c (\<lambda>x. x\<lparr>ws_send := ch\<rparr>) s"
    by (auto simp: only_send_def)
  with send_chan_ok [OF assms(1) conn_inv_chan [OF assms(2)]] have "chan_ok ch" by simp
  with assms(2) show ?thesis unfolding s' by (intro conn_inv_client) simp_all
qed

lemma recv_chan_ok: "recv_chan ch = Received m ch' \<Longrightarrow> chan_ok ch \<Longrightarrow> chan_ok ch'"
  by (auto simp: recv_chan_def chan_ok_def chan_wf_def split: list.splits if_splits)

lemma drain_chan_ok: "drain n ch w = (ch', w') \<Longrightarrow> chan_ok ch \<Longrightarrow> chan_ok ch'"
  by (induction n ch w arbitrary: ch' w' rule: drain.induct) (auto dest: recv_chan_ok split: recv.splits)

lemma writePump_keeps:
  "writePump p ev x = Some (x', b) \<Longrightarrow> chan_ok (ws_send x) \<Longrightarrow>
     chan_ok (ws_send x') \<and> ws_pid x' = ws_pid x"
  by (auto simp: writePump_def Let_def dest: recv_chan_ok drain_chan_ok
      split: pump_event.splits recv.splits if_splits prod.splits)

lemma NewWebSocketGrain_wc [simp]: "wc (NewWebSocketGrain c u t) = c"
  by (simp add: NewWebSocketGrain_def WebSocketGrain_Init_def RegisterMsgHandler_def Let_def base_grain.defs)

lemma NewWebSocketGrain_ok: "c < n \<Longrightarrow> actor_ok n (NewWebSocketGrain c u t)"
  by (simp add: actor_ok_def)
    (simp add: NewWebSocketGrain_def WebSocketGrain_Init_def find_handler_register show_int_nonempty
      RegisterMsgHandler_def find_handler_def zero_base_def base_grain.defs Let_def)

lemma conn_inv_spawn:
  assumes "conn_inv s" "c < nconns s" "\<forall>p. spawn_pid (e :: sys_env) = Some p \<longrightarrow> p \<notin> fst ` set (spawned s)"
  shows "conn_inv (fst (OnLogin e c s))"
proof (cases "spawn_pid e")
  case None
  with assms(1) show ?thesis by (auto simp: OnLogin_def conn_inv_def)
next
  case (Some p)
  let ?s = "fst (OnLogin e c s)"
  obtain g where s: "spawned ?s = spawned s @ [(p, g)]" and g: "actor_ok (nconns s) g" "wc g = c"
    using Some NewWebSocketGrain_ok [OF assms(2)] by (auto simp: OnLogin_def Let_def)
  have r: "clients ?s = clients s" "nconns ?s = nconns s" "subs ?s = subs s"
    "conns ?s = (conns s)(c := (conns s c)\<lparr>ws_pid := Some p\<rparr>)"
    using Some by (auto simp: OnLogin_def Let_def with_client_def)
  have p: "p \<notin> fst ` set (spawned s)" using assms(3) Some by simp
  note inv = conn_invD [OF assms(1)]
  show ?thesis
  proof (rule conn_invI)
    show "\<exists>g. (q, g) \<in> set (spawned ?s) \<and> wc g = d" if "ws_pid (conns ?s d) = Some q" for d q
      using that inv(6) [of d q] g(2) by (cases "d = c") (auto simp: s r)
    show "q \<in> fst ` set (spawned ?s)" if "(t, Some q) \<in> set (subs ?s)" for t q
      using that inv(7) [of t q] by (simp add: s r)
    show "actor_ok (nconns ?s) h" if "(q, h) \<in> set (spawned ?s)" for q h
      using that inv(5) [of q h] g(1) by (auto simp: s r)
  qed (use inv p in \<open>auto simp: s r\<close>)
qed

lemma conn_inv_accept: "conn_inv s \<Longrightarrow> conn_inv (fst (HandleWebSocket ok s))"
  by (auto simp: conn_inv_def HandleWebSocket_def actor_ok_def less_Suc_eq)

lemma conn_inv_register: "conn_inv s \<Longrightarrow> c < nconns s \<Longrightarrow> conn_inv (login_register c q s)"
  by (auto simp: conn_inv_def login_register_def split: prod.split)

lemma conn_inv_subscribe:
  assumes "conn_inv s"
  shows "conn_inv (SubscribeTopic (e :: sys_env) c t s)"
proof (cases "subscribe_ok e")
  case True
  note inv = conn_invD [OF assms]
  show ?thesis
  proof (rule conn_invI)
    show "q \<in> fst ` set (spawned (SubscribeTopic e c t s))" if "(t', Some q) \<in> set (subs (SubscribeTopic e c t s))" for t' q
      using that True inv(7) [of t' q] inv(6) [of c q] by (force simp: SubscribeTopic_def)
    show "\<exists>g. (q, g) \<in> set (spawned (SubscribeTopic e c t s)) \<and> wc g = d"
      if "ws_pid (conns (SubscribeTopic e c t s) d) = Some q" for d q
      using that inv(6) [of d q] by (simp add: SubscribeTopic_def split: if_splits)
  qed (use True inv in \<open>simp_all add: SubscribeTopic_def\<close>)
qed (use assms in \<open>simp add: SubscribeTopic_def\<close>)

lemma conn_inv_unregister: "conn_inv s \<Longrightarrow> conn_inv (unregisterClient c s)"
  by (auto simp: conn_inv_def unregisterClient_def)

lemma set_actor_spawned:
  "set (spawned (set_actor p g s)) = (\<lambda>(q, h). if q = p then (q, g) else (q, h)) ` set (spawned s)"
  "map fst (spawned (set_actor p g s)) = map fst (spawned s)"
  by (auto simp: set_actor_def)

lemma set_actor_rest [simp]:
  "conns (set_actor p g s) = conns s" "nconns (set_actor p g s) = nconns s" "clients (set_actor p g s) = clients s"
  "subs (set_actor p g s) = subs s" "node_of (set_actor p g s) = node_of s" "same_grains s (set_actor p g s)"
  by (simp_all add: set_actor_def same_grains_def)

lemma conn_inv_actor:
  assumes inv: "conn_inv s" and p: "(p, g0) \<in> set (spawned s)" and g: "actor_ok (nconns s) g" "wc g = wc g0"
  shows "conn_inv (set_actor p g s)"
proof -
  have u: "h = g0" if "(p, h) \<in> set (spawned s)" for h
    using inv p that by (auto simp: conn_inv_def dest: eq_key_imp_eq_value)
  have fst: "fst ` set (spawned (set_actor p g s)) = fst ` set (spawned s)"
    by (metis set_actor_spawned(2) set_map)
  have "\<exists>h'. (q, h') \<in> set (spawned (set_actor p g s)) \<and> wc h' = wc h" if "(q, h) \<in> set (spawned s)" for q h
    using that u g(2) by (cases "q = p") (force simp: set_actor_spawned)+
  then have pid: "\<exists>h. (q, h) \<in> set (spawned (set_actor p g s)) \<and> wc h = d" if "ws_pid (conns s d) = Some q" for q d
    using conn_invD(6) [OF inv that] by blast
  have ok: "actor_ok (nconns s) h" if "(q, h) \<in> set (spawned (set_actor p g s))" for q h
    using that conn_invD(5) [OF inv] g(1) by (auto simp: set_actor_spawned(1) split: if_splits)
  show ?thesis
    by (rule conn_invI) (use conn_invD [OF inv] pid ok in \<open>simp_all add: set_actor_spawned(2) fst\<close>)
qed


subsection \<open>A turn of a connection's actor\<close>

lemma ws_receive:
  assumes "Receive (wcodec e) (ws_invoke (e :: sys_env)) ctx am g s = Ok (g', s', r)" "actor_ok n g" "clusterIdentity ctx = None"
  obtains (start) "am = Started" "actor_ok n g'" "wc g' = wc g"
      "s' = s\<lparr>grainReg := Register ''client'' (gIdentity g) (grainReg s)\<rparr>"
    | (quiet) "g' = g" "s' = s"
    | (chat) m c where "am = Envelope m" "g' = g" "MsgId m = MsgId_PChatUserMessage"
      "decode (wcodec e) ''ChatUserMessage'' m = Some (proto_msg.ChatUserMessage c)"
      "sendToClient e (wc g) \<lparr>out_Type = ''new_message'', out_Payload = PChat c\<rparr> s = Ok s'"
proof (cases am)
  case Started
  with assms show ?thesis
    by (intro start) (auto simp: Receive_def onStarted_def actor_ok_def find_handler_def Let_def)
next
  case (Envelope m)
  show ?thesis
  proof (cases "MsgId m = MsgId_PChatUserMessage")
    case True
    then have "find_handler g (MsgId m) = Some HChatUserMessage" using assms(2) by (simp add: actor_ok_def)
    then obtain x c where h: "ChatUserMessage e g s m = Ok (g', s', x, c)"
      using assms(1) Envelope by (auto simp: Receive_def obind_Ok_iff)
    then show ?thesis using chat [OF Envelope _ True] quiet
      by (auto simp: ChatUserMessage_def SendToClient_def obind_Ok_iff split: option.splits proto_msg.splits)
  next
    case False
    then have "find_handler g (MsgId m) = None" using assms(2) by (simp add: actor_ok_def)
    then show ?thesis using assms(1) Envelope quiet by (simp add: Receive_def)
  qed
qed (use assms(1) quiet in \<open>simp add: Receive_def\<close>)

lemma grains_inv_cong:
  assumes "same_grains s s'" "grains_inv cd s"
  shows "grains_inv cd s'"
proof -
  have n: "sys_rooms s' = sys_rooms s" "sys_users s' = sys_users s" "sys_hellos s' = sys_hellos s" "node_of s' = node_of s"
    using assms(1) by (simp_all add: same_grains_def)
  then have r: "roomReg s' = roomReg s" "grainReg s' = grainReg s" "published s' = published s"
    by (metis node_of_simps)+
  have a: "is_active s' = is_active s" by (simp add: is_active_def fun_eq_iff n)
  show ?thesis using assms(2) by (simp add: grains_inv_def grain_maps_ok_def registries_ok_def n r a)
qed

lemma client_key: "k \<in> grain_kinds \<Longrightarrow> registry_key ''client'' j \<noteq> registry_key k i"
  using registry_key_inj [of "''client''" k j i] by (auto simp: grain_kinds_def)

lemma grains_inv_client:
  fixes s :: sys_state
  assumes "grains_inv cd s"
  shows "grains_inv cd (s\<lparr>grainReg := Register ''client'' j (grainReg s)\<rparr>)"
proof -
  let ?s = "s\<lparr>grainReg := Register ''client'' j (grainReg s)\<rparr>"
  have a: "is_active ?s = is_active s" by (simp add: is_active_def fun_eq_iff)
  have k: "listed (grainReg ?s) k i" if "k \<in> grain_kinds" "listed (grainReg s) k i" for k i
    using client_key [OF that(1), of j i] that(2) by (simp add: Register_def listed_def)
  have m: "grain_maps_ok ?s"
    using assms by (simp add: grains_inv_def grain_maps_ok_def chat_inv_def user_inv_def)
  have inv: "registries_ok cd s" using assms by (simp add: grains_inv_def)
  have "''chat'' \<in> grain_kinds" by (simp add: grain_kinds_def)
  moreover have "grain_registry_wf (grainReg ?s)"
    using inv by (simp add: registries_ok_def wf_intros)
  ultimately have "registries_ok cd ?s"
    using inv k active_kind unfolding registries_ok_def a by (simp add: case_prod_unfold)
  with m show ?thesis by (simp add: grains_inv_def)
qed

lemma actor_turn_inv:
  assumes "(p, g) \<in> set (spawned s)" "clusterIdentity ctx = None" "grains_inv cd s" "conn_inv s"
    and "Receive (wcodec e) (ws_invoke (e :: sys_env)) ctx am g s = Ok (g', s', r)"
  shows "grains_inv cd (set_actor p g' s') \<and> conn_inv (set_actor p g' s')"
proof -
  have g: "actor_ok (nconns s) g" using conn_invD(5) [OF assms(4,1)] .
  have grains: "grains_inv cd (set_actor p g' s1)" if "grains_inv cd s1" for s1
    using grains_inv_cong [OF set_actor_rest(6) that] .
  from assms(5) g assms(2) show ?thesis
  proof (cases rule: ws_receive)
    case start
    have "conn_inv s'" using conn_inv_same_ws [OF _ assms(4)] by (simp add: start(4) same_ws_def)
    then have "conn_inv (set_actor p g' s')"
      using conn_inv_actor [of s' p g g'] assms(1) start by simp
    with grains [OF grains_inv_client [OF assms(3)]] start(4) show ?thesis by simp
  next
    case quiet
    with grains [OF assms(3)] conn_inv_actor [OF assms(4,1) g refl] show ?thesis by simp
  next
    case (chat m c)
    note f = sendToClient_frame [OF chat(5)]
    have "conn_inv (set_actor p g' s')"
      using conn_inv_actor [OF conn_inv_send [OF chat(5) assms(4)], of p g g'] only_sendD(3,9) [OF f] assms(1) g chat(2)
      by simp
    with grains [OF grains_inv_cong [OF same_grains_send [OF chat(5)] assms(3)]] show ?thesis by simp
  qed
qed

subsection \<open>Stopping a grain\<close>

lemma stop_grain_ws: "same_ws s (stop_grain k i s)"
  by (simp add: stop_grain_def same_ws_def)

lemma stop_grain_active: "is_active (stop_grain k i s) k' j \<Longrightarrow> is_active s k' j"
  by (auto simp: stop_grain_def is_active_def mhas_def split: if_splits)

lemma stop_grain_inv: "grains_inv cd s \<Longrightarrow> grains_inv cd (stop_grain k i s)"
proof -
  assume inv: "grains_inv cd s"
  have n: "node_of (stop_grain k i s) = node_of s" by (simp add: stop_grain_def)
  then have r: "roomReg (stop_grain k i s) = roomReg s" "grainReg (stop_grain k i s) = grainReg s"
    "published (stop_grain k i s) = published s"
    by (metis node_of_simps)+
  have "grain_maps_ok (stop_grain k i s)"
    using inv unfolding grains_inv_def grain_maps_ok_def n by (auto simp: stop_grain_def)
  moreover have "registries_ok cd (stop_grain k i s)"
    using inv stop_grain_active unfolding grains_inv_def registries_ok_def r by blast
  ultimately show ?thesis by (simp add: grains_inv_def)
qed

section \<open>Every reachable state\<close>

definition sys_inv :: "codec \<Rightarrow> sys_state \<Rightarrow> bool" where
  "sys_inv cd s \<longleftrightarrow> grains_inv cd s \<and> conn_inv s"

lemma step_inv: "step v cd s s' \<Longrightarrow> sys_inv cd s \<Longrightarrow> sys_inv cd s'"
proof (induction rule: step.induct)
  case (Call ge i k am s s' r)
  then show ?case
    unfolding sys_inv_def using call_inv conn_inv_same_ws grain_request_ws by blast
next
  case (StopGrain s k i)
  then show ?case
    unfolding sys_inv_def using stop_grain_inv conn_inv_same_ws [OF stop_grain_ws] by blast
next
  case (Spawn c s e)
  then show ?case
    using grains_inv_cong [OF same_grains_ws(4)] conn_inv_spawn by (simp add: sys_inv_def pid_new_def)
next
  case (Send c s e m s')
  then show ?case
    unfolding sys_inv_def using grains_inv_cong same_grains_send conn_inv_send by blast
next
  case (Write c s p ev x b)
  then show ?case
    using grains_inv_cong [OF same_grains_ws(1)] writePump_keeps [OF Write(2) conn_inv_chan]
    by (simp add: sys_inv_def conn_inv_client)
next
  case (ActorTurn p g s am ctx e g' s' r)
  then show ?case unfolding sys_inv_def using actor_turn_inv by blast
next
  case (EnterRoom c s r)
  then show ?case
    using grains_inv_cong [OF same_grains_ws(1)] by (simp add: sys_inv_def conn_inv_client conn_inv_chan)
next
  case (CloseConn c s)
  then show ?case
    using grains_inv_cong [OF same_grains_ws(1)] by (simp add: Close_def sys_inv_def conn_inv_client conn_inv_chan)
qed (use grains_inv_cong [OF same_grains_ws(7)] grains_inv_cong [OF same_grains_ws(3)] grains_inv_cong [OF same_grains_ws(5)]
    grains_inv_cong [OF same_grains_ws(2)] in \<open>simp_all add: sys_inv_def conn_inv_accept conn_inv_register
      conn_inv_subscribe conn_inv_unregister\<close>)

lemma new_sys_inv: "sys_inv cd new_sys"
  by (simp add: sys_inv_def grains_inv_def grain_maps_ok_def registries_ok_def conn_inv_def new_sys_def ws_state.defs
      NewWebSocketManager_def node.defs new_node_def is_active_def GetRoom_def mhas_def wf_intros)
    (simp add: NewRoomRegistry_def NewGrainRegistry_def)

lemma reachable_inv: "reachable v cd s \<Longrightarrow> sys_inv cd s"
  unfolding reachable_def by (induction rule: rtranclp_induct) (auto intro: new_sys_inv step_inv)

section \<open>What a step changes on the node\<close>

text \<open>A step is a turn of one grain of this node, or it leaves the rooms, what is published and the listed
  grains alone.\<close>

lemma step_node:
  assumes "step v cd s s'" "sys_inv cd s"
  obtains (call) k i where "\<not> elsewhere v k i" "k \<in> grain_kinds" "node_grows cd k i (node_of s) (node_of s')"
      "\<And>k' j. is_active s' k' j \<Longrightarrow> is_active s k' j \<or> k' = k \<and> j = i"
  | (rest) "roomReg s' = roomReg s" "published s' = published s"
      "\<And>k i. k \<in> grain_kinds \<Longrightarrow> listed (grainReg s') k i = listed (grainReg s) k i"
      "\<And>k i. is_active s' k i \<Longrightarrow> is_active s k i"
proof -
  have same: thesis if n: "node_of s' = node_of s" and a: "\<And>k i. is_active s' k i \<Longrightarrow> is_active s k i"
  proof -
    note n = arg_cong [OF n, of roomReg, simplified] arg_cong [OF n, of published, simplified]
      arg_cong [OF n, of grainReg, simplified]
    show thesis by (rule rest) (simp_all only: n a)
  qed
  have quiet: thesis if "same_grains s s'"
    using that by (intro same) (simp_all add: same_grains_def is_active_def)
  from assms(1) show thesis
  proof cases
    case (Call ge i k am r)
    have inv: "grains_inv cd s" using assms(2) by (simp add: sys_inv_def)
    note f = call_facts [OF Call(4) inv Call(1,2)]
    from f have k: "k \<in> grain_kinds" by (elim conjE)
    from f have g: "node_grows cd k i (node_of s) (node_of s')" by (elim conjE)
    from f have a: "\<forall>k' j. is_active s' k' j \<longleftrightarrow> is_active s k' j \<or> k' = k \<and> j = i" by (elim conjE)
    show thesis by (rule call [OF Call(3) k g]) (rule iffD1 [OF a [rule_format]])
  next
    case (StopGrain k i)
    have "node_of s' = node_of s" by (simp add: StopGrain stop_grain_def)
    then show thesis by (rule same) (simp add: StopGrain stop_grain_active)
  next
    case (Send c e m)
    show thesis by (rule quiet [OF same_grains_send [OF Send(2)]])
  next
    case (ActorTurn p g am ctx e g' s1 r)
    have ok: "actor_ok (nconns s) g" using assms(2) conn_invD(5) [OF _ ActorTurn(2)] by (simp add: sys_inv_def)
    from ActorTurn(6) ok ActorTurn(4) show thesis
    proof (cases rule: ws_receive)
      case start
      have "listed (grainReg s') k i = listed (grainReg s) k i" if "k \<in> grain_kinds" for k i
        using client_key [OF that, symmetric] by (simp add: start(4) ActorTurn(1) set_actor_def Register_def listed_def)
      then show thesis by (intro rest) (simp_all add: start(4) ActorTurn(1) set_actor_def is_active_def)
    next
      case quiet
      then show thesis using set_actor_rest(6) ActorTurn(1) by (intro \<open>same_grains s s' \<Longrightarrow> thesis\<close>) simp
    next
      case (chat m c)
      from same_grains_send [OF chat(5)] set_actor_rest(6) [of s1 p g'] show thesis
        by (intro \<open>same_grains s s' \<Longrightarrow> thesis\<close>) (simp add: same_grains_def ActorTurn(1))
    qed
  qed (rule quiet, simp)+
qed

end
