(* ===== verification/SystemProps.thy ===== *)
theory SystemProps
  imports SystemInv
begin

text \<open>
  The properties of a node as a whole, in every reachable state and in every cluster: the handlers of the
  WebSocket side are sequences of the atomic steps; the invariant; every request is answered; the
  directory of grains.
\<close>

section \<open>A node that runs alone\<close>

text \<open>A cluster of one node that loses nothing.\<close>

definition local_cluster :: "grain_env \<Rightarrow> sys_state cluster" where
  "local_cluster ge s i k m =
     (case grain_request ge i k (Envelope m) s of
        Ok (Some (s', Some r)) \<Rightarrow> (s', Replied r)
      | _ \<Rightarrow> (s, RequestErr))"

lemma serves_local [simp]: "serves alone ge (local_cluster ge)"
  by (auto simp: serves_def local_cluster_def split: outcome.splits option.splits)

definition sys_genv :: "proto_msg list \<Rightarrow> grain_env" where
  "sys_genv ms = \<lparr>ge_chat = sample_env ms, ge_user = \<lparr>ucodec_of = table_codec ms, unow = noon\<rparr>,
     ge_self = ''partition/1''\<rparr>"

definition sys_wenv :: "proto_msg list \<Rightarrow> ws_in \<Rightarrow> sys_env" where
  "sys_wenv ms q = \<lparr>jenc = \<lambda>m. Some [1], jdec = \<lambda>b. Some q, wcodec = table_codec ms,
     wcluster = local_cluster (sys_genv ms), wtrace = '''', raw_request = \<lambda>i k m s. s, oor64 = \<lambda>f. 0,
     oor32 = \<lambda>f. 0, ulid = ''01H'', spawn_pid = Some ''$1'', subscribe_ok = True, range_list = \<lambda>m. m,
     range_clients = \<lambda>m. m\<rparr>"

lemma sys_env_ok [simp]:
  "grain_env_ok (table_codec ms) (sys_genv ms)"
  "env_ok alone (table_codec ms) (sys_wenv ms q) s \<longleftrightarrow> ''$1'' \<notin> fst ` set (spawned s)"
proof -
  show g: "grain_env_ok (table_codec ms) (sys_genv ms)" by (simp add: grain_env_ok_def sys_genv_def)
  have "serves_raw alone (sys_genv ms) (raw_request (sys_wenv ms q))" by (simp add: serves_raw_def sys_wenv_def)
  with g show "env_ok alone (table_codec ms) (sys_wenv ms q) s \<longleftrightarrow> ''$1'' \<notin> fst ` set (spawned s)"
    unfolding env_ok_def by (auto simp: sys_wenv_def intro!: exI [of _ "sys_genv ms"])
qed

text \<open>A node with one connection, and with one connection on which user 7 is logged in.\<close>

definition one_conn :: sys_state where
  "one_conn = fst (HandleWebSocket True new_sys)"

definition logged_in :: sys_state where
  "logged_in = login_register 0 (7, ''ann'', ''s1'') one_conn"

lemma one_conn_simps [simp]:
  "nconns one_conn = 1" "spawned one_conn = []" "conns one_conn = (\<lambda>_. NewWSClient)" "node_of one_conn = new_node"
  "sys_rooms one_conn = []" "subs one_conn = []" "roomReg one_conn = []" "published one_conn = []"
  by (auto simp: one_conn_def HandleWebSocket_def new_sys_def ws_state.defs NewWebSocketManager_def node.defs
      node_of_def new_node_def NewRoomRegistry_def)

lemma logged_in_simps [simp]:
  "nconns logged_in = 1" "spawned logged_in = []" "node_of logged_in = new_node"
  "conns logged_in 0 = NewWSClient\<lparr>ws_userID := 7, ws_username := ''ann'', ws_sessionID := ''s1''\<rparr>"
  "sys_rooms logged_in = []" "subs logged_in = []"
  by (simp_all add: logged_in_def login_register_def with_client_def)

lemma reachable_step: "reachable v cd s \<Longrightarrow> step v cd s s' \<Longrightarrow> reachable v cd s'"
  unfolding reachable_def by (rule rtranclp.rtrancl_into_rtrancl)

lemma reachable_samples: "reachable v cd new_sys" "reachable v cd one_conn" "reachable v cd logged_in"
proof -
  show n: "reachable v cd new_sys" by (simp add: reachable_def)
  show o: "reachable v cd one_conn" unfolding one_conn_def by (rule reachable_step [OF n step.Connect])
  show "reachable v cd logged_in"
    unfolding logged_in_def by (rule reachable_step [OF o step.Register]) simp
qed

section \<open>The handlers are sequences of steps\<close>

text \<open>The read loop of a connection, on a node where nothing else runs meanwhile. Reading any frames from it,
  each of them handled to its end with the requests to the cluster it makes, is a sequence of atomic
  steps of the node; so whatever holds in every reachable state holds after every interleaving of
  connections, grains and actors.\<close>

theorem handlers_are_steps:
  assumes "readPump c fs s = Ok (s', b)" "env_run v cd c fs s" "c < nconns s"
  shows "(step v cd)\<^sup>*\<^sup>* s s' \<and> (reachable v cd s \<longrightarrow> reachable v cd s') \<and> nconns s' = nconns s"
  using readPump_goes [OF assms] by (auto simp: goes_def reachable_def intro: rtranclp_trans)

theorem handlers_are_steps_witness:
  "\<exists>s'. readPump 0 [(sys_wenv [] \<lparr>in_Type = ''logout'', in_Payload = JNull\<rparr>, Frame []), (sys_wenv [] login_msg, ReadError)]
     one_conn = Ok (s', True) \<and> reachable alone (table_codec []) s'"
proof -
  let ?e = "sys_wenv [] \<lparr>in_Type = ''logout'', in_Payload = JNull\<rparr>"
  let ?fs = "[(?e, Frame []), (sys_wenv [] login_msg, ReadError)]"
  have h: "handleMessage ?e 0 \<lparr>in_Type = ''logout'', in_Payload = JNull\<rparr> one_conn = Ok one_conn"
    by (simp add: handleMessage_def handleLogout_def)
  have d: "jdec ?e [] = Some \<lparr>in_Type = ''logout'', in_Payload = JNull\<rparr>" by (simp add: sys_wenv_def)
  obtain s' where r: "readPump 0 ?fs one_conn = Ok (s', True)" by (simp add: h d)
  have "env_run alone (table_codec []) 0 ?fs one_conn" by (simp add: h d)
  from handlers_are_steps [OF r this] r reachable_samples show ?thesis by simp
qed


section \<open>The invariant\<close>

text \<open>C1: In every reachable state of a node, whatever its connections, grains and goroutines did in
  whatever order: every active room holds its members under their own ids, its history is its own, and
  it is stored under its identity; every active user and every active hello grain is stored under its identity,
  and a hello grain's count of calls is 0; every entry of the
  room list and every topic that was published on belongs to a room that was activated on this node;
  everything published is a chat message of the room whose topic it is published on; every send buffer
  keeps its bound of 256; every online user has a connection; every actor has a pid of its own, belongs
  to a connection, and handles chat messages only; and a connection's pid is an actor of this connection.\<close>

theorem node_invariant:
  assumes "reachable v cd s"
  shows "(\<forall>i g. mget (sys_rooms s) i = Some g \<longrightarrow> gIdentity g = i \<and> chat_inv g (node_of s)) \<and>
    (\<forall>i g. mget (sys_users s) i = Some g \<longrightarrow> gIdentity g = i \<and> user_inv g (node_of s)) \<and>
    (\<forall>i g. mget (sys_hellos s) i = Some g \<longrightarrow> gIdentity g = i \<and> GetCallCount g = 0) \<and>
    (\<forall>i. GetRoom i (roomReg s) \<noteq> None \<longrightarrow> listed (grainReg s) ''chat'' i) \<and>
    (\<forall>(t, m) \<in> set (published s). room_message cd t m \<and> listed (grainReg s) ''chat'' t) \<and>
    (\<forall>c. length (buf (ws_send (conns s c))) \<le> 256) \<and>
    (\<forall>u c. mget (clients s) u = Some c \<longrightarrow> c < nconns s) \<and>
    distinct (map fst (spawned s)) \<and>
    (\<forall>(p, g) \<in> set (spawned s). wc g < nconns s \<and> (\<forall>i. find_handler g i \<noteq> None \<longrightarrow> i = MsgId_PChatUserMessage)) \<and>
    (\<forall>c p. ws_pid (conns s c) = Some p \<longrightarrow> (\<exists>g. (p, g) \<in> set (spawned s) \<and> wc g = c))"
proof -
  from reachable_inv [OF assms] have g: "grain_maps_ok s" "registries_ok cd s" and c: "conn_inv s"
    by (simp_all add: sys_inv_def grains_inv_def)
  note g = g [unfolded grain_maps_ok_def registries_ok_def called_def hello_inv_def] and c = conn_invD [OF c]
  have "length (buf (ws_send (conns s c))) \<le> 256" for c
    using c(1) [of c] by (simp add: chan_ok_def chan_wf_def)
  moreover have "wc h < nconns s \<and> (\<forall>i. find_handler h i \<noteq> None \<longrightarrow> i = MsgId_PChatUserMessage)"
    if "(p, h) \<in> set (spawned s)" for p h
    using c(5) [OF that] by (simp add: actor_ok_def)
  moreover have "room_message cd t m \<and> listed (grainReg s) ''chat'' t" if "(t, m) \<in> set (published s)" for t m
    using g(2) that by blast
  ultimately show ?thesis
    using g(1) conjunct1 [OF conjunct2 [OF conjunct2 [OF g(2)]]] c(3,4,6) by (intro conjI) (simp | blast)+
qed

section \<open>Requests\<close>

lemma Receive_replies:
  "Receive cd invoke ctx am g w = Ok (g', w', r) \<Longrightarrow> r = None \<longleftrightarrow> \<not> is_envelope am"
  by (auto simp: Receive_def is_envelope_def obind_Ok_iff split: actor_msg.splits option.splits prod.splits)

lemma grain_turn_total:
  assumes "i \<noteq> ''''" "k \<noteq> ''''" "\<And>g. g0 = Some g \<Longrightarrow> P g w \<and> called k i g"
    and "P (fst (onStarted (grain_ctx ge k i) new w)) (snd (onStarted (grain_ctx ge k i) new w))"
    and "\<And>g w. P g w \<Longrightarrow> called k i g \<Longrightarrow> \<exists>x. rcv g w = Ok x"
  shows "\<exists>x. grain_turn new (grain_ctx ge k i) rcv g0 w = Ok x"
  using assms(3-) onStarted_grain_ctx(1) [OF assms(1,2), of ge new w]
  by (cases g0) (auto simp: grain_turn_def split: prod.split)

lemma grain_turn_replies:
  "grain_turn new ctx (Receive cd invoke ctx am) g0 w = Ok (g', w', r) \<Longrightarrow> r = None \<longleftrightarrow> \<not> is_envelope am"
  by (auto simp: grain_turn_def dest!: Receive_replies split: option.splits prod.splits)

lemma hello_total: "hello_inv g \<Longrightarrow> \<exists>x. Receive cd hello_invoke ctx am g w = Ok x"
  by (auto simp: hello_inv_def Receive_def split: actor_msg.split prod.split)

lemma chat_total: "chat_inv g w \<Longrightarrow> called ''chat'' i g \<Longrightarrow> \<exists>x. Receive cd (chat_invoke e) (grain_ctx ge ''chat'' i) am g w = Ok x"
  using chat.receive_ok [OF _ same_actor_ctx] by blast

lemma user_total: "user_inv g w \<Longrightarrow> called ''user'' i g \<Longrightarrow> \<exists>x. Receive cd (user_invoke e) (grain_ctx ge ''user'' i) am g w = Ok x"
  using user.receive_ok [OF _ same_actor_ctx] by blast

lemma grain_request_total:
  assumes "grains_inv cd s" "i \<noteq> ''''" "k \<in> grain_kinds"
  obtains s' r where "grain_request ge i k am s = Ok (Some (s', r))" "r = None \<longleftrightarrow> \<not> is_envelope am" "is_active s' k i"
proof -
  from assms(1) have maps: "grain_maps_ok s" and wf: "room_registry_wf (roomReg (node_of s))"
    by (simp_all add: grains_inv_def registries_ok_def)
  note maps = maps [unfolded grain_maps_ok_def]
  consider (hello) "k = ''hello''" | (user) "k = ''user''" | (chat) "k = ''chat''"
    using assms(3) by (auto simp: grain_kinds_def)
  then have "\<exists>s' r. grain_request ge i k am s = Ok (Some (s', r)) \<and> (r = None \<longleftrightarrow> \<not> is_envelope am) \<and> is_active s' k i"
  proof cases
    case hello
    have "\<exists>x. grain_turn NewHelloGrain (grain_ctx ge ''hello'' i)
        (Receive (codec_of (ge_chat ge)) hello_invoke (grain_ctx ge ''hello'' i) am) (mget (sys_hellos s) i) (node_of s) = Ok x"
      by (rule grain_turn_total [where P = "\<lambda>g w. hello_inv g"])
        (use assms(2) maps hello_total hello_inv_new in auto)
    then obtain g w r where t: "grain_turn NewHelloGrain (grain_ctx ge ''hello'' i)
        (Receive (codec_of (ge_chat ge)) hello_invoke (grain_ctx ge ''hello'' i) am) (mget (sys_hellos s) i) (node_of s) = Ok (g, w, r)"
      by (metis prod_cases3)
    with grain_turn_replies [OF t] hello show ?thesis by (simp add: grain_request_def is_active_def mhas_def)
  next
    case user
    have "\<exists>x. grain_turn NewUserGrain (grain_ctx ge ''user'' i)
        (Receive (ucodec_of (ge_user ge)) (user_invoke (ge_user ge)) (grain_ctx ge ''user'' i) am)
        (mget (sys_users s) i) (node_of s) = Ok x"
      by (rule grain_turn_total [where P = user_inv])
        (use assms(2) maps user_total user_inv_start [OF user_inv_new] in auto)
    then obtain g w r where t: "grain_turn NewUserGrain (grain_ctx ge ''user'' i)
        (Receive (ucodec_of (ge_user ge)) (user_invoke (ge_user ge)) (grain_ctx ge ''user'' i) am)
        (mget (sys_users s) i) (node_of s) = Ok (g, w, r)"
      by (metis prod_cases3)
    with grain_turn_replies [OF t] user show ?thesis by (simp add: grain_request_def is_active_def mhas_def)
  next
    case chat
    have "\<exists>x. grain_turn NewChatGrain (grain_ctx ge ''chat'' i)
        (Receive (codec_of (ge_chat ge)) (chat_invoke (ge_chat ge)) (grain_ctx ge ''chat'' i) am)
        (mget (sys_rooms s) i) (node_of s) = Ok x"
      by (rule grain_turn_total [where P = chat_inv])
        (use assms(2) maps chat_total chat_inv_activate [OF wf] in auto)
    then obtain g w r where t: "grain_turn NewChatGrain (grain_ctx ge ''chat'' i)
        (Receive (codec_of (ge_chat ge)) (chat_invoke (ge_chat ge)) (grain_ctx ge ''chat'' i) am)
        (mget (sys_rooms s) i) (node_of s) = Ok (g, w, r)"
      by (metis prod_cases3)
    with grain_turn_replies [OF t] chat show ?thesis by (simp add: grain_request_def is_active_def mhas_def)
  qed
  then show ?thesis using that by blast
qed

text \<open>C5: No request is left unanswered. In every reachable state a grain of one of the three registered
  kinds, active or not, gets through its turn without a panic whatever message reaches it and whatever
  its payload is; an envelope gets exactly one reply, any other message none; and afterwards the grain
  is active. A kind that is not registered has no grains.\<close>

theorem requests_answered:
  assumes "reachable v cd s" "i \<noteq> ''''"
  shows "if k \<in> {''hello'', ''user'', ''chat''}
    then \<exists>s' r. grain_request ge i k am s = Ok (Some (s', r)) \<and> (r = None \<longleftrightarrow> \<not> is_envelope am) \<and> is_active s' k i
    else grain_request ge i k am s = Ok None"
proof (cases "k \<in> grain_kinds")
  case True
  from reachable_inv [OF assms(1)] have "grains_inv cd s" by (simp add: sys_inv_def)
  from grain_request_total [OF this assms(2) True] show ?thesis
    using True unfolding grain_kinds_def by (simp only: if_True) blast
next
  case False
  then show ?thesis by (simp add: grain_request_def grain_kinds_def)
qed

theorem requests_answered_witness:
  "\<exists>s' r. grain_request (sys_genv []) ''lobby'' ''chat'' (Envelope (sample_rpc sample_chat 1)) logged_in = Ok (Some (s', Some r)) \<and>
     mhas (sys_rooms s') ''lobby''"
  using requests_answered [OF reachable_samples(3), of "''lobby''" "''chat''" "sys_genv []" "Envelope (sample_rpc sample_chat 1)"]
  by (auto simp: is_envelope_def is_active_def)

section \<open>The directory of grains\<close>

text \<open>A grain that is listed stays listed, whatever the node does.\<close>

lemma step_listed:
  assumes "step v cd s s'" "sys_inv cd s" "k \<in> grain_kinds" "listed (grainReg s) k i"
  shows "listed (grainReg s') k i"
  using assms(1,2)
proof (cases rule: step_node)
  case (call k' i')
  with listed_grows [OF call(3,2) assms(3)] assms(4) show ?thesis by simp
qed (use assms in simp)

text \<open>The instances a registry reports are its entries, each once, in whatever order it is visited.\<close>

lemma instance_listed:
  assumes "grain_registry_wf r" "range_ok rng r"
  shows "\<lparr>gi_KindName = k, gi_Identity = i\<rparr> \<in> set (GetInstances rng r) \<longleftrightarrow> listed r k i"
proof -
  note get = range_ok_get [OF assms(2) keyed_by_mwf [OF assms(1)]]
  have "listed r k i \<Longrightarrow> \<lparr>gi_KindName = k, gi_Identity = i\<rparr> \<in> set (GetInstances rng r)"
    by (force simp: listed_def GetInstances_def get [symmetric])
  moreover have "listed r k i" if "\<lparr>gi_KindName = k, gi_Identity = i\<rparr> \<in> set (GetInstances rng r)"
  proof -
    from that obtain key where "mget r key = Some \<lparr>gi_KindName = k, gi_Identity = i\<rparr>"
      by (auto simp: GetInstances_def get)
    with keyed_by_key [OF assms(1) this] show ?thesis by (simp add: listed_def instance_key_def)
  qed
  ultimately show ?thesis by blast
qed

lemma instances_distinct:
  assumes "grain_registry_wf r" "range_ok rng r"
  shows "distinct (GetInstances rng r)"
proof -
  note wf = keyed_by_mwf [OF assms(1)]
  have "map instance_key (GetInstances rng r) = map fst (rng r)"
    using range_ok_get [OF assms(2) wf] keyed_by_key [OF assms(1)] by (auto simp: GetInstances_def)
  then show ?thesis using range_ok_distinct [OF assms(2) wf] by (metis distinct_map)
qed

text \<open>The lobby, opened by a first message.\<close>

definition lobby_open :: sys_state where
  "lobby_open = (case grain_request (sys_genv []) ''lobby'' ''chat'' OtherMessage logged_in of
     Ok (Some (s, r)) \<Rightarrow> s | _ \<Rightarrow> logged_in)"

lemma lobby_open_request: "grain_request (sys_genv []) ''lobby'' ''chat'' OtherMessage logged_in = Ok (Some (lobby_open, None))"
proof -
  have g: "grains_inv (table_codec []) logged_in" using reachable_inv [OF reachable_samples(3)] by (simp add: sys_inv_def)
  obtain s r where "grain_request (sys_genv []) ''lobby'' ''chat'' OtherMessage logged_in = Ok (Some (s, r))"
    "r = None \<longleftrightarrow> \<not> is_envelope OtherMessage"
    by (rule grain_request_total [OF g, of "''lobby''" "''chat''"]) simp_all
  then show ?thesis by (simp add: lobby_open_def is_envelope_def)
qed

lemma lobby_open_reachable: "reachable alone (table_codec []) lobby_open"
  by (rule reachable_step [OF reachable_samples(3) step.Call [OF _ _ _ lobby_open_request]]) simp_all

lemma lobby_open_active: "is_active lobby_open ''chat'' ''lobby''"
proof -
  have g: "grains_inv (table_codec []) logged_in" using reachable_inv [OF reachable_samples(3)] by (simp add: sys_inv_def)
  show ?thesis
    by (rule grain_request_total [OF g, of "''lobby''" "''chat''" "sys_genv []" OtherMessage])
      (simp_all add: lobby_open_request)
qed

text \<open>The lobby that was opened is a room of its own identity.\<close>

theorem node_invariant_witness:
  "\<exists>g. mget (sys_rooms lobby_open) ''lobby'' = Some g \<and> gIdentity g = ''lobby'' \<and> chat_inv g (node_of lobby_open)"
proof -
  from lobby_open_active obtain g where g: "mget (sys_rooms lobby_open) ''lobby'' = Some g"
    by (auto simp: is_active_def mhas_def)
  have "\<forall>i g. mget (sys_rooms lobby_open) i = Some g \<longrightarrow> gIdentity g = i \<and> chat_inv g (node_of lobby_open)"
    using node_invariant [OF lobby_open_reachable] by (elim conjE)
  with g show ?thesis by blast
qed

end
