(* ===== verification/RoomTurns.thy ===== *)
theory RoomTurns
  imports SystemProps
begin

text \<open>
  Turns of a room's grain and of a connection's actor on a node: what a request to join or to send changes,
  what is published, and how an actor hands a broadcast on; and the samples of the end-to-end properties.
\<close>

section \<open>Turns of a room\<close>

lemma same_ws_refl [simp]: "same_ws s s"
  by (simp add: same_ws_def)

text \<open>A turn of an active room that handles the envelope.\<close>

lemma chat_turn:
  assumes "mget (sys_rooms s) i = Some g" "find_handler g (MsgId q) = Some h"
    and "chat_invoke (ge_chat ge) h g (node_of s) q = Ok (g', w', x, c)"
  shows "grain_request ge i ''chat'' (Envelope q) s =
    Ok (Some (with_node w' s\<lparr>sys_rooms := mput i g' (sys_rooms s)\<rparr>, Some (reply (codec_of (ge_chat ge)) q x c)))"
  using assms by (simp add: grain_request_def grain_turn_def Receive_def)

lemma join_served:
  assumes "grain_request ge i ''chat'' (Envelope q) s = Ok (Some (s', Some r))" "grains_inv cd s" "grain_env_ok cd ge" "i \<noteq> ''''"
    and "MsgId q = MsgId_PChatJoinRoomReq" "decode cd ''ChatJoinRoomReq'' q = Some (proto_msg.ChatJoinRoomReq room u n)"
    and "Code r = ErrorCode_OK"
  shows "\<exists>g. mget (sys_rooms s') i = Some g \<and> mhas (members g) u \<and>
    (\<forall>g0. mget (sys_rooms s) i = Some g0 \<longrightarrow> int (mlen (members g0)) < maxMembers g0)"
proof -
  let ?ctx = "grain_ctx ge ''chat'' i" and ?new = "onStarted (grain_ctx ge ''chat'' i) NewChatGrain (node_of s)"
  have cd: "codec_of (ge_chat ge) = cd" using assms(3) by (simp add: grain_env_ok_def)
  from assms(1) obtain g w where g: "grain_turn NewChatGrain ?ctx (Receive cd (chat_invoke (ge_chat ge)) ?ctx (Envelope q))
      (mget (sys_rooms s) i) (node_of s) = Ok (g, w, Some r)" "mget (sys_rooms s') i = Some g"
    by (auto simp: grain_request_def obind_Ok_iff Let_def cd)
  define g0 w0 where "g0 = (case mget (sys_rooms s) i of Some g \<Rightarrow> g | None \<Rightarrow> fst ?new)"
    and "w0 = (case mget (sys_rooms s) i of Some g \<Rightarrow> node_of s | None \<Rightarrow> snd ?new)"
  have inv: "chat_inv g0 w0"
    using assms(2) chat_inv_activate [of "node_of s" ?ctx]
    by (auto simp: g0_def w0_def grains_inv_def grain_maps_ok_def registries_ok_def split: option.split)
  have "Receive cd (chat_invoke (ge_chat ge)) ?ctx (Envelope q) g0 w0 = Ok (g, w, Some r)"
    using g(1) by (auto simp: g0_def w0_def grain_turn_def split: option.splits prod.splits)
  moreover have "find_handler g0 (MsgId q) = Some HJoinRoom"
    using chat_invD(8) [OF inv] assms(5) by (simp add: chat_table_def mget_def)
  ultimately obtain x c where h: "ChatJoinRoomReq (ge_chat ge) g0 w0 q = Ok (g, w, x, c)" "r = reply cd q x c"
    by (auto simp: Receive_def obind_Ok_iff)
  from h(2) assms(7) have c: "c = ErrorCode_OK" by simp
  from h(1) c have "mhas (members g) u \<and> int (mlen (members g0)) < maxMembers g0"
    using member_count_exact [OF inv]
    by (auto simp: ChatJoinRoomReq_def cd assms(6) Let_def obind_Ok_iff mhas_def split: if_splits)
  then show ?thesis using g(2) by (auto simp: g0_def)
qed

lemma request_of_chat [simp]:
  "MsgId (request_of t i k n (proto_msg.ChatJoinRoomReq room u x) b) = MsgId_PChatJoinRoomReq"
  "MsgId (request_of t i k n (proto_msg.ChatSendMessageReq room u x y ty) b) = MsgId_PChatSendMessageReq"
  "has_id (proto_msg.ChatJoinRoomReq room u x)" "has_id (proto_msg.ChatSendMessageReq room u x y ty)"
  by (simp_all add: request_of_def msg_id_def has_id_def MsgId_value_def MsgId_value_entries_def)

lemma decode_request: "codec_rt cd q \<Longrightarrow> marshal cd q = Some b \<Longrightarrow> decode cd (msg_name q) (request_of t i k n q b) = Some q"
  by (simp add: decode_def request_of_def codec_rt_def)

text \<open>The message a connection's text becomes, and the envelope it is published in.\<close>

definition sent_message :: "grain_env \<Rightarrow> ws_client \<Rightarrow> string \<Rightarrow> ChatMessage" where
  "sent_message ge x content = \<lparr>cm_MsgId = generateMsgId (now (ge_chat ge) 0), cm_SenderId = ws_userID x,
     cm_SenderName = ws_username x, cm_RoomId = ws_currentRoom x, cm_Type = ChatMsgType_TEXT,
     cm_Content = content, cm_Timestamp = unixMilli (now (ge_chat ge) 1)\<rparr>"

definition broadcast_of :: "ChatMessage \<Rightarrow> bytes \<Rightarrow> RpcMsg" where
  "broadcast_of m b = request_of '''' (cm_RoomId m) (cm_RoomId m) ''broadcast'' (proto_msg.ChatUserMessage (Some m)) b"

lemma send_served:
  assumes "mget (sys_rooms s) i = Some g" "chat_inv g (node_of s)" "gIdentity g = i" "grain_env_ok cd ge"
    and "ws_currentRoom x = i" "mhas (members g) (ws_userID x)"
    and "MsgId q = MsgId_PChatSendMessageReq"
    and "decode cd ''ChatSendMessageReq'' q = Some (proto_msg.ChatSendMessageReq i (ws_userID x) (ws_username x) content ChatMsgType_TEXT)"
    and "marshal cd (proto_msg.ChatUserMessage (Some (sent_message ge x content))) = Some b"
  obtains s' r g' where "grain_request ge i ''chat'' (Envelope q) s = Ok (Some (s', Some r))"
    "mget (sys_rooms s') i = Some g'" "messages g' = last_n 100 (messages g @ [sent_message ge x content])"
    "members g' = members g"
    "published s' = published s @ [(i, broadcast_of (sent_message ge x content) b)]"
proof -
  let ?m = "sent_message ge x content"
  have cd: "codec_of (ge_chat ge) = cd" using assms(4) by (simp add: grain_env_ok_def)
  have m: "\<lparr>cm_MsgId = generateMsgId (now (ge_chat ge) 0), cm_SenderId = ws_userID x,
      cm_SenderName = ws_username x, cm_RoomId = i, cm_Type = ChatMsgType_TEXT,
      cm_Content = content, cm_Timestamp = unixMilli (now (ge_chat ge) (Suc 0))\<rparr> = ?m"
    by (simp add: sent_message_def assms(5))
  have h: "find_handler g (MsgId q) = Some HSendMessage"
    using chat_invD(8) [OF assms(2)] assms(7) by (simp add: chat_table_def mget_def)
  define g' where "g' = g\<lparr>messages := last_n 100 (messages g @ [?m])\<rparr>"
  have bc: "broadcastToMembers (ge_chat ge) g1 (proto_msg.ChatUserMessage (Some ?m)) z (node_of s) =
      (node_of s)\<lparr>published := published s @ [(i, broadcast_of ?m b)]\<rparr>" if "gIdentity g1 = i" for g1 z
    using assms(5,9) that
    by (simp add: broadcastToMembers_def cd Publish_def NewRpcMsg_def broadcast_of_def request_of_def msg_id_def
        MsgId_value_def MsgId_value_entries_def) (simp add: sent_message_def)
  have "chat_invoke (ge_chat ge) HSendMessage g (node_of s) q =
      Ok (g', (node_of s)\<lparr>published := published s @ [(i, broadcast_of ?m b)]\<rparr>,
        Some (ChatSendMessageResp ErrorCode_OK t_message_sent (Some ?m)), ErrorCode_OK)"
    using assms(3,6,8) bc
    by (simp add: ChatSendMessageReq_def cd Let_def m g'_def last_n_def del: drop_append)
  from chat_turn [OF assms(1) h this] show ?thesis
    by (rule that [where g' = g']) (simp_all add: g'_def)
qed

text \<open>A text of somebody who is no member is dropped without a trace.\<close>

lemma send_dropped:
  assumes "grain_request ge i ''chat'' (Envelope q) s = Ok (Some (s', Some r))" "grains_inv cd s" "grain_env_ok cd ge"
    and "MsgId q = MsgId_PChatSendMessageReq" "decode cd ''ChatSendMessageReq'' q = Some (proto_msg.ChatSendMessageReq room u n content ty)"
    and "\<And>g. mget (sys_rooms s) i = Some g \<Longrightarrow> \<not> mhas (members g) u"
  shows "published s' = published s \<and> (\<forall>g. mget (sys_rooms s) i = Some g \<longrightarrow> mget (sys_rooms s') i = Some g)"
proof -
  let ?ctx = "grain_ctx ge ''chat'' i" and ?new = "onStarted (grain_ctx ge ''chat'' i) NewChatGrain (node_of s)"
  have cd: "codec_of (ge_chat ge) = cd" using assms(3) by (simp add: grain_env_ok_def)
  from assms(1) obtain g w where g: "grain_turn NewChatGrain ?ctx (Receive cd (chat_invoke (ge_chat ge)) ?ctx (Envelope q))
      (mget (sys_rooms s) i) (node_of s) = Ok (g, w, Some r)" "s' = with_node w s\<lparr>sys_rooms := mput i g (sys_rooms s)\<rparr>"
    by (auto simp: grain_request_def obind_Ok_iff Let_def cd)
  define g0 w0 where "g0 = (case mget (sys_rooms s) i of Some g \<Rightarrow> g | None \<Rightarrow> fst ?new)"
    and "w0 = (case mget (sys_rooms s) i of Some g \<Rightarrow> node_of s | None \<Rightarrow> snd ?new)"
  have inv: "chat_inv g0 w0"
    using assms(2) chat_inv_activate [of "node_of s" ?ctx]
    by (auto simp: g0_def w0_def grains_inv_def grain_maps_ok_def registries_ok_def split: option.split)
  have "Receive cd (chat_invoke (ge_chat ge)) ?ctx (Envelope q) g0 w0 = Ok (g, w, Some r)"
    using g(1) by (auto simp: g0_def w0_def grain_turn_def split: option.splits prod.splits)
  moreover have "find_handler g0 (MsgId q) = Some HSendMessage"
    using chat_invD(8) [OF inv] assms(4) by (simp add: chat_table_def mget_def)
  ultimately obtain x c where "ChatSendMessageReq (ge_chat ge) g0 w0 q = Ok (g, w, x, c)"
    by (auto simp: Receive_def obind_Ok_iff)
  moreover have "\<not> mhas (members g0) u"
    using assms(6) by (auto simp: g0_def mhas_def split: option.split)
  ultimately have e: "g = g0" "w = w0" using assms(5) by (simp_all add: ChatSendMessageReq_def cd)
  have "published w0 = published (node_of s)" by (simp add: w0_def split: option.split)
  then show ?thesis using g(2) by (auto simp: e g0_def)
qed

lemma join_new:
  assumes "mget (sys_rooms s) i = None" "i \<noteq> ''''" "MsgId q = MsgId_PChatJoinRoomReq" "room_registry_wf (roomReg s)"
    and "decode (codec_of (ge_chat ge)) ''ChatJoinRoomReq'' q = Some (proto_msg.ChatJoinRoomReq room u n)"
  shows "\<exists>s' r g. grain_request ge i ''chat'' (Envelope q) s = Ok (Some (s', r)) \<and>
    mget (sys_rooms s') i = Some g \<and> mhas (members g) u"
proof -
  obtain g w where g: "onStarted (grain_ctx ge ''chat'' i) NewChatGrain (node_of s) = (g, w)" by fastforce
  have m: "members g = []" "maxMembers g = 50"
    using onStarted_chat [of "grain_ctx ge ''chat'' i" NewChatGrain "node_of s"] by (simp_all add: g)
  have h: "find_handler g (MsgId q) = Some HJoinRoom"
    using find_handler_start [of "grain_ctx ge ''chat'' i" NewChatGrain "node_of s"] assms(3)
    by (simp add: g find_handler_NewChatGrain chat_table_def mget_def)
  obtain g' w' x c where i: "ChatJoinRoomReq (ge_chat ge) g w q = Ok (g', w', x, c)" "mhas (members g') u"
    using assms(5) m by (auto simp: ChatJoinRoomReq_def Let_def member_count_def i32_id mlen_def mhas_def getRecentMessages_Ok)
  with h show ?thesis
    using assms(1) g by (simp add: grain_request_def grain_turn_def Receive_def)
qed

text \<open>What the code relies on of the codec here: bytes never decode, at the type they were written with, to
  a message other than the one that was written.\<close>

definition codec_sound :: "codec \<Rightarrow> bool" where
  "codec_sound cd \<longleftrightarrow> (\<forall>m b q. marshal cd m = Some b \<and> unmarshal cd (msg_name m) b = Some q \<longrightarrow> q = m)"

lemma table_codec_sound: "length ms \<le> 256 \<Longrightarrow> codec_sound (table_codec ms)"
  unfolding codec_sound_def
proof (intro allI impI, elim conjE)
  fix m b q
  assume l: "length ms \<le> 256" and m: "marshal (table_codec ms) m = Some b" "unmarshal (table_codec ms) (msg_name m) b = Some q"
  from m(1) obtain i where i: "index_of ms m = Some i" by (auto simp: table_codec_def)
  from table_codec_rt [OF i l] m show "q = m" by (simp add: codec_rt_def)
qed

section \<open>Turns of an actor\<close>

text \<open>An actor that is given a broadcast of a room hands it to its connection.\<close>

lemma actor_turn:
  fixes e :: sys_env
  assumes "find_handler h MsgId_PChatUserMessage = Some HChatUserMessage" "wcodec e = cd"
    and "codec_rt cd (proto_msg.ChatUserMessage (Some m))" "marshal cd (proto_msg.ChatUserMessage (Some m)) = Some b"
    and "sendToClient e (wc h) \<lparr>out_Type = ''new_message'', out_Payload = PChat (Some m)\<rparr> s = Ok s'"
  shows "Receive (wcodec e) (ws_invoke e) ctx (Envelope (broadcast_of m b)) h s =
    Ok (h, s', Some (reply cd (broadcast_of m b) None ErrorCode_OK))"
proof -
  have i: "MsgId (broadcast_of m b) = MsgId_PChatUserMessage"
    by (simp add: broadcast_of_def request_of_def msg_id_def MsgId_value_def MsgId_value_entries_def)
  have "decode cd ''ChatUserMessage'' (broadcast_of m b) = Some (proto_msg.ChatUserMessage (Some m))"
    using assms(3,4) by (simp add: codec_rt_def decode_def broadcast_of_def request_of_def)
  with i assms(1,2,5) show ?thesis by (simp add: Receive_def ChatUserMessage_def SendToClient_def)
qed

lemma actor_delivers:
  fixes e :: sys_env
  assumes "conn_inv s" "(p, h) \<in> set (spawned s)" "(cm_RoomId m, broadcast_of m b) \<in> set (published s) \<union> foreign v"
    and "(cm_RoomId m, Some p) \<in> set (subs s)" "wcodec e = cd" "codec_rt cd (proto_msg.ChatUserMessage (Some m))"
    and "marshal cd (proto_msg.ChatUserMessage (Some m)) = Some b"
    and "jenc e \<lparr>out_Type = ''new_message'', out_Payload = PChat (Some m)\<rparr> = Some bs"
    and "\<not> closed (ws_send (conns s (wc h)))" "length (buf (ws_send (conns s (wc h)))) < 256"
  obtains s' where "step v cd s s'" "buf (ws_send (conns s' (wc h))) = buf (ws_send (conns s (wc h))) @ [bs]"
proof -
  let ?ctx = "\<lparr>selfId = p, clusterIdentity = None\<rparr>"
    and ?s = "with_client (wc h) (\<lambda>x. x\<lparr>ws_send := (ws_send x)\<lparr>buf := buf (ws_send x) @ [bs]\<rparr>\<rparr>) s"
  have h: "find_handler h MsgId_PChatUserMessage = Some HChatUserMessage"
    using conn_invD(5) [OF assms(1,2)] by (simp add: actor_ok_def)
  have "sendToClient e (wc h) \<lparr>out_Type = ''new_message'', out_Payload = PChat (Some m)\<rparr> s = Ok ?s"
    using assms(8-) conn_invD(1) [OF assms(1), of "wc h"] by (intro sendToClient_room) (simp_all add: chan_ok_def)
  from step.ActorTurn [OF assms(2) _ _ assms(5) actor_turn [OF h assms(5-7) this], of v ?ctx] assms(3,4)
  have "step v cd s (set_actor p h ?s)" by (auto simp: actor_gets_def)
  then show ?thesis by (rule that) simp
qed

section \<open>Samples\<close>

definition hi :: ChatMessage where
  "hi = \<lparr>cm_MsgId = generateMsgId noon, cm_SenderId = 7, cm_SenderName = ''ann'', cm_RoomId = ''lobby'',
     cm_Type = ChatMsgType_TEXT, cm_Content = ''hi'', cm_Timestamp = unixMilli noon\<rparr>"

definition talk :: "proto_msg list" where
  "talk = sample_chat @ [proto_msg.ChatUserMessage (Some hi), ChatLeaveRoomResp ErrorCode_OK t_left_room]"

definition talk_env :: sys_env where
  "talk_env = sys_wenv talk \<lparr>in_Type = ''send_message'', in_Payload = JObj [(''content'', JStr ''hi'')]\<rparr>"

lemma talk_codec: "i < length talk \<Longrightarrow> codec_rt (table_codec talk) (talk ! i) \<and> length talk \<le> 256"
proof -
  assume "i < length talk"
  then obtain j where "index_of talk (talk ! i) = Some j"
    by (auto simp: talk_def sample_chat_def less_Suc_eq)
  moreover have "length talk \<le> 256" by (simp add: talk_def sample_chat_def)
  ultimately show ?thesis by (auto intro: table_codec_rt)
qed

lemma talk_nth: "talk ! Suc 0 = proto_msg.ChatJoinRoomReq ''lobby'' 7 ''ann''" "length talk = 9"
  "talk ! 2 = proto_msg.ChatSendMessageReq ''lobby'' 7 ''ann'' ''hi'' ChatMsgType_TEXT"
  "talk ! 7 = proto_msg.ChatUserMessage (Some hi)"
  "talk ! 3 = proto_msg.ChatLeaveRoomReq ''lobby'' 7 ''ann''" "talk ! 8 = ChatLeaveRoomResp ErrorCode_OK t_left_room"
  by (simp_all add: talk_def sample_chat_def)

definition talk_msg :: ws_in where
  "talk_msg = \<lparr>in_Type = ''send_message'', in_Payload = JObj [(''content'', JStr ''hi'')]\<rparr>"

lemma talk_codecs:
  "codec_rt (table_codec talk) (proto_msg.ChatSendMessageReq ''lobby'' 7 ''ann'' ''hi'' ChatMsgType_TEXT)"
  "codec_rt (table_codec talk) (proto_msg.ChatUserMessage (Some hi))" "codec_sound (table_codec talk)"
  "codec_rt (table_codec talk) (proto_msg.ChatJoinRoomReq ''lobby'' 7 ''ann'')"
  "codec_rt (table_codec talk) (proto_msg.ChatLeaveRoomReq ''lobby'' 7 ''ann'')"
  "codec_rt (table_codec talk) (ChatLeaveRoomResp ErrorCode_OK t_left_room)"
  using talk_codec [of 2] talk_codec [of 7] talk_codec [of 1] talk_codec [of 3] talk_codec [of 8] by (simp_all add: talk_nth table_codec_sound)

text \<open>Whatever node ann's connection is on: she is logged in, her actor is spawned, and it is subscribed to the
  lobby. No request is answered in this environment.\<close>

definition mute_env :: sys_env where
  "mute_env = talk_env\<lparr>wcluster := \<lambda>s i k m. (s, RequestErr)\<rparr>"

lemma mute_env_ok: "env_ok v (table_codec talk) mute_env s \<longleftrightarrow> ''$1'' \<notin> fst ` set (spawned s)"
proof -
  have "serves v (sys_genv talk) (wcluster mute_env)" "serves_raw v (sys_genv talk) (raw_request mute_env)"
    by (simp_all add: serves_def serves_raw_def mute_env_def talk_env_def sys_wenv_def)
  moreover have "grain_env_ok (table_codec talk) (sys_genv talk)" by simp
  ultimately show ?thesis unfolding env_ok_def by (auto simp: mute_env_def talk_env_def sys_wenv_def)
qed

definition ann_listens :: sys_state where
  "ann_listens = SubscribeTopic mute_env 0 ''lobby''
     (with_client 0 (\<lambda>x. x\<lparr>ws_currentRoom := ''lobby''\<rparr>) (fst (OnLogin mute_env 0 logged_in)))"

lemma ann_listens_simps [simp]:
  "nconns ann_listens = 1" "spawned ann_listens = [(''$1'', NewWebSocketGrain 0 7 ''s1'')]"
  "subs ann_listens = [(''lobby'', Some ''$1'')]" "sys_rooms ann_listens = []" "node_of ann_listens = new_node"
  "conns ann_listens 0 = NewWSClient\<lparr>ws_pid := Some ''$1'', ws_userID := 7, ws_username := ''ann'', ws_sessionID := ''s1'',
     ws_currentRoom := ''lobby''\<rparr>"
proof -
  have n: "node_of ann_listens = node_of logged_in"
    by (simp add: ann_listens_def OnLogin_def mute_env_def talk_env_def sys_wenv_def SubscribeTopic_def with_client_def)
  then show "node_of ann_listens = new_node" by simp
qed (simp_all add: ann_listens_def OnLogin_def mute_env_def talk_env_def sys_wenv_def SubscribeTopic_def, simp_all add: with_client_def)

lemma ann_listens_reachable: "reachable v (table_codec talk) ann_listens"
proof -
  let ?s1 = "fst (OnLogin mute_env 0 logged_in)"
  have n: "nconns ?s1 = 1" by (simp add: OnLogin_def mute_env_def talk_env_def sys_wenv_def)
  have "reachable v (table_codec talk) ?s1"
    by (rule reachable_step [OF reachable_samples(3) step.Spawn]) (simp_all add: pid_new_def)
  then have "reachable v (table_codec talk) (with_client 0 (\<lambda>x. x\<lparr>ws_currentRoom := ''lobby''\<rparr>) ?s1)"
    by (rule reachable_step) (rule step.EnterRoom, simp add: n)
  then show ?thesis
    unfolding ann_listens_def by (rule reachable_step) (rule step.Subscribe, simp add: n)
qed

text \<open>The lobby on its home node, opened by ann's request to join, and what she then says there.\<close>

lemma talk_requests:
  "MsgId (sample_rpc talk 1) = MsgId_PChatJoinRoomReq" "MsgId (sample_rpc talk 2) = MsgId_PChatSendMessageReq"
  "decode (table_codec talk) ''ChatJoinRoomReq'' (sample_rpc talk 1) = Some (proto_msg.ChatJoinRoomReq ''lobby'' 7 ''ann'')"
  "decode (table_codec talk) ''ChatSendMessageReq'' (sample_rpc talk 2) =
     Some (proto_msg.ChatSendMessageReq ''lobby'' 7 ''ann'' ''hi'' ChatMsgType_TEXT)"
  by (simp_all add: sample_decode talk_nth) (simp_all add: sample_rpc_def talk_nth msg_id_def MsgId_value_def MsgId_value_entries_def)

lemma lobby_with_ann:
  assumes "sys_rooms s = []" "node_of s = new_node" "reachable v (table_codec talk) s" "\<not> elsewhere v ''chat'' ''lobby''"
  obtains s' g where "reachable v (table_codec talk) s'" "step v (table_codec talk) s s'" "mget (sys_rooms s') ''lobby'' = Some g"
    "mhas (members g) 7" "same_ws s s'"
proof -
  have "roomReg s = NewRoomRegistry" using assms(2) node_of_simps(2) [of s] by (simp add: new_node_def)
  then have "room_registry_wf (roomReg s)" by (simp add: wf_intros)
  with join_new [of s "''lobby''" "sample_rpc talk 1" "sys_genv talk"] talk_requests(1,3) assms(1) obtain s' r g where
    r: "grain_request (sys_genv talk) ''lobby'' ''chat'' (Envelope (sample_rpc talk 1)) s = Ok (Some (s', r))"
      "mget (sys_rooms s') ''lobby'' = Some g" "mhas (members g) 7"
    by (fastforce simp: sys_genv_def mget_def)
  then have "step v (table_codec talk) s s'" using assms(4) by (intro step.Call [OF _ _ _ r(1)]) simp_all
  from that [OF reachable_step [OF assms(3) this] this r(2,3) grain_request_ws [OF r(1)]] show thesis .
qed

text \<open>Ann said hi.\<close>

lemma talk_spoken:
  obtains s b where "reachable alone (table_codec talk) s" "conns s = conns ann_listens" "nconns s = 1"
    "spawned s = [(''$1'', NewWebSocketGrain 0 7 ''s1'')]" "subs s = [(''lobby'', Some ''$1'')]"
    "marshal (table_codec talk) (proto_msg.ChatUserMessage (Some hi)) = Some b" "(''lobby'', broadcast_of hi b) \<in> set (published s)"
proof -
  obtain s g where s: "reachable alone (table_codec talk) s" "mget (sys_rooms s) ''lobby'' = Some g" "mhas (members g) 7"
    "same_ws ann_listens s"
    by (rule lobby_with_ann [OF ann_listens_simps(4,5) ann_listens_reachable [of alone]]) (simp only: alone_simps not_False_eq_True)
  have g: "chat_inv g (node_of s)" "gIdentity g = ''lobby''"
    using reachable_inv [OF s(1)] s(2) by (simp_all add: sys_inv_def grains_inv_def grain_maps_ok_def called_def)
  define x where "x = conns ann_listens 0"
  have hi: "sent_message (sys_genv talk) x ''hi'' = hi" by (simp add: hi_def sent_message_def sys_genv_def x_def)
  from talk_codecs(2) obtain b where b: "marshal (table_codec talk) (proto_msg.ChatUserMessage (Some hi)) = Some b"
    by (auto simp: codec_rt_def)
  have x: "ws_currentRoom x = ''lobby''" "mhas (members g) (ws_userID x)" "ws_userID x = 7" "ws_username x = ''ann''"
    using s(3) by (simp_all add: x_def)
  have d: "decode (table_codec talk) ''ChatSendMessageReq'' (sample_rpc talk 2) =
      Some (proto_msg.ChatSendMessageReq ''lobby'' (ws_userID x) (ws_username x) ''hi'' ChatMsgType_TEXT)"
    using talk_requests(4) x by simp
  have m: "marshal (table_codec talk) (proto_msg.ChatUserMessage (Some (sent_message (sys_genv talk) x ''hi''))) = Some b"
    unfolding hi by (rule b)
  from send_served [OF s(2) g sys_env_ok(1) x(1,2) talk_requests(2) d m] obtain s' r where
    s': "grain_request (sys_genv talk) ''lobby'' ''chat'' (Envelope (sample_rpc talk 2)) s = Ok (Some (s', Some r))"
    "published s' = published s @ [(''lobby'', broadcast_of hi b)]"
    unfolding hi by metis
  have "reachable alone (table_codec talk) s'" by (rule reachable_step [OF s(1) step.Call [OF _ _ _ s'(1)]]) simp_all
  then show thesis
    using s(4) grain_request_ws [OF s'(1)] s'(2) b by (intro that [of s' b]) (simp_all add: same_ws_def)
qed

end
