(* ===== verification/Delivery.thy ===== *)
theory Delivery
  imports RoomTurns
begin

text \<open>
  What lasts on a node: the stream of messages to a connection, which only grows at its end; subscriptions
  and actors, which never end; and membership, which only a request to leave or the end of the room's actor ends.
\<close>

section \<open>The stream of a connection\<close>

lemma terminated_none [simp]: "\<exists>ms. terminated ms = []"
  by (rule exI [of _ "[]"]) simp

lemma send_stream:
  assumes "sendToClient e c m s = Ok s'"
  shows "conn_open (conns s' d) = conn_open (conns s d) \<and> (\<exists>ms. stream (conns s' d) = stream (conns s d) @ terminated ms)"
proof (cases "jenc e m")
  case None
  with assms show ?thesis by (auto simp: sendToClient_def intro: exI [of _ "[]"])
next
  case (Some b)
  show ?thesis
  proof (cases rule: select_send_cases [of "ws_send (conns s c)" b])
    case 1
    with assms Some show ?thesis by (simp add: sendToClient_def)
  next
    case 2
    with assms Some have s': "s' = with_client c (\<lambda>x. x\<lparr>ws_send := (ws_send x)\<lparr>buf := buf (ws_send x) @ [b]\<rparr>\<rparr>) s"
      by (simp add: sendToClient_def with_client_def)
    show ?thesis
      unfolding s' by (intro conjI exI [of _ "if d = c then [b] else []"]) (simp_all add: stream_def wire_def)
  next
    case 3
    with assms Some have s': "s' = with_client c (\<lambda>x. x\<lparr>ws_send := (ws_send x)\<lparr>closed := True\<rparr>\<rparr>) s"
      by (simp add: sendToClient_def close_chan_def with_client_def)
    show ?thesis
      unfolding s' by (intro conjI exI [of _ "[]"]) (simp_all add: stream_def wire_def)
  qed
qed

text \<open>No step opens a closed connection, and what a step does to the stream of one that stays open is to add to
  its end.\<close>

lemma step_stream:
  assumes "step v cd s s'" "sys_inv cd s" "d < nconns s" "conn_open (conns s' d)"
  shows "conn_open (conns s d) \<and> (\<exists>ms. stream (conns s' d) = stream (conns s d) @ terminated ms)"
proof -
  have same: ?thesis if "conn_open (conns s' d) = conn_open (conns s d)" "written (conns s' d) = written (conns s d)"
    "ws_send (conns s' d) = ws_send (conns s d)"
    using assms(4) that by (auto simp: stream_def wire_def intro: exI [of _ "[]"])
  from assms(1) show ?thesis
  proof cases
    case (Connect ok)
    then show ?thesis using assms(3) by (intro same) (simp_all add: HandleWebSocket_def)
  next
    case (Call ge i k am r)
    then show ?thesis using grain_request_ws [OF Call(4)] by (intro same) (simp_all add: same_ws_def)
  next
    case (StopGrain k i)
    then show ?thesis using stop_grain_ws [of s k i] by (intro same) (simp_all add: same_ws_def)
  next
    case (Send c e m)
    with send_stream [OF Send(2), of d] assms(4) show ?thesis by simp
  next
    case (Register c q)
    then show ?thesis by (intro same) (simp_all add: login_register_def with_client_def split: prod.split)
  next
    case (Spawn c e)
    then show ?thesis
      by (intro same) (simp_all add: OnLogin_def Let_def with_client_def split: option.split)
  next
    case (Write c p ev x b)
    then show ?thesis
      using writePump_stream [OF Write(3)] assms(4)
      by (cases "d = c") (auto simp: with_client_def intro: exI [of _ "[]"])
  next
    case (ActorTurn p g am ctx e g' s1 r)
    have ok: "actor_ok (nconns s) g" using assms(2) conn_invD(5) [OF _ ActorTurn(2)] by (simp add: sys_inv_def)
    from ActorTurn(6) ok ActorTurn(4) show ?thesis
    proof (cases rule: ws_receive)
      case (chat m c)
      from send_stream [OF chat(5), of d] assms(4) ActorTurn(1) show ?thesis by simp
    next
      case start
      then have "conns s' = conns s" using ActorTurn(1) by simp
      then show ?thesis by (intro same) simp_all
    next
      case quiet
      then have "conns s' = conns s" using ActorTurn(1) by simp
      then show ?thesis by (intro same) simp_all
    qed
  next
    case (EnterRoom c r)
    then show ?thesis by (intro same) (simp_all add: with_client_def)
  next
    case (Subscribe c e t)
    then show ?thesis by (intro same) (simp_all add: SubscribeTopic_def)
  next
    case (Unregister c)
    then show ?thesis by (intro same) (simp_all add: unregisterClient_def)
  next
    case (CloseConn c)
    with assms(4) show ?thesis by (cases "d = c") (simp_all add: Close_def with_client_def)
  qed
qed

text \<open>Connections, subscriptions and actors only come: none of them ever goes.\<close>

definition only_comes :: "sys_state \<Rightarrow> sys_state \<Rightarrow> bool" where
  "only_comes s s' \<longleftrightarrow> nconns s \<le> nconns s' \<and> set (subs s) \<subseteq> set (subs s') \<and>
     (\<forall>(p, g) \<in> set (spawned s). \<exists>g'. (p, g') \<in> set (spawned s') \<and> wc g' = wc g)"

lemma only_comes_refl [simp]: "only_comes s s"
  by (auto simp: only_comes_def)

lemma only_comes_actor: "only_comes s s' \<Longrightarrow> (p, h) \<in> set (spawned s) \<Longrightarrow> \<exists>h'. (p, h') \<in> set (spawned s') \<and> wc h' = wc h"
  unfolding only_comes_def by blast

lemma only_comes_trans: "only_comes s1 s2 \<Longrightarrow> only_comes s2 s3 \<Longrightarrow> only_comes s1 s3"
  unfolding only_comes_def by fastforce

lemma only_comes_same: "nconns s' = nconns s \<Longrightarrow> subs s' = subs s \<Longrightarrow> spawned s' = spawned s \<Longrightarrow> only_comes s s'"
  by (auto simp: only_comes_def)

lemma step_only_comes:
  assumes "step v cd s s'" "sys_inv cd s"
  shows "only_comes s s'"
  using assms(1)
proof cases
  case (Call ge i k am r)
  then show ?thesis using grain_request_ws [OF Call(4)] by (intro only_comes_same) (simp_all add: same_ws_def)
next
  case (StopGrain k i)
  then show ?thesis using stop_grain_ws [of s k i] by (intro only_comes_same) (simp_all add: same_ws_def)
next
  case (Send c e m)
  then show ?thesis using only_sendD [OF sendToClient_frame [OF Send(2)]] by (intro only_comes_same)
next
  case (Spawn c e)
  then show ?thesis by (auto simp: only_comes_def OnLogin_def Let_def split: option.split)
next
  case (ActorTurn p g am ctx e g' s1 r)
  have ok: "actor_ok (nconns s) g" using assms(2) conn_invD(5) [OF _ ActorTurn(2)] by (simp add: sys_inv_def)
  have u: "h = g" if "(p, h) \<in> set (spawned s)" for h
    using assms(2) ActorTurn(2) that by (auto simp: sys_inv_def conn_inv_def dest: eq_key_imp_eq_value)
  have "wc g' = wc g \<and> nconns s1 = nconns s \<and> subs s1 = subs s \<and> spawned s1 = spawned s"
    using ActorTurn(6) ok ActorTurn(4)
  proof (cases rule: ws_receive)
    case (chat m c)
    with only_sendD [OF sendToClient_frame [OF chat(5)]] show ?thesis by simp
  qed simp_all
  note r = this
  have "\<exists>g2. (q, g2) \<in> set (spawned s') \<and> wc g2 = wc g1" if "(q, g1) \<in> set (spawned s)" for q g1
  proof (cases "q = p")
    case True
    with that u r show ?thesis by (intro exI [of _ g']) (force simp: ActorTurn(1) set_actor_def)
  next
    case False
    with that r show ?thesis by (intro exI [of _ g1]) (force simp: ActorTurn(1) set_actor_def)
  qed
  with r show ?thesis by (auto simp: only_comes_def ActorTurn(1))
qed (auto simp: only_comes_def HandleWebSocket_def login_register_def with_client_def SubscribeTopic_def unregisterClient_def Close_def
    split: prod.splits)

text \<open>The same along any sequence of steps.\<close>

lemma steps_inv: "(step v cd)\<^sup>*\<^sup>* s s' \<Longrightarrow> sys_inv cd s \<Longrightarrow> sys_inv cd s'"
  by (induction rule: rtranclp_induct) (auto intro: step_inv)

lemma steps_only_comes:
  assumes "(step v cd)\<^sup>*\<^sup>* s s'" "sys_inv cd s"
  shows "only_comes s s'"
  using assms(1)
proof (induction rule: rtranclp_induct)
  case (step s1 s2)
  from step_only_comes [OF step(2) steps_inv [OF step(1) assms(2)]] step(3) show ?case
    by (rule only_comes_trans [rotated])
qed simp

lemma steps_stream:
  assumes "(step v cd)\<^sup>*\<^sup>* s s'" "sys_inv cd s" "d < nconns s" "conn_open (conns s' d)"
  shows "conn_open (conns s d) \<and> (\<exists>ms. stream (conns s' d) = stream (conns s d) @ terminated ms)"
  using assms(1,4)
proof (induction rule: rtranclp_induct)
  case base
  then show ?case by (auto intro: exI [of _ "[]"])
next
  case (step s1 s2)
  have d: "d < nconns s1" using steps_only_comes [OF step(1) assms(2)] assms(3) by (simp add: only_comes_def)
  from step_stream [OF step(2) steps_inv [OF step(1) assms(2)] d step(4)] obtain ms where
    1: "conn_open (conns s1 d)" "stream (conns s2 d) = stream (conns s1 d) @ terminated ms" by blast
  from step(3) [OF 1(1)] obtain ns where "conn_open (conns s d)" "stream (conns s1 d) = stream (conns s d) @ terminated ns"
    by blast
  with 1 show ?case by (intro conjI exI [of _ "ns @ ms"]) simp_all
qed

text \<open>C29: Nothing is lost, doubled or overtaken on the way to the screen. Take what a connection has put on the
  wire together with what waits in its send buffer as one stream of messages, each ended by a newline:
  whatever the node does, as long as the connection stays open the stream only grows by whole messages at
  its end, whether they were sent by its own handlers or by its actor, and however rounds of the write
  loop fall in between. A round of the write loop with something to send and a working connection puts the
  whole stream on the wire; and since JSON texts hold no raw newline, splitting it into lines gives back
  the messages.\<close>

theorem delivered_in_order:
  assumes "reachable v cd s" "(step v cd)\<^sup>*\<^sup>* s s'" "c < nconns s" "conn_open (conns s' c)"
  shows "(\<exists>ms. stream (conns s' c) = stream (conns s c) @ terminated ms \<and>
      ((\<forall>m \<in> set ms. 10 \<notin> set m) \<longrightarrow> lines_of (terminated ms) = ms @ [[]])) \<and>
    (buf (ws_send (conns s' c)) \<noteq> [] \<longrightarrow> writer_ok p \<longrightarrow> flush_ok p \<longrightarrow>
      (\<exists>x. writePump p TakeMessage (conns s' c) = Some (x, True) \<and> step v cd s' (with_client c (\<lambda>_. x) s') \<and>
         wire x = stream (conns s' c) \<and> buf (ws_send x) = []))"
proof (intro conjI impI)
  have inv: "sys_inv cd s" by (rule reachable_inv [OF assms(1)])
  from steps_stream [OF assms(2) inv assms(3,4)] lines_terminated
  show "\<exists>ms. stream (conns s' c) = stream (conns s c) @ terminated ms \<and>
      ((\<forall>m \<in> set ms. 10 \<notin> set m) \<longrightarrow> lines_of (terminated ms) = ms @ [[]])" by blast
  assume "buf (ws_send (conns s' c)) \<noteq> []" "writer_ok p" "flush_ok p"
  then obtain x w where x: "writePump p TakeMessage (conns s' c) = Some (x, True)"
    "written x = written (conns s' c) @ [TextFrame w]" "ws_send x = (ws_send (conns s' c))\<lparr>buf := []\<rparr>"
    "w @ [10] = terminated (buf (ws_send (conns s' c)))"
    by (rule write_round)
  have "c < nconns s'" using steps_only_comes [OF assms(2) inv] assms(3) by (simp add: only_comes_def)
  with x show "\<exists>x. writePump p TakeMessage (conns s' c) = Some (x, True) \<and> step v cd s' (with_client c (\<lambda>_. x) s') \<and>
      wire x = stream (conns s' c) \<and> buf (ws_send x) = []"
    by (intro exI [of _ x]) (auto simp: wire_def stream_def intro: step.Write)
qed

theorem delivered_in_order_witness:
  "\<exists>s x. reachable alone (table_codec talk) s \<and> buf (ws_send (conns s 0)) = [[1], [1]] \<and>
     writePump \<lparr>writer_ok = True, flush_ok = True, ping_ok = True\<rparr> TakeMessage (conns s 0) = Some (x, True) \<and>
     wire x = [1, 10, 1, 10] \<and> buf (ws_send x) = []"
proof -
  let ?x = "\<lambda>ms x. x\<lparr>ws_send := (ws_send x)\<lparr>buf := buf (ws_send x) @ ms\<rparr>\<rparr>"
    and ?p = "\<lparr>writer_ok = True, flush_ok = True, ping_ok = True\<rparr>"
  let ?s1 = "with_client 0 (?x [[1]]) ann_listens" let ?s2 = "with_client 0 (?x [[1]]) ?s1"
  have e: "jenc mute_env (notice ''a'' ''b'') = Some [1]" by (simp add: mute_env_def talk_env_def sys_wenv_def)
  have 1: "sendToClient mute_env 0 (notice ''a'' ''b'') ann_listens = Ok ?s1"
    "sendToClient mute_env 0 (notice ''a'' ''b'') ?s1 = Ok ?s2"
    by (rule sendToClient_room [OF e]; simp add: NewWSClient_def make_chan_def)+
  have "step alone (table_codec talk) ann_listens ?s1" by (rule step.Send [OF _ 1(1)]) simp
  moreover have "step alone (table_codec talk) ?s1 ?s2" by (rule step.Send [OF _ 1(2)]) simp
  ultimately have r: "(step alone (table_codec talk))\<^sup>*\<^sup>* ann_listens ?s2" by (meson r_into_rtranclp rtranclp_trans)
  have c: "buf (ws_send (conns ?s2 0)) = [[1], [1]]" "written (conns ?s2 0) = []" "conn_open (conns ?s2 0)"
    by (simp_all add: with_client_def NewWSClient_def make_chan_def)
  have w: "wire (conns ?s2 0) = []" by (simp only: wire_def c) simp
  have "reachable alone (table_codec talk) ?s2"
    using ann_listens_reachable r by (auto simp: reachable_def intro: rtranclp_trans)
  moreover from delivered_in_order [OF ann_listens_reachable r _ c(3), of ?p] c(1) w obtain x where
    "writePump ?p TakeMessage (conns ?s2 0) = Some (x, True)" "wire x = [1, 10, 1, 10]" "buf (ws_send x) = []"
    by (auto simp: stream_def)
  ultimately show ?thesis using c(1) by blast
qed

section \<open>Leaving does not unsubscribe\<close>


text \<open>Ann leaves the lobby, which is on another node, after she said hi there; the answer to her request is that
  she has left.\<close>

definition left_view :: "bytes \<Rightarrow> view" where
  "left_view b = \<lparr>elsewhere = \<lambda>k i. True, foreign = {(''lobby'', broadcast_of hi b)}\<rparr>"

definition leave_env :: "bytes \<Rightarrow> sys_env" where
  "leave_env b = mute_env\<lparr>spawn_pid := None, wcluster := \<lambda>s i k m. (s, Replied (request_of '''' i k '''' (ChatLeaveRoomResp ErrorCode_OK t_left_room) b))\<rparr>"

lemma leave_env_ok: "env_ok (left_view b) (table_codec talk) (leave_env d) ann_listens"
proof -
  have "serves (left_view b) (sys_genv talk) (wcluster (leave_env d))" "serves_raw (left_view b) (sys_genv talk) (raw_request (leave_env d))"
    by (simp_all add: serves_def serves_raw_def leave_env_def mute_env_def talk_env_def sys_wenv_def left_view_def)
  moreover have "grain_env_ok (table_codec talk) (sys_genv talk)" by simp
  ultimately show ?thesis
    unfolding env_ok_def by (intro conjI exI [of _ "sys_genv talk"]) (auto simp: leave_env_def mute_env_def talk_env_def sys_wenv_def)
qed


section \<open>Who is in stays in\<close>

definition in_room :: "sys_state \<Rightarrow> string \<Rightarrow> int \<Rightarrow> bool" where
  "in_room s i u \<longleftrightarrow> (\<exists>g. mget (sys_rooms s) i = Some g \<and> mhas (members g) u)"

text \<open>A step at which a user goes: he is in the room before it and not after it, and it is that his request to
  leave is handled, or that the room's actor stops and forgets everybody.\<close>

definition lets_go :: "codec \<Rightarrow> string \<Rightarrow> int \<Rightarrow> sys_state \<Rightarrow> sys_state \<Rightarrow> bool" where
  "lets_go cd i u s s' \<longleftrightarrow> in_room s i u \<and> \<not> in_room s' i u \<and>
     (s' = stop_grain ''chat'' i s \<or>
      (\<exists>ge q r room name. grain_request ge i ''chat'' (Envelope q) s = Ok (Some (s', r)) \<and>
         MsgId q = MsgId_PChatLeaveRoomReq \<and> decode cd ''ChatLeaveRoomReq'' q = Some (proto_msg.ChatLeaveRoomReq room u name)))"

lemma chat_keeps_members:
  assumes "chat_invoke e h g w m = Ok (g', w', r, c)" "mhas (members g) u"
  shows "mhas (members g') u \<or> (h = HLeaveRoom \<and>
    (\<exists>room name. decode (codec_of e) ''ChatLeaveRoomReq'' m = Some (proto_msg.ChatLeaveRoomReq room u name)))"
  using assms by (cases h) (auto simp: handler_defs Let_def obind_Ok_iff split: option.splits proto_msg.splits if_splits)

lemma request_lets_go:
  assumes "grain_request ge j k am s = Ok (Some (s', r))" "grain_env_ok cd ge" "grains_inv cd s" "in_room s i u" "\<not> in_room s' i u"
  shows "lets_go cd i u s s'"
proof -
  let ?ctx = "grain_ctx ge ''chat'' i"
  have cd: "codec_of (ge_chat ge) = cd" using assms(2) by (simp add: grain_env_ok_def)
  from assms(4) obtain g where g: "mget (sys_rooms s) i = Some g" "mhas (members g) u" by (auto simp: in_room_def)
  from assms(1,4,5) have k: "k = ''chat'' \<and> j = i"
    by (auto simp: grain_request_def obind_Ok_iff Let_def in_room_def split: if_splits)
  with assms(1) g(1) obtain g' w where t: "Receive cd (chat_invoke (ge_chat ge)) ?ctx am g (node_of s) = Ok (g', w, r)"
    "mget (sys_rooms s') i = Some g'"
    by (auto simp: grain_request_def obind_Ok_iff Let_def cd grain_turn_def)
  with assms(5) have out: "\<not> mhas (members g') u" by (auto simp: in_room_def)
  show ?thesis
  proof (cases am)
    case Started
    with t(1) have "g' = fst (onStarted ?ctx g (node_of s))" by (auto simp: Receive_def split: prod.splits)
    with g(2) out show ?thesis by simp
  next
    case (Envelope m)
    from out g(2) have "g' \<noteq> g" by auto
    with Envelope t(1) obtain h x c where h: "find_handler g (MsgId m) = Some h" "chat_invoke (ge_chat ge) h g (node_of s) m = Ok (g', w, x, c)"
      by (auto simp: Receive_def obind_Ok_iff split: option.splits)
    from chat_keeps_members [OF h(2) g(2)] out obtain room name where l: "h = HLeaveRoom"
      "decode cd ''ChatLeaveRoomReq'' m = Some (proto_msg.ChatLeaveRoomReq room u name)" by (auto simp: cd)
    have "chat_inv g (node_of s)" using assms(3) g(1) by (auto simp: grains_inv_def grain_maps_ok_def)
    then have "MsgId m = MsgId_PChatLeaveRoomReq"
      using h(1) l(1) by (auto simp: chat_invD(8) chat_table_def mget_def split: if_splits)
    with l(2) assms(1,4,5) k Envelope show ?thesis unfolding lets_go_def by blast
  qed (use t(1) g(2) out in \<open>simp add: Receive_def\<close>)
qed

text \<open>Only the steps of the grains change who is in a room.\<close>

lemma step_lets_go:
  assumes "step v cd s s'" "sys_inv cd s" "in_room s i u" "\<not> in_room s' i u"
  shows "lets_go cd i u s s'"
proof -
  have same: ?thesis if "sys_rooms s' = sys_rooms s" using that assms(3,4) by (simp add: in_room_def)
  from assms(1) show ?thesis
  proof cases
    case (Call ge j k am r)
    show ?thesis by (rule request_lets_go [OF Call(4,1) _ assms(3,4)]) (use assms(2) in \<open>simp add: sys_inv_def\<close>)
  next
    case (StopGrain k j)
    with assms(3,4) have "k = ''chat'' \<and> j = i" by (auto simp: stop_grain_def in_room_def split: if_splits)
    with StopGrain assms(3,4) show ?thesis by (simp add: lets_go_def)
  next
    case (Send c e m)
    with same_grains_send [OF Send(2)] show ?thesis by (intro same) (simp add: same_grains_def)
  next
    case (ActorTurn p g am ctx e g' s1 r)
    have ok: "actor_ok (nconns s) g" using assms(2) conn_invD(5) [OF _ ActorTurn(2)] by (simp add: sys_inv_def)
    from ActorTurn(6) ok ActorTurn(4) have "sys_rooms s1 = sys_rooms s"
    proof (cases rule: ws_receive)
      case (chat m c)
      from same_grains_send [OF chat(5)] show ?thesis by (simp add: same_grains_def)
    qed simp_all
    then show ?thesis by (intro same) (simp add: ActorTurn(1) set_actor_def)
  qed (rule same; simp add: HandleWebSocket_def login_register_def with_client_def SubscribeTopic_def unregisterClient_def
      Close_def OnLogin_def Let_def split: prod.split option.split)+
qed

text \<open>Logging out talks to the user's grain only.\<close>

lemma user_call_keeps:
  "grain_request ge i ''user'' am s = Ok (Some (s', r)) \<Longrightarrow> sys_rooms s' = sys_rooms s \<and> conns s' = conns s"
  using grain_request_ws [of ge i "''user''" am s s' r] by (auto simp: grain_request_def obind_Ok_iff Let_def same_ws_def)

lemma logout_keeps:
  assumes "handleLogout (e :: sys_env) c s = Ok s'" "env_ok v cd e s"
  shows "sys_rooms s' = sys_rooms s \<and> ws_userID (conns s' c) = ws_userID (conns s c) \<and>
    ws_currentRoom (conns s' c) = ws_currentRoom (conns s c)"
proof (cases "ws_userID (conns s c) = 0")
  case False
  define i q where "i = ''user-'' @ show_int (ws_userID (conns s c))"
    and "q = proto_msg.ChatLogoutReq (ws_userID (conns s c)) (ws_sessionID (conns s c))"
  note iq = this
  define s1 where "s1 = raw_request e i ''user'' q s"
  from assms(2) obtain ge where ge: "serves v ge (wcluster e)" "serves_raw v ge (raw_request e)" by (auto simp: env_ok_def)
  have 1: "sys_rooms s1 = sys_rooms s \<and> conns s1 = conns s"
    unfolding s1_def using ge(2) [unfolded serves_raw_def, rule_format, where i = i and k = "''user''" and q = q and s = s] user_call_keeps by auto
  have k: "sys_rooms s2 = sys_rooms s1 \<and> conns s2 = conns s1" if "wcluster e s1 i ''user'' m = (s2, x)" for m s2 x
    using ge(1) [unfolded serves_def, rule_format, where i = i and k = "''user''" and m = m and s = s1] that user_call_keeps
    by (auto split: if_splits)
  from assms(1) [unfolded handleLogout_def Let_def if_not_P [OF False] obind_Ok_iff, folded iq, folded s1_def] obtain s2 r where
    rpc: "Rpc (wcluster e) (wcodec e) (wtrace e) i ''user'' ''Logout'' q s1 = Ok (s2, r)" and
    fin: "(case r of Inl err \<Rightarrow> sendToClient e c (notice ''error'' t_logout_failed) s2
       | Inr (ChatLogoutResp code m) \<Rightarrow>
           if code = ErrorCode_OK then sendToClient e c (notice ''logout_success'' t_logged_out) (unregisterClient c s2)
           else sendToClient e c (notice ''error'' m) s2
       | Inr _ \<Rightarrow> sendToClient e c (notice ''error'' t_logout_failed) s2) = Ok s'"
    by auto
  have "\<exists>m x. sendToClient e c m x = Ok s' \<and> (x = s2 \<or> x = unregisterClient c s2)"
    using fin by (auto split: sum.splits proto_msg.splits if_splits)
  then obtain x where x: "only_send c x s'" "x = s2 \<or> x = unregisterClient c s2" using sendToClient_frame by blast
  then have "sys_rooms s' = sys_rooms s2 \<and> ws_userID (conns s' c) = ws_userID (conns s2 c) \<and>
      ws_currentRoom (conns s' c) = ws_currentRoom (conns s2 c)"
    by (auto simp: only_send_def unregisterClient_def with_client_def)
  moreover have "sys_rooms s2 = sys_rooms s \<and> conns s2 = conns s"
    using rpc 1 by (auto simp: Rpc_def RequestFuture_def obind_Ok_iff Let_def dest!: k
        split: if_splits option.splits prod.splits call_result.splits)
  ultimately show ?thesis by simp
qed (use assms(1) in \<open>simp add: handleLogout_def\<close>)

text \<open>C11: Ghosts. A member of a room is in it until a request to leave with his user id is handled by the room,
  or the room's actor is stopped: if he is in at one time and not at a later one, there was such a step in
  between. The end of his connection is none: when a read loop ends, the connection is closed and its user
  deregistered, and he still is in every room he was in, counts towards its limit, and is listed among its
  users. Nor is logging out: it leaves every room as it is, and the connection with its user id and its
  current room.\<close>

theorem members_leave_by_request:
  assumes "reachable v cd s" "(step v cd)\<^sup>*\<^sup>* s s'" "in_room s i u"
  shows "(in_room s' i u \<or> (\<exists>s1 s2. (step v cd)\<^sup>*\<^sup>* s s1 \<and> in_room s1 i u \<and> step v cd s1 s2 \<and> \<not> in_room s2 i u \<and>
      lets_go cd i u s1 s2 \<and> (step v cd)\<^sup>*\<^sup>* s2 s')) \<and>
    (\<exists>s2. readPump c [(e, ReadError)] s = Ok (s2, True) \<and> \<not> conn_open (conns s2 c) \<and> in_room s2 i u) \<and>
    (\<forall>e2 s3. env_ok v cd e2 s \<and> handleLogout e2 c s = Ok s3 \<longrightarrow> in_room s3 i u \<and>
      ws_userID (conns s3 c) = ws_userID (conns s c) \<and> ws_currentRoom (conns s3 c) = ws_currentRoom (conns s c))"
proof (intro conjI allI impI)
  have inv: "sys_inv cd s" by (rule reachable_inv [OF assms(1)])
  from assms(2) show "in_room s' i u \<or> (\<exists>s1 s2. (step v cd)\<^sup>*\<^sup>* s s1 \<and> in_room s1 i u \<and> step v cd s1 s2 \<and> \<not> in_room s2 i u \<and>
      lets_go cd i u s1 s2 \<and> (step v cd)\<^sup>*\<^sup>* s2 s')"
  proof (induction rule: rtranclp_induct)
    case (step x y)
    from step(3) show ?case
    proof
      assume x: "in_room x i u"
      show ?thesis
      proof (cases "in_room y i u")
        case False
        from step_lets_go [OF step(2) steps_inv [OF step(1) inv] x False] step(1,2) x False
        show ?thesis by (intro disjI2 exI [of _ x] exI [of _ y]) simp
      qed simp
    next
      assume "\<exists>s1 s2. (step v cd)\<^sup>*\<^sup>* s s1 \<and> in_room s1 i u \<and> step v cd s1 s2 \<and> \<not> in_room s2 i u \<and>
        lets_go cd i u s1 s2 \<and> (step v cd)\<^sup>*\<^sup>* s2 x"
      with step(2) show ?thesis by (meson rtranclp.rtrancl_into_rtrancl)
    qed
  qed (use assms(3) in simp)
  show "\<exists>s2. readPump c [(e, ReadError)] s = Ok (s2, True) \<and> \<not> conn_open (conns s2 c) \<and> in_room s2 i u"
    using assms(3) by (simp add: in_room_def with_client_def unregisterClient_def)
  fix e2 s3 assume "env_ok v cd e2 s \<and> handleLogout e2 c s = Ok s3"
  with logout_keeps [of e2 c s s3 v cd] have k: "sys_rooms s3 = sys_rooms s"
    "ws_userID (conns s3 c) = ws_userID (conns s c)" "ws_currentRoom (conns s3 c) = ws_currentRoom (conns s c)" by simp_all
  from k(1) assms(3) show "in_room s3 i u" by (simp add: in_room_def)
  show "ws_userID (conns s3 c) = ws_userID (conns s c)" "ws_currentRoom (conns s3 c) = ws_currentRoom (conns s c)" by (fact k)+
qed

text \<open>Ann is in the lobby; it stops.\<close>

theorem members_leave_by_request_witness:
  "\<exists>s s1 s2. in_room s ''lobby'' 7 \<and> \<not> in_room (stop_grain ''chat'' ''lobby'' s) ''lobby'' 7 \<and>
    in_room s1 ''lobby'' 7 \<and> \<not> in_room s2 ''lobby'' 7 \<and> lets_go (table_codec talk) ''lobby'' 7 s1 s2"
proof -
  obtain s g where s: "reachable alone (table_codec talk) s" "mget (sys_rooms s) ''lobby'' = Some g" "mhas (members g) 7"
    by (rule lobby_with_ann [OF ann_listens_simps(4,5) ann_listens_reachable [of alone]]) (simp only: alone_simps not_False_eq_True)
  have i: "in_room s ''lobby'' 7" "\<not> in_room (stop_grain ''chat'' ''lobby'' s) ''lobby'' 7"
    using s(2,3) by (simp_all add: in_room_def stop_grain_def)
  have st: "(step alone (table_codec talk))\<^sup>*\<^sup>* s (stop_grain ''chat'' ''lobby'' s)"
    by (rule r_into_rtranclp [of "step alone (table_codec talk)", OF step.StopGrain])
  from conjunct1 [OF members_leave_by_request [OF s(1) st i(1)]] i show ?thesis by blast
qed

end
