(* ===== verification/Cluster.thy ===== *)
theory Cluster
  imports SystemProps
begin

text \<open>
  A cluster of nodes. Each node is a \<open>sys_state\<close> and takes its own steps; what joins the nodes is that
  every grain has one home (the framework's identity lookup, a parameter), that a request to a grain
  runs at its home, and that what is published anywhere is delivered to subscribers everywhere. The
  theorem of composition (\<open>creachable_node\<close>) is that every node of a reachable cluster is in a state
  that is reachable for a node with this view of the others, so that the properties of a node hold
  for each node of a cluster. The members of the cluster do not change.
\<close>

section \<open>Steps of a cluster\<close>

type_synonym cluster_state = "nat \<Rightarrow> sys_state"

type_synonym placement = "string \<Rightarrow> string \<Rightarrow> nat"

definition view_of :: "placement \<Rightarrow> cluster_state \<Rightarrow> nat \<Rightarrow> view" where
  "view_of home \<sigma> n = \<lparr>elsewhere = (\<lambda>k i. home k i \<noteq> n), foreign = (\<Union>j \<in> - {n}. set (published (\<sigma> j)))\<rparr>"

inductive cstep :: "placement \<Rightarrow> codec \<Rightarrow> cluster_state \<Rightarrow> cluster_state \<Rightarrow> bool" for home cd where
  node: "step (view_of home \<sigma> n) cd (\<sigma> n) s' \<Longrightarrow> cstep home cd \<sigma> (\<sigma>(n := s'))"

definition creachable :: "placement \<Rightarrow> codec \<Rightarrow> cluster_state \<Rightarrow> bool" where
  "creachable home cd \<sigma> \<longleftrightarrow> (cstep home cd)\<^sup>*\<^sup>* (\<lambda>_. new_sys) \<sigma>"

lemma elsewhere_view [simp]: "elsewhere (view_of home \<sigma> n) k i \<longleftrightarrow> home k i \<noteq> n"
  by (simp add: view_of_def)

lemma foreign_view: "x \<in> foreign (view_of home \<sigma> n) \<longleftrightarrow> (\<exists>j. j \<noteq> n \<and> x \<in> set (published (\<sigma> j)))"
  by (auto simp: view_of_def)

lemma view_of_own [simp]: "view_of home (\<sigma>(n := s)) n = view_of home \<sigma> n"
  by (auto simp: view_of_def)

lemma creachable_step: "creachable home cd \<sigma> \<Longrightarrow> cstep home cd \<sigma> \<sigma>' \<Longrightarrow> creachable home cd \<sigma>'"
  unfolding creachable_def by (rule rtranclp.rtrancl_into_rtrancl)

lemma creachable_new [simp]: "creachable home cd (\<lambda>_. new_sys)"
  by (simp add: creachable_def)

lemma creachable_trans: "creachable home cd \<sigma> \<Longrightarrow> (cstep home cd)\<^sup>*\<^sup>* \<sigma> \<sigma>' \<Longrightarrow> creachable home cd \<sigma>'"
  unfolding creachable_def by (rule rtranclp_trans)

text \<open>A node that takes several steps.\<close>

lemma cstep_local:
  assumes "(step (view_of home \<sigma> n) cd)\<^sup>*\<^sup>* (\<sigma> n) s"
  shows "(cstep home cd)\<^sup>*\<^sup>* \<sigma> (\<sigma>(n := s))"
  using assms
proof (induction rule: rtranclp_induct)
  case base
  then show ?case by simp
next
  case (step y z)
  have "cstep home cd (\<sigma>(n := y)) ((\<sigma>(n := y))(n := z))"
    using step(2) by (intro cstep.node) simp
  then have "cstep home cd (\<sigma>(n := y)) (\<sigma>(n := z))" by (simp only: fun_upd_upd)
  with rtranclp.rtrancl_into_rtrancl [of "cstep home cd" \<sigma> "\<sigma>(n := y)" "\<sigma>(n := z)"] step(3) show ?case
    by blast
qed

section \<open>A node sees more and more\<close>

definition sees_more :: "view \<Rightarrow> view \<Rightarrow> bool" where
  "sees_more v v' \<longleftrightarrow> elsewhere v' = elsewhere v \<and> foreign v \<subseteq> foreign v'"

lemma env_ok_mono: "sees_more v v' \<Longrightarrow> env_ok v cd e s \<Longrightarrow> env_ok v' cd e s"
  by (simp add: sees_more_def env_ok_def serves_def serves_raw_def)

lemma actor_gets_mono: "sees_more v v' \<Longrightarrow> actor_gets v s p am \<Longrightarrow> actor_gets v' s p am"
  by (auto simp: sees_more_def actor_gets_def split: actor_msg.splits)

lemma step_mono:
  assumes "step v cd s s'" "sees_more v v'"
  shows "step v' cd s s'"
  using assms(1)
proof cases
  case (Call ge i k am r)
  with assms(2) show ?thesis by (auto simp: sees_more_def intro: step.Call)
next
  case (ActorTurn p g am ctx e g' s1 r)
  with actor_gets_mono [OF assms(2)] show ?thesis by (auto intro: step.ActorTurn)
qed (auto intro: step.intros)

lemma reachable_mono: "reachable v cd s \<Longrightarrow> sees_more v v' \<Longrightarrow> reachable v' cd s"
  unfolding reachable_def by (erule rtranclp_mono [THEN predicate2D, rotated]) (auto intro: step_mono)

lemma step_published:
  assumes "step v cd s s'" "sys_inv cd s"
  shows "set (published s) \<subseteq> set (published s')"
  using assms
proof (cases rule: step_node)
  case (call k i)
  then show ?thesis by (auto simp: node_grows_def)
qed simp

section \<open>Composition\<close>

theorem creachable_node:
  assumes "creachable home cd \<sigma>"
  shows "reachable (view_of home \<sigma> n) cd (\<sigma> n)"
  using assms unfolding creachable_def
proof (induction arbitrary: n rule: rtranclp_induct)
  case base
  show ?case by (simp add: reachable_def)
next
  case (step \<sigma> \<sigma>')
  from step(2) obtain m s' where m: "\<sigma>' = \<sigma>(m := s')" "step (view_of home \<sigma> m) cd (\<sigma> m) s'"
    by (auto elim: cstep.cases)
  show ?case
  proof (cases "n = m")
    case True
    with reachable_step [OF step(3) m(2)] show ?thesis by (simp only: m(1) view_of_own fun_upd_same)
  next
    case False
    have "set (published (\<sigma> m)) \<subseteq> set (published s')"
      by (rule step_published [OF m(2) reachable_inv [OF step(3)]])
    then have "set (published (\<sigma> j)) \<subseteq> set (published (\<sigma>' j))" for j by (simp add: m(1))
    then have "sees_more (view_of home \<sigma> n) (view_of home \<sigma>' n)"
      unfolding sees_more_def view_of_def by (auto intro!: UN_mono)
    moreover have "\<sigma>' n = \<sigma> n" using False by (simp add: m(1))
    ultimately show ?thesis using reachable_mono [OF step(3) [of n]] by metis
  qed
qed

text \<open>What a node does not have: grains, rooms in its list and publications of other nodes.\<close>

definition at_home :: "view \<Rightarrow> sys_state \<Rightarrow> bool" where
  "at_home v s \<longleftrightarrow>
     (\<forall>k i. is_active s k i \<longrightarrow> \<not> elsewhere v k i) \<and>
     (\<forall>k i. k \<in> grain_kinds \<and> listed (grainReg s) k i \<longrightarrow> \<not> elsewhere v k i) \<and>
     (\<forall>i. GetRoom i (roomReg s) \<noteq> None \<longrightarrow> \<not> elsewhere v ''chat'' i) \<and>
     (\<forall>(t, m) \<in> set (published s). \<not> elsewhere v ''chat'' t)"

lemma at_home_listed:
  assumes "registries_ok cd s" "\<And>k i. k \<in> grain_kinds \<Longrightarrow> listed (grainReg s) k i \<Longrightarrow> \<not> elsewhere v k i"
  shows "at_home v s"
proof -
  have "''chat'' \<in> grain_kinds" by (simp add: grain_kinds_def)
  with assms active_kind show ?thesis unfolding at_home_def registries_ok_def by blast
qed

lemma node_grows_listed:
  assumes "node_grows cd k i w w'" "k' \<in> grain_kinds" "k \<in> grain_kinds" "listed (grainReg w') k' j"
  shows "listed (grainReg w) k' j \<or> k' = k \<and> j = i"
  using assms grain_kinds_key [OF assms(2,3), of j i] unfolding node_grows_def listed_def by metis

lemma reachable_at_home: "reachable v cd s \<Longrightarrow> at_home v s"
proof -
  assume r: "reachable v cd s"
  have "\<forall>k i. k \<in> grain_kinds \<longrightarrow> listed (grainReg s) k i \<longrightarrow> \<not> elsewhere v k i"
    using r unfolding reachable_def
  proof (induction rule: rtranclp_induct)
    case base
    show ?case by (simp add: listed_def new_sys_def ws_state.defs NewWebSocketManager_def node.defs new_node_def NewGrainRegistry_def)
  next
    case (step s s')
    have "sys_inv cd s" using step(1) reachable_inv by (simp add: reachable_def)
    with step(2) show ?case
    proof (cases rule: step_node)
      case (call k i)
      with step(3) node_grows_listed [OF call(3) _ call(2)] show ?thesis by auto
    qed (use step(3) in simp)
  qed
  moreover have "registries_ok cd s" using reachable_inv [OF r] by (simp add: sys_inv_def grains_inv_def)
  ultimately show ?thesis by (intro at_home_listed) blast+
qed

text \<open>The invariants of the nodes of a cluster, and what is published where.\<close>

lemma creachable_inv: "creachable home cd \<sigma> \<Longrightarrow> sys_inv cd (\<sigma> n)"
  using creachable_node reachable_inv by blast

lemma creachable_at_home: "creachable home cd \<sigma> \<Longrightarrow> at_home (view_of home \<sigma> n) (\<sigma> n)"
  using creachable_node reachable_at_home by blast

lemma creachable_published:
  assumes "creachable home cd \<sigma>" "(t, m) \<in> set (published (\<sigma> n))"
  shows "home ''chat'' t = n \<and> room_message cd t m"
  using creachable_at_home [OF assms(1), of n] creachable_inv [OF assms(1), of n] assms(2)
  unfolding at_home_def sys_inv_def grains_inv_def registries_ok_def elsewhere_view by blast

lemma published_anywhere:
  "(t, m) \<in> set (published (\<sigma> n)) \<union> foreign (view_of home \<sigma> n) \<longleftrightarrow> (\<exists>j. (t, m) \<in> set (published (\<sigma> j)))"
  by (auto simp: foreign_view)

lemma creachable_foreign: "creachable home cd \<sigma> \<Longrightarrow> \<forall>(t, m) \<in> foreign (view_of home \<sigma> n). room_message cd t m"
  using creachable_published by (auto simp: foreign_view)

end
