(* ===== verification/ClusterProps.thy ===== *)
theory ClusterProps
  imports Cluster Delivery
begin

text \<open>
  The properties of a cluster of nodes: which node has what; messages stay in their rooms, on whatever
  node they are published and received; joining and sending from the client's message on one node to
  what it changes in the room on another and what it reaches everywhere.
\<close>

section \<open>Who has what\<close>

lemma cstep_listed:
  assumes "creachable home cd \<sigma>" "cstep home cd \<sigma> \<sigma>2" "k \<in> grain_kinds" "listed (grainReg (\<sigma> n)) k i"
  shows "listed (grainReg (\<sigma>2 n)) k i"
proof -
  from assms(2) obtain m s' where m: "\<sigma>2 = \<sigma>(m := s')" "step (view_of home \<sigma> m) cd (\<sigma> m) s'"
    by (auto elim: cstep.cases)
  show ?thesis
  proof (cases "m = n")
    case True
    with step_listed [OF m(2) creachable_inv [OF assms(1)] assms(3), of i] assms(4) show ?thesis by (simp add: m(1))
  qed (use assms(4) in \<open>simp add: m(1)\<close>)
qed

text \<open>C36: One home for everything. In every reachable state of a cluster an active grain runs on one node
  only, the one the identity lookup gives; this node's directory lists it, once, and no other node's
  directory or list of rooms has an entry for it, nor is anything published on a room's topic by
  another node. So the room list a client is sent holds the rooms of the node it happens to be connected
  to and no others. And the directory never forgets: a grain that runs is still listed after any step, its
  own end included.\<close>

theorem cluster_directory:
  assumes "creachable home cd \<sigma>" "range_ok rng (grainReg (\<sigma> n))" "range_ok rooms (roomReg (\<sigma> n))"
  shows "(\<forall>k i. is_active (\<sigma> n) k i \<longrightarrow> home k i = n \<and>
      \<lparr>gi_KindName = k, gi_Identity = i\<rparr> \<in> set (GetInstances rng (grainReg (\<sigma> n)))) \<and>
    (\<forall>k i. k \<in> {''hello'', ''user'', ''chat''} \<and> \<lparr>gi_KindName = k, gi_Identity = i\<rparr> \<in> set (GetInstances rng (grainReg (\<sigma> n)))
      \<longrightarrow> home k i = n) \<and>
    distinct (GetInstances rng (grainReg (\<sigma> n))) \<and>
    (\<forall>r \<in> set (GetAllRooms rooms (roomReg (\<sigma> n))). home ''chat'' (cr_RoomId r) = n) \<and>
    (\<forall>(t, m) \<in> set (published (\<sigma> n)). home ''chat'' t = n) \<and>
    (\<forall>\<sigma>2 k i rng2. is_active (\<sigma> n) k i \<and> cstep home cd \<sigma> \<sigma>2 \<and> range_ok rng2 (grainReg (\<sigma>2 n)) \<longrightarrow>
      \<lparr>gi_KindName = k, gi_Identity = i\<rparr> \<in> set (GetInstances rng2 (grainReg (\<sigma>2 n))))"
proof -
  note h = creachable_at_home [OF assms(1), of n]
  from creachable_inv [OF assms(1), of n] have r: "registries_ok cd (\<sigma> n)" by (simp add: sys_inv_def grains_inv_def)
  then have wf: "grain_registry_wf (grainReg (\<sigma> n))" "room_registry_wf (roomReg (\<sigma> n))" by (simp_all add: registries_ok_def)
  have l: "\<lparr>gi_KindName = k, gi_Identity = i\<rparr> \<in> set (GetInstances rng (grainReg (\<sigma> n))) \<longleftrightarrow> listed (grainReg (\<sigma> n)) k i" for k i
    using instance_listed [OF wf(1) assms(2)] .
  have rooms: "GetRoom (cr_RoomId x) (roomReg (\<sigma> n)) \<noteq> None" if "x \<in> set (GetAllRooms rooms (roomReg (\<sigma> n)))" for x
    using that wf(2) range_ok_get [OF assms(3) keyed_by_mwf [OF wf(2)]] keyed_by_key [OF wf(2)]
    by (fastforce simp: GetAllRooms_def GetRoom_def)
  have act: "listed (grainReg (\<sigma> n)) k i" if "is_active (\<sigma> n) k i" for k i
    using r that by (simp add: registries_ok_def)
  have d: "distinct (GetInstances rng (grainReg (\<sigma> n)))" by (rule instances_distinct [OF wf(1) assms(2)])
  have stays: "\<lparr>gi_KindName = k, gi_Identity = i\<rparr> \<in> set (GetInstances rng2 (grainReg (\<sigma>2 n)))"
    if "is_active (\<sigma> n) k i" "cstep home cd \<sigma> \<sigma>2" "range_ok rng2 (grainReg (\<sigma>2 n))" for \<sigma>2 k i rng2
  proof -
    have "listed (grainReg (\<sigma>2 n)) k i" by (rule cstep_listed [OF assms(1) that(2) active_kind [OF that(1)] act [OF that(1)]])
    moreover have "grain_registry_wf (grainReg (\<sigma>2 n))"
      using creachable_inv [OF creachable_step [OF assms(1) that(2)], of n] by (simp add: sys_inv_def grains_inv_def registries_ok_def)
    ultimately show ?thesis using instance_listed that(3) by blast
  qed
  note h = h [unfolded at_home_def elsewhere_view not_not]
  show ?thesis unfolding grain_kinds_def [symmetric] l
  proof (intro conjI)
    show "\<forall>k i. is_active (\<sigma> n) k i \<longrightarrow> home k i = n \<and> listed (grainReg (\<sigma> n)) k i"
      using conjunct1 [OF h] act by simp
    show "\<forall>r \<in> set (GetAllRooms rooms (roomReg (\<sigma> n))). home ''chat'' (cr_RoomId r) = n"
      using conjunct1 [OF conjunct2 [OF conjunct2 [OF h]]] rooms by simp
    show "\<forall>\<sigma>2 k i rng2. is_active (\<sigma> n) k i \<and> cstep home cd \<sigma> \<sigma>2 \<and> range_ok rng2 (grainReg (\<sigma>2 n)) \<longrightarrow>
        \<lparr>gi_KindName = k, gi_Identity = i\<rparr> \<in> set (GetInstances rng2 (grainReg (\<sigma>2 n)))"
      using stays by blast
  qed (rule d conjunct1 [OF conjunct2 [OF h]] conjunct2 [OF conjunct2 [OF conjunct2 [OF h]]])+
qed

text \<open>A cluster in which one node works alone.\<close>

definition one_works :: "nat \<Rightarrow> sys_state \<Rightarrow> cluster_state" where
  "one_works n s = (\<lambda>_. new_sys)(n := s)"

lemma one_works_simps [simp]: "one_works n s n = s" "j \<noteq> n \<Longrightarrow> one_works n s j = new_sys"
  by (simp_all add: one_works_def)

lemma one_works_reachable: "reachable alone cd s \<Longrightarrow> creachable (\<lambda>k i. n) cd (one_works n s)"
proof -
  assume r: "reachable alone cd s"
  have v: "sees_more alone (view_of (\<lambda>k i. n) (\<lambda>_. new_sys) n)"
    by (simp add: sees_more_def view_of_def alone_def)
  have "reachable (view_of (\<lambda>k i. n) (\<lambda>_. new_sys) n) cd s" by (rule reachable_mono [OF r v])
  then have "(cstep (\<lambda>k i. n) cd)\<^sup>*\<^sup>* (\<lambda>_. new_sys) (one_works n s)"
    unfolding one_works_def reachable_def by (intro cstep_local)
  then show ?thesis by (simp add: creachable_def)
qed

theorem cluster_directory_witness:
  "\<lparr>gi_KindName = ''chat'', gi_Identity = ''lobby''\<rparr> \<in> set (GetInstances (\<lambda>m. m) (grainReg (one_works 3 lobby_open 3)))"
  using cluster_directory [OF one_works_reachable [OF lobby_open_reachable, of 3], where n = 3 and rng = "\<lambda>m. m" and rooms = "\<lambda>m. m"] lobby_open_active
  by (simp add: range_ok_def)

section \<open>Messages stay in their rooms\<close>

lemma actor_stays:
  assumes "reachable v cd s" "(p, g) \<in> set (spawned s)" "actor_gets v s p (Envelope m)" "wcodec e = cd" "codec_sound cd"
    and "clusterIdentity ctx = None" "Receive (wcodec e) (ws_invoke (e :: sys_env)) ctx (Envelope m) g s = Ok (g', s', r)"
    and "\<forall>(t, m) \<in> foreign v. room_message cd t m"
  shows "\<exists>t. (t, Some p) \<in> set (subs s) \<and> (t, m) \<in> set (published s) \<union> foreign v \<and> g' = g \<and>
    (s' = s \<or> (\<exists>c. cm_RoomId c = t \<and> only_send (wc g) s s' \<and>
       sendToClient e (wc g) \<lparr>out_Type = ''new_message'', out_Payload = PChat (Some c)\<rparr> s = Ok s'))"
proof -
  from reachable_inv [OF assms(1)] have inv: "conn_inv s" "registries_ok cd s"
    by (simp_all add: sys_inv_def grains_inv_def)
  from assms(3) obtain t where t: "(t, m) \<in> set (published s) \<union> foreign v" "(t, Some p) \<in> set (subs s)"
    by (auto simp: actor_gets_def)
  with inv(2) assms(8) have "room_message cd t m" unfolding registries_ok_def by blast
  then obtain c b where c: "cm_RoomId c = t" "marshal cd (proto_msg.ChatUserMessage (Some c)) = Some b" "Data m = Some b"
    by (auto simp: room_message_def)
  from assms(7) conn_invD(5) [OF inv(1) assms(2)] assms(6) show ?thesis
  proof (cases rule: ws_receive)
    case (chat m' c')
    then have d: "unmarshal cd ''ChatUserMessage'' b = Some (proto_msg.ChatUserMessage c')"
      using c(3) assms(4) by (simp add: decode_def)
    have "c' = Some c"
      using assms(5) [unfolded codec_sound_def, rule_format, of _ b] c(2) d by fastforce
    with chat c(1) t sendToClient_frame [OF chat(5)] show ?thesis by blast
  qed (use t in auto)
qed

text \<open>C2: Messages stay in their rooms. Whatever envelope an actor of a connection on any node of a cluster is
  given in a reachable state, it was published on a topic this actor was subscribed to, by the node that
  is this room's home; and all the actor does is nothing, or hand one new_message to its own connection,
  carrying a chat message of the room of that topic: nobody reads along in a room he was never subscribed
  to.\<close>

theorem messages_stay:
  assumes "creachable home cd \<sigma>" "(p, g) \<in> set (spawned (\<sigma> n))" "actor_gets (view_of home \<sigma> n) (\<sigma> n) p (Envelope m)"
    and "wcodec e = cd" "codec_sound cd" "clusterIdentity ctx = None"
    and "Receive (wcodec e) (ws_invoke (e :: sys_env)) ctx (Envelope m) g (\<sigma> n) = Ok (g', s', r)"
  shows "\<exists>t. (t, Some p) \<in> set (subs (\<sigma> n)) \<and> (t, m) \<in> set (published (\<sigma> (home ''chat'' t))) \<and> g' = g \<and>
    (s' = \<sigma> n \<or> (\<exists>c. cm_RoomId c = t \<and> only_send (wc g) (\<sigma> n) s' \<and>
       sendToClient e (wc g) \<lparr>out_Type = ''new_message'', out_Payload = PChat (Some c)\<rparr> (\<sigma> n) = Ok s'))"
proof -
  from actor_stays [OF creachable_node [OF assms(1)] assms(2-7) creachable_foreign [OF assms(1)]] obtain t where
    t: "(t, Some p) \<in> set (subs (\<sigma> n))" "(t, m) \<in> set (published (\<sigma> n)) \<union> foreign (view_of home \<sigma> n)" "g' = g"
      "s' = \<sigma> n \<or> (\<exists>c. cm_RoomId c = t \<and> only_send (wc g) (\<sigma> n) s' \<and>
         sendToClient e (wc g) \<lparr>out_Type = ''new_message'', out_Payload = PChat (Some c)\<rparr> (\<sigma> n) = Ok s')"
    by blast
  from t(2) obtain j where j: "(t, m) \<in> set (published (\<sigma> j))" unfolding published_anywhere by blast
  with creachable_published [OF assms(1) j] t show ?thesis by blast
qed

section \<open>Requests from node to node\<close>

text \<open>The node that serves a request of node \<open>a\<close>: its own state while the handler runs, or that of another node.\<close>

definition server_of :: "placement \<Rightarrow> cluster_state \<Rightarrow> nat \<Rightarrow> sys_state \<Rightarrow> string \<Rightarrow> string \<Rightarrow> sys_state" where
  "server_of home \<sigma> a s k i = (if home k i = a then s else \<sigma> (home k i))"

text \<open>What the framework does with a request: it is lost, or the grain's home handles it once and answers.\<close>

definition cluster_serves :: "placement \<Rightarrow> codec \<Rightarrow> cluster_state \<Rightarrow> nat \<Rightarrow> sys_state cluster \<Rightarrow> bool" where
  "cluster_serves home cd \<sigma> a cl \<longleftrightarrow> (\<forall>s i k m.
     cl s i k m = (s, RequestErr) \<or> cl s i k m = (s, FutureErr) \<or>
     (\<exists>ge s' r. grain_env_ok cd ge \<and> grain_request ge i k (Envelope m) (server_of home \<sigma> a s k i) = Ok (Some (s', Some r)) \<and>
        (if home k i = a then cl s i k m = (s', Replied r) \<or> cl s i k m = (s', FutureErr)
         else cl s i k m = (s, Replied r))))"

text \<open>A turn of a grain at its home is a step of the cluster, and leaves the connections of every node alone.\<close>

lemma home_turn:
  assumes "grain_request ge i k am (\<sigma> (home k i)) = Ok (Some (s', r))" "grain_env_ok cd ge" "i \<noteq> ''''"
  shows "cstep home cd \<sigma> (\<sigma>(home k i := s'))" "same_ws (\<sigma> n) ((\<sigma>(home k i := s')) n)"
proof -
  show "cstep home cd \<sigma> (\<sigma>(home k i := s'))"
    by (rule cstep.node, rule step.Call [OF assms(2,3) _ assms(1)]) simp
  show "same_ws (\<sigma> n) ((\<sigma>(home k i := s')) n)" using grain_request_ws [OF assms(1)] by simp
qed

text \<open>What the call of a room from node \<open>a\<close> comes to: \<open>\<sigma>1\<close> is the cluster after it.\<close>

lemma rpc_cluster:
  assumes "Rpc (wcluster e) cd t i ''chat'' n q (\<sigma> a) = Ok (s1, r)" "cluster_serves home cd \<sigma> a (wcluster e)"
    and "codec_rt cd q" "has_id q" "n \<noteq> ''''"
  obtains (failed) \<sigma>1 err where "(cstep home cd)\<^sup>*\<^sup>* \<sigma> \<sigma>1" "\<sigma>1 a = s1" "same_ws (\<sigma> a) s1" "r = Inl err"
  | (answered) ge b x rep where "i \<noteq> ''''" "marshal cd q = Some b" "grain_env_ok cd ge" "r = open_response cd (msg_id q) rep"
      "grain_request ge i ''chat'' (Envelope (request_of t i ''chat'' n q b)) (\<sigma> (home ''chat'' i)) = Ok (Some (x, Some rep))"
      "(\<sigma>(home ''chat'' i := x)) a = s1"
proof (cases "i = ''''")
  case True
  with assms(1) show ?thesis by (intro failed [of \<sigma> MissingParameter]) (simp_all add: Rpc_def)
next
  case False
  from assms(3) obtain b where b: "marshal cd q = Some b" by (auto simp: codec_rt_def)
  let ?m = "request_of t i ''chat'' n q b" and ?h = "home ''chat'' i"
  obtain s2 x where cl': "wcluster e (\<sigma> a) i ''chat'' ?m = (s2, x)" by fastforce
  from Rpc_sent [OF assms(4) b False _ assms(5), of "''chat''" "wcluster e" t "\<sigma> a"] assms(1)
  have cl: "wcluster e (\<sigma> a) i ''chat'' ?m = (s1, x)" and r: "case x of
      RequestErr \<Rightarrow> r = Inl (CallFailed GetGrainFailed) | FutureErr \<Rightarrow> r = Inl (CallFailed CallGrainFailed)
    | Replied resp \<Rightarrow> r = open_response cd (msg_id q) resp | RepliedOther \<Rightarrow> False"
    by (auto simp: cl' split: call_result.splits)
  have err: "\<exists>err. r = Inl err" if "x = RequestErr \<or> x = FutureErr" using that r by auto
  have srv: "server_of home \<sigma> a (\<sigma> a) ''chat'' i = \<sigma> ?h" by (simp add: server_of_def)
  from assms(2) [unfolded cluster_serves_def, rule_format, of "\<sigma> a" i "''chat''" ?m] consider
      (lost) "s1 = \<sigma> a" "x = RequestErr \<or> x = FutureErr"
    | (served) ge s' rep where "grain_env_ok cd ge" "grain_request ge i ''chat'' (Envelope ?m) (\<sigma> ?h) = Ok (Some (s', Some rep))"
        "if ?h = a then (s1, x) = (s', Replied rep) \<or> (s1, x) = (s', FutureErr) else (s1, x) = (\<sigma> a, Replied rep)"
    unfolding cl srv by auto
  then show ?thesis
  proof cases
    case lost
    with err show ?thesis by (auto intro: failed [of \<sigma>])
  next
    case served
    have a: "(\<sigma>(?h := s')) a = s1" using served(3) by (auto split: if_splits)
    show ?thesis
    proof (cases x)
      case (Replied resp)
      with served(3) r have "r = open_response cd (msg_id q) rep" by (auto split: if_splits)
      from answered [OF False b served(1) this served(2) a] show ?thesis .
    next
      case FutureErr
      with r have "r = Inl (CallFailed CallGrainFailed)" by simp
      moreover note t = home_turn [where k = "''chat''" and home = home and \<sigma> = \<sigma>, OF served(2,1) False]
      ultimately show ?thesis using a t(2) [of a] by (intro failed [OF r_into_rtranclp [of "cstep home cd", OF t(1)]]) simp_all
    qed (use served(3) in \<open>auto split: if_splits\<close>)
  qed
qed

section \<open>Joining\<close>

lemma join_cases:
  assumes "ws_userID (conns s c) \<noteq> 0" "in_Payload msg = JObj payload" "mget payload ''room_id'' = Some (JStr room)"
    and "handleJoinRoom e c msg s = Ok s'"
  obtains s1 r where "Rpc (wcluster e) (wcodec e) (wtrace e) room ''chat'' ''JoinRoom''
      (proto_msg.ChatJoinRoomReq room (ws_userID (conns s c)) (ws_username (conns s c))) s = Ok (s1, r)"
    "(\<exists>m info recent. r = Inr (ChatJoinRoomResp ErrorCode_OK m info recent) \<and>
       sendToClient e c \<lparr>out_Type = ''room_joined'', out_Payload = PRoom info\<rparr>
         (SubscribeTopic e c room (with_client c (\<lambda>x. x\<lparr>ws_currentRoom := room\<rparr>) s1)) = Ok s') \<or>
     (\<exists>out. sendToClient e c out s1 = Ok s') \<or> s' = s1"
proof -
  from assms obtain s1 r where r: "Rpc (wcluster e) (wcodec e) (wtrace e) room ''chat'' ''JoinRoom''
      (proto_msg.ChatJoinRoomReq room (ws_userID (conns s c)) (ws_username (conns s c))) s = Ok (s1, r)"
    "(case r of Inl err \<Rightarrow> sendToClient e c (notice ''error'' t_join_failed) s1
        | Inr (ChatJoinRoomResp code m room' recent) \<Rightarrow>
            if code = ErrorCode_OK
            then sendToClient e c \<lparr>out_Type = ''room_joined'', out_Payload = PRoom room'\<rparr>
              (SubscribeTopic e c room (with_client c (\<lambda>x. x\<lparr>ws_currentRoom := room\<rparr>) s1))
            else sendToClient e c (notice ''room_joined'' t_join_failed) s1
        | Inr _ \<Rightarrow> Ok s1) = Ok s'"
    by (auto simp: handleJoinRoom_def assert_string_def Let_def obind_Ok_iff split: if_splits)
  show thesis
    by (rule that [OF r(1)]) (use r(2) in \<open>auto split: sum.splits proto_msg.splits if_splits\<close>)
qed

text \<open>The answer to a connection after the call, as steps of its node.\<close>

lemma finish_local:
  assumes "(cstep home cd)\<^sup>*\<^sup>* \<sigma> \<sigma>1" "quiet (view_of home \<sigma>1 a) cd (\<sigma>1 a) s'" "creachable home cd \<sigma>"
  shows "creachable home cd (\<sigma>1(a := s'))"
  using creachable_trans [OF creachable_trans [OF assms(3,1)] cstep_local [OF quietD(1) [OF assms(2)]]] .

text \<open>After an answer without a welcome only the send buffer of the connection has changed.\<close>

lemma only_answered:
  assumes "(cstep home cd)\<^sup>*\<^sup>* \<sigma> \<sigma>1" "\<sigma>1 a = s1" "same_ws (\<sigma> a) s1"
    and "(\<exists>out. sendToClient (e :: sys_env) c out s1 = Ok s') \<or> s' = s1" "creachable home cd \<sigma>" "c < nconns (\<sigma> a)"
  obtains \<sigma>' ch where "creachable home cd \<sigma>'" "\<sigma>' a = s'" "conns s' c = conns (\<sigma> a) c\<lparr>ws_send := ch\<rparr>" "subs s' = subs (\<sigma> a)"
proof -
  have c: "c < nconns s1" using assms(3,6) by (simp add: same_ws_def)
  have "quiet (view_of home \<sigma>1 a) cd s1 s'" using assms(4) c by (auto intro: quiet_send [OF _ quiet_refl])
  then have cr: "creachable home cd (\<sigma>1(a := s'))" using assms(2) by (intro finish_local [OF assms(1) _ assms(5)]) simp
  have "only_send c s1 s' \<or> s' = s1" using assms(4) sendToClient_frame by blast
  then have "(\<exists>ch. conns s' c = conns (\<sigma> a) c\<lparr>ws_send := ch\<rparr>) \<and> subs s' = subs (\<sigma> a)"
    using assms(3) by (auto simp: same_ws_def only_send_def intro: exI [of _ "ws_send (conns (\<sigma> a) c)"])
  then obtain ch where "conns s' c = conns (\<sigma> a) c\<lparr>ws_send := ch\<rparr>" "subs s' = subs (\<sigma> a)" by blast
  from that [OF cr _ this] show thesis by simp
qed

text \<open>Joining, from the WebSocket message on one node to the room on another, while nobody else does anything. When the handler of a join
  request returns, the cluster is in a reachable state in which either the connection is in the room: the
  room's grain is active at its home and has the connection's user among its members, the connection's
  actor is subscribed to the room's topic (if the subscription worked), and the room was not full before;
  or nothing of the connection changed but its send buffer, neither its current room nor any
  subscription. So a connection never believes to be in a room that did not let it in.\<close>

theorem join_end_to_end:
  assumes "creachable home cd \<sigma>" "cluster_serves home cd \<sigma> a (wcluster e)" "wcodec (e :: sys_env) = cd"
    and "c < nconns (\<sigma> a)" "ws_userID (conns (\<sigma> a) c) \<noteq> 0"
    and "in_Payload msg = JObj payload" "mget payload ''room_id'' = Some (JStr room)"
    and "codec_rt cd (proto_msg.ChatJoinRoomReq room (ws_userID (conns (\<sigma> a) c)) (ws_username (conns (\<sigma> a) c)))"
    and "handleJoinRoom e c msg (\<sigma> a) = Ok s'"
  shows "\<exists>\<sigma>'. creachable home cd \<sigma>' \<and> \<sigma>' a = s' \<and>
    (ws_currentRoom (conns s' c) = room \<and>
      (\<exists>g. mget (sys_rooms (\<sigma>' (home ''chat'' room))) room = Some g \<and> mhas (members g) (ws_userID (conns (\<sigma> a) c))) \<and>
      subs s' = (if subscribe_ok e then subs (\<sigma> a) @ [(room, ws_pid (conns (\<sigma> a) c))] else subs (\<sigma> a)) \<and>
      (\<forall>g0. mget (sys_rooms (\<sigma> (home ''chat'' room))) room = Some g0 \<longrightarrow> int (mlen (members g0)) < maxMembers g0) \<or>
    (\<exists>ch. conns s' c = conns (\<sigma> a) c\<lparr>ws_send := ch\<rparr>) \<and> subs s' = subs (\<sigma> a))"
proof -
  let ?u = "ws_userID (conns (\<sigma> a) c)" and ?h = "home ''chat'' room"
  let ?q = "proto_msg.ChatJoinRoomReq room ?u (ws_username (conns (\<sigma> a) c))"
  from join_cases [OF assms(5-7,9)] obtain s1 r where
    rpc: "Rpc (wcluster e) cd (wtrace e) room ''chat'' ''JoinRoom'' ?q (\<sigma> a) = Ok (s1, r)"
    and fin: "(\<exists>m info recent. r = Inr (ChatJoinRoomResp ErrorCode_OK m info recent) \<and>
       sendToClient e c \<lparr>out_Type = ''room_joined'', out_Payload = PRoom info\<rparr>
         (SubscribeTopic e c room (with_client c (\<lambda>x. x\<lparr>ws_currentRoom := room\<rparr>) s1)) = Ok s') \<or>
     (\<exists>out. sendToClient e c out s1 = Ok s') \<or> s' = s1"
    unfolding assms(3) by blast
  have out: ?thesis if "(cstep home cd)\<^sup>*\<^sup>* \<sigma> \<sigma>1" "\<sigma>1 a = s1" "same_ws (\<sigma> a) s1" "(\<exists>out. sendToClient e c out s1 = Ok s') \<or> s' = s1" for \<sigma>1
    by (rule only_answered [OF that assms(1,4)]) blast
  from rpc assms(2,8) request_of_chat(3) list.distinct(2) show ?thesis
  proof (cases rule: rpc_cluster)
    case (failed \<sigma>1 err)
    with fin show ?thesis by (intro out [of \<sigma>1]) auto
  next
    case (answered ge b x rep)
    let ?\<sigma> = "\<sigma>(?h := x)"
    note turn = home_turn [where k = "''chat''" and home = home and \<sigma> = \<sigma>, OF answered(5,3,1)]
    have t: "(cstep home cd)\<^sup>*\<^sup>* \<sigma> ?\<sigma>" by (rule r_into_rtranclp [of "cstep home cd", OF turn(1)])
    have ws: "same_ws (\<sigma> a) s1" using turn(2) [of a] answered(6) by simp
    from fin show ?thesis
    proof (elim disjE exE conjE)
      fix m info recent
      assume r: "r = Inr (ChatJoinRoomResp ErrorCode_OK m info recent)"
      let ?s = "SubscribeTopic e c room (with_client c (\<lambda>x. x\<lparr>ws_currentRoom := room\<rparr>) s1)"
      assume send: "sendToClient e c \<lparr>out_Type = ''room_joined'', out_Payload = PRoom info\<rparr> ?s = Ok s'"
      have c: "c < nconns s1" using ws assms(4) by (simp add: same_ws_def)
      have "Code rep = ErrorCode_OK" using r answered(4) open_response_code by metis
      moreover have "grains_inv cd (\<sigma> ?h)" using creachable_inv [OF assms(1)] by (simp add: sys_inv_def)
      ultimately obtain g where g: "mget (sys_rooms x) room = Some g" "mhas (members g) ?u"
        "\<forall>g0. mget (sys_rooms (\<sigma> ?h)) room = Some g0 \<longrightarrow> int (mlen (members g0)) < maxMembers g0"
        using join_served [OF answered(5) _ answered(3,1)] decode_request [OF assms(8) answered(2)] by auto
      have "quiet (view_of home ?\<sigma> a) cd s1 s'" by (rule quiet_joined [OF send quiet_refl c])
      then have cr: "creachable home cd (?\<sigma>(a := s'))"
        by (intro finish_local [OF t _ assms(1)]) (simp only: answered(6))
      note f = sendToClient_frame [OF send]
      have "ws_currentRoom (conns s' c) = room"
        "subs s' = (if subscribe_ok e then subs (\<sigma> a) @ [(room, ws_pid (conns (\<sigma> a) c))] else subs (\<sigma> a))"
        using f ws by (auto simp: only_send_def same_ws_def SubscribeTopic_def with_client_def)
      moreover have "sys_rooms s' = sys_rooms s1"
        using f by (auto simp: only_send_def SubscribeTopic_def with_client_def)
      then have "mget (sys_rooms ((?\<sigma>(a := s')) ?h)) room = Some g" using g(1) answered(6) by (cases "?h = a") auto
      ultimately show ?thesis using g cr by (intro exI [of _ "?\<sigma>(a := s')"]) auto
    qed (rule out [OF t answered(6) ws], blast)+
  qed
qed

section \<open>Sending\<close>

text \<open>The framework loses nothing: whatever a grain answers, the node that asked gets.\<close>

definition cluster_delivers :: "placement \<Rightarrow> grain_env \<Rightarrow> cluster_state \<Rightarrow> nat \<Rightarrow> sys_state cluster \<Rightarrow> bool" where
  "cluster_delivers home ge \<sigma> a cl \<longleftrightarrow> (\<forall>s i k m s' r.
     grain_request ge i k (Envelope m) (server_of home \<sigma> a s k i) = Ok (Some (s', Some r)) \<longrightarrow>
     cl s i k m = (if home k i = a then s' else s, Replied r))"

text \<open>The handler of a text from a client asks the room and tells the client how that went.\<close>

lemma send_asks:
  assumes "ws_userID (conns s c) \<noteq> 0" "ws_currentRoom (conns s c) = room" "room \<noteq> ''''"
    and "in_Payload msg = JObj payload" "mget payload ''content'' = Some (JStr content)"
    and "q = proto_msg.ChatSendMessageReq room (ws_userID (conns s c)) (ws_username (conns s c)) content ChatMsgType_TEXT"
    and "marshal (wcodec e) q = Some b"
    and "wcluster e s room ''chat'' (request_of (wtrace e) room ''chat'' ''SendMessage'' q b) = (s1, Replied r)"
  obtains out where "handleSendMessage e c msg s = sendToClient e c out s1"
proof -
  have "has_id q" by (simp add: assms(6))
  from Rpc_sent [OF this assms(7,3), of "''chat''" "''SendMessage''" "wcluster e" "wtrace e" s] assms(8) obtain y where
    "Rpc (wcluster e) (wcodec e) (wtrace e) room ''chat'' ''SendMessage'' q s = Ok (s1, y)" by simp
  then have "\<exists>out. handleSendMessage e c msg s = sendToClient e c out s1"
    unfolding handleSendMessage_def using assms(1-6)
    by (simp add: assert_string_def Let_def split: sum.split proto_msg.split) blast
  then show thesis using that by blast
qed

text \<open>The turn of a room that is sent a text by one of its members, \<open>x\<close>.\<close>

lemma send_turn:
  assumes "creachable home cd \<sigma>" "grain_env_ok cd ge" "ws_currentRoom x = room"
    and "mget (sys_rooms (\<sigma> n)) room = Some g" "mhas (members g) (ws_userID x)"
    and "q = proto_msg.ChatSendMessageReq room (ws_userID x) (ws_username x) content ChatMsgType_TEXT" "codec_rt cd q" "marshal cd q = Some b"
    and "m = sent_message ge x content" "marshal cd (proto_msg.ChatUserMessage (Some m)) = Some d"
  obtains y r g' where "grain_request ge room ''chat'' (Envelope (request_of t room ''chat'' ''SendMessage'' q b)) (\<sigma> n) = Ok (Some (y, Some r))"
    "mget (sys_rooms y) room = Some g'" "messages g' = last_n 100 (messages g @ [m])" "members g' = members g"
    "published y = published (\<sigma> n) @ [(room, broadcast_of m d)]"
proof -
  have "sys_inv cd (\<sigma> n)" by (rule creachable_inv [OF assms(1)])
  then have g: "chat_inv g (node_of (\<sigma> n))" "gIdentity g = room"
    using assms(4) by (simp_all add: sys_inv_def grains_inv_def grain_maps_ok_def called_def)
  let ?r = "request_of t room ''chat'' ''SendMessage'' q b"
  have "decode cd ''ChatSendMessageReq'' ?r = Some q" using decode_request [OF assms(7,8)] by (simp add: assms(6))
  note dq = this [unfolded assms(6)]
  have md: "marshal cd (proto_msg.ChatUserMessage (Some (sent_message ge x content))) = Some d" using assms(9,10) by simp
  show thesis
    by (rule send_served [OF assms(4) g assms(2,3,5) request_of_chat(2) dq md])
      (rule that [unfolded assms(6,9)], assumption+)
qed

text \<open>What the handler of a text from a client comes to when the room handles it: \<open>x\<close> is the room's node after it.\<close>

lemma send_cluster:
  assumes "creachable home cd \<sigma>" "grain_env_ok cd ge" "cluster_delivers home ge \<sigma> a (wcluster e)" "wcodec (e :: sys_env) = cd"
    and "ws_userID (conns (\<sigma> a) c) \<noteq> 0" "ws_currentRoom (conns (\<sigma> a) c) = room" "room \<noteq> ''''"
    and "in_Payload msg = JObj payload" "mget payload ''content'' = Some (JStr content)"
    and "mget (sys_rooms (\<sigma> (home ''chat'' room))) room = Some g" "mhas (members g) (ws_userID (conns (\<sigma> a) c))"
    and "codec_rt cd (proto_msg.ChatSendMessageReq room (ws_userID (conns (\<sigma> a) c)) (ws_username (conns (\<sigma> a) c)) content ChatMsgType_TEXT)"
    and "m = sent_message ge (conns (\<sigma> a) c) content" "marshal cd (proto_msg.ChatUserMessage (Some m)) = Some d"
  obtains x g' out where "cstep home cd \<sigma> (\<sigma>(home ''chat'' room := x))" "same_ws (\<sigma> (home ''chat'' room)) x"
    "handleSendMessage e c msg (\<sigma> a) = sendToClient e c out ((\<sigma>(home ''chat'' room := x)) a)"
    "mget (sys_rooms x) room = Some g'" "messages g' = last_n 100 (messages g @ [m])" "members g' = members g"
    "published x = published (\<sigma> (home ''chat'' room)) @ [(room, broadcast_of m d)]"
proof -
  let ?x = "conns (\<sigma> a) c" and ?h = "home ''chat'' room"
  let ?q = "proto_msg.ChatSendMessageReq room (ws_userID ?x) (ws_username ?x) content ChatMsgType_TEXT"
  from assms(12) obtain b where b: "marshal cd ?q = Some b" by (auto simp: codec_rt_def)
  let ?r = "request_of (wtrace e) room ''chat'' ''SendMessage'' ?q b"
  obtain x r g' where x: "grain_request ge room ''chat'' (Envelope ?r) (\<sigma> ?h) = Ok (Some (x, Some r))"
      "mget (sys_rooms x) room = Some g'" "messages g' = last_n 100 (messages g @ [m])" "members g' = members g"
      "published x = published (\<sigma> ?h) @ [(room, broadcast_of m d)]"
    by (rule send_turn [OF assms(1,2,6,10,11) refl assms(12) b assms(13,14)])
  have "wcluster e (\<sigma> a) room ''chat'' ?r = ((\<sigma>(?h := x)) a, Replied r)"
    using assms(3) [unfolded cluster_delivers_def, rule_format, where s = "\<sigma> a" and i = room and k = "''chat''" and m = ?r and s' = x and r = r] x(1)
    by (auto simp: server_of_def)
  then obtain out where "handleSendMessage e c msg (\<sigma> a) = sendToClient e c out ((\<sigma>(?h := x)) a)"
    by (rule send_asks [OF assms(5-9) refl b [folded assms(4)]])
  moreover note home_turn(1) [where k = "''chat''" and home = home and \<sigma> = \<sigma>, OF x(1) assms(2,7)]
  ultimately show ?thesis using that grain_request_ws [OF x(1)] x(2-) by blast
qed

text \<open>What was published on any node, an actor on any node can be given.\<close>

lemma everyone_gets:
  fixes e :: sys_env
  assumes "creachable home cd \<sigma>" "(cm_RoomId m, broadcast_of m b) \<in> set (published (\<sigma> j))"
    and "codec_rt cd (proto_msg.ChatUserMessage (Some m))" "marshal cd (proto_msg.ChatUserMessage (Some m)) = Some b"
    and "(p, h) \<in> set (spawned (\<sigma> n))" "(cm_RoomId m, Some p) \<in> set (subs (\<sigma> n))" "wcodec e = cd"
    and "jenc e \<lparr>out_Type = ''new_message'', out_Payload = PChat (Some m)\<rparr> = Some bs"
    and "\<not> closed (ws_send (conns (\<sigma> n) (wc h)))" "length (buf (ws_send (conns (\<sigma> n) (wc h)))) < 256"
  shows "\<exists>s2. cstep home cd \<sigma> (\<sigma>(n := s2)) \<and> buf (ws_send (conns s2 (wc h))) = buf (ws_send (conns (\<sigma> n) (wc h))) @ [bs]"
proof -
  have c: "conn_inv (\<sigma> n)" using creachable_inv [OF assms(1)] by (simp add: sys_inv_def)
  have pub: "(cm_RoomId m, broadcast_of m b) \<in> set (published (\<sigma> n)) \<union> foreign (view_of home \<sigma> n)"
    using assms(2) unfolding published_anywhere by blast
  obtain s2 where "step (view_of home \<sigma> n) cd (\<sigma> n) s2" "buf (ws_send (conns s2 (wc h))) = buf (ws_send (conns (\<sigma> n) (wc h))) @ [bs]"
    by (rule actor_delivers [OF c assms(5) pub assms(6,7,3,4,8-10)])
  then show ?thesis using cstep.node by blast
qed

text \<open>Sending, from the WebSocket message on one node to the screens on all of them, while nobody else does anything. When the framework
  loses nothing, a text that a connection in a room sends is, if the connection's user is a member of
  the room's grain, appended to the room's history at its home under the user's id and published there
  once, on the room's topic. And on every node of the cluster every actor subscribed to this topic can take
  its turn: given the broadcast, it hands the text to its own connection, whose send buffer, if it has
  room and is open, grows by exactly this message.\<close>

theorem send_reaches_subscribers:
  assumes "creachable home cd \<sigma>" "grain_env_ok cd ge" "cluster_delivers home ge \<sigma> a (wcluster e)" "wcodec (e :: sys_env) = cd"
    and "ws_userID (conns (\<sigma> a) c) \<noteq> 0" "ws_currentRoom (conns (\<sigma> a) c) = room" "room \<noteq> ''''"
    and "in_Payload msg = JObj payload" "mget payload ''content'' = Some (JStr content)"
    and "mget (sys_rooms (\<sigma> (home ''chat'' room))) room = Some g" "mhas (members g) (ws_userID (conns (\<sigma> a) c))"
    and "codec_rt cd (proto_msg.ChatSendMessageReq room (ws_userID (conns (\<sigma> a) c)) (ws_username (conns (\<sigma> a) c)) content ChatMsgType_TEXT)"
    and "m = sent_message ge (conns (\<sigma> a) c) content" "codec_rt cd (proto_msg.ChatUserMessage (Some m))"
    and "c < nconns (\<sigma> a)" "handleSendMessage e c msg (\<sigma> a) = Ok s'"
  shows "\<exists>\<sigma>' b g'. creachable home cd \<sigma>' \<and> \<sigma>' a = s' \<and>
    mget (sys_rooms (\<sigma>' (home ''chat'' room))) room = Some g' \<and> messages g' = last_n 100 (messages g @ [m]) \<and> members g' = members g \<and>
    published (\<sigma>' (home ''chat'' room)) = published (\<sigma> (home ''chat'' room)) @ [(room, broadcast_of m b)] \<and>
    (\<forall>n p h e2 bs. (room, Some p) \<in> set (subs (\<sigma> n)) \<and> (p, h) \<in> set (spawned (\<sigma> n)) \<and> wcodec (e2 :: sys_env) = cd \<and>
        jenc e2 \<lparr>out_Type = ''new_message'', out_Payload = PChat (Some m)\<rparr> = Some bs \<and>
        \<not> closed (ws_send (conns (\<sigma>' n) (wc h))) \<and> length (buf (ws_send (conns (\<sigma>' n) (wc h)))) < 256 \<longrightarrow>
      (\<exists>s2. cstep home cd \<sigma>' (\<sigma>'(n := s2)) \<and> buf (ws_send (conns s2 (wc h))) = buf (ws_send (conns (\<sigma>' n) (wc h))) @ [bs]))"
proof -
  let ?h = "home ''chat'' room"
  from assms(14) obtain d where d: "marshal cd (proto_msg.ChatUserMessage (Some m)) = Some d" by (auto simp: codec_rt_def)
  obtain x g' out where x: "cstep home cd \<sigma> (\<sigma>(?h := x))" "same_ws (\<sigma> ?h) x"
      "handleSendMessage e c msg (\<sigma> a) = sendToClient e c out ((\<sigma>(?h := x)) a)"
      "mget (sys_rooms x) room = Some g'" "messages g' = last_n 100 (messages g @ [m])" "members g' = members g"
      "published x = published (\<sigma> ?h) @ [(room, broadcast_of m d)]"
    by (rule send_cluster [OF assms(1-13) d])
  define \<sigma>1 where "\<sigma>1 = \<sigma>(?h := x)"
  define \<sigma>' where "\<sigma>' = \<sigma>1(a := s')"
  have send: "sendToClient e c out (\<sigma>1 a) = Ok s'" using assms(16) x(3) by (simp only: \<sigma>1_def)
  note o = sendToClient_frame [OF send]
  have ws1: "same_ws (\<sigma> n) (\<sigma>1 n)" for n using x(2) by (simp add: \<sigma>1_def)
  have "c < nconns (\<sigma>1 a)" using ws1 [of a] assms(15) by (simp add: same_ws_def)
  from quiet_send [OF send quiet_refl this]
  have cr: "creachable home cd \<sigma>'"
    unfolding \<sigma>'_def by (intro finish_local [OF r_into_rtranclp [of "cstep home cd"] _ assms(1)]) (simp add: \<sigma>1_def x(1))
  from o have "sys_rooms s' = sys_rooms (\<sigma>1 a) \<and> published s' = published (\<sigma>1 a)"
    by (auto simp: only_send_def with_client_def)
  then have home: "sys_rooms (\<sigma>' ?h) = sys_rooms x" "published (\<sigma>' ?h) = published x" by (auto simp: \<sigma>'_def \<sigma>1_def)
  have ss: "subs (\<sigma>' n) = subs (\<sigma> n)" "spawned (\<sigma>' n) = spawned (\<sigma> n)" for n
    using only_sendD(3,4) [OF o] ws1 [of n] by (auto simp: \<sigma>'_def same_ws_def)
  have m: "cm_RoomId m = room" by (simp add: assms(6,13) sent_message_def)
  have pub: "(cm_RoomId m, broadcast_of m d) \<in> set (published (\<sigma>' ?h))" using home(2) x(7) by (simp add: m)
  have deliver: "\<exists>s2. cstep home cd \<sigma>' (\<sigma>'(n := s2)) \<and> buf (ws_send (conns s2 (wc h))) = buf (ws_send (conns (\<sigma>' n) (wc h))) @ [bs]"
    if "(room, Some p) \<in> set (subs (\<sigma> n))" "(p, h) \<in> set (spawned (\<sigma> n))" "wcodec e2 = cd"
      "jenc e2 \<lparr>out_Type = ''new_message'', out_Payload = PChat (Some m)\<rparr> = Some bs"
      "\<not> closed (ws_send (conns (\<sigma>' n) (wc h)))" "length (buf (ws_send (conns (\<sigma>' n) (wc h)))) < 256"
    for n p h bs and e2 :: sys_env
    by (rule everyone_gets [OF cr pub assms(14) d _ _ that(3-6)]) (use that(1,2) in \<open>simp_all add: ss m\<close>)
  have a: "\<sigma>' a = s'" by (simp add: \<sigma>'_def)
  show ?thesis
    by (intro exI [of _ \<sigma>'] exI [of _ d] exI [of _ g'] conjI, simp_all only: cr a home x(4-7))
      (intro allI impI, elim conjE, rule deliver, assumption+)
qed

section \<open>Two nodes\<close>

text \<open>Node 1 is the home of everything; the clients of the samples are connected to node 0.\<close>

definition two_nodes :: "sys_state \<Rightarrow> sys_state \<Rightarrow> cluster_state" where
  "two_nodes s0 s1 = (\<lambda>_. new_sys)(0 := s0, 1 := s1)"

lemma two_nodes_simps [simp]:
  "two_nodes s0 s1 0 = s0" "two_nodes s0 s1 1 = s1" "two_nodes s0 s1 (Suc 0) = s1" "(two_nodes s0 s1)(Suc 0 := x) = two_nodes s0 x"
  by (auto simp: two_nodes_def)

lemma two_nodes_reachable:
  assumes "\<And>v. reachable v cd s0" "reachable (view_of (\<lambda>k i. 1) ((\<lambda>_. new_sys)(0 := s0)) 1) cd s1"
  shows "creachable (\<lambda>k i. 1) cd (two_nodes s0 s1)"
proof -
  let ?c = "(\<lambda>_. new_sys)(0 := s0)"
  have "(cstep (\<lambda>k i. 1) cd)\<^sup>*\<^sup>* (\<lambda>_. new_sys) ?c" using assms(1) by (intro cstep_local) (simp add: reachable_def)
  moreover have "(cstep (\<lambda>k i. 1) cd)\<^sup>*\<^sup>* ?c (?c(1 := s1))" using assms(2) by (intro cstep_local) (simp add: reachable_def)
  ultimately show ?thesis unfolding creachable_def two_nodes_def by (rule rtranclp_trans)
qed

text \<open>A framework that loses nothing, as node \<open>a\<close> sees it.\<close>

definition true_cluster :: "placement \<Rightarrow> grain_env \<Rightarrow> cluster_state \<Rightarrow> nat \<Rightarrow> sys_state cluster" where
  "true_cluster home ge \<sigma> a s i k m =
     (case grain_request ge i k (Envelope m) (server_of home \<sigma> a s k i) of
        Ok (Some (s', Some r)) \<Rightarrow> (if home k i = a then s' else s, Replied r)
      | _ \<Rightarrow> (s, RequestErr))"

lemma true_cluster_delivers: "cluster_delivers home ge \<sigma> a (true_cluster home ge \<sigma> a)"
  by (auto simp: cluster_delivers_def true_cluster_def)

lemma true_cluster_serves: "grain_env_ok cd ge \<Longrightarrow> cluster_serves home cd \<sigma> a (true_cluster home ge \<sigma> a)"
  by (fastforce simp: cluster_serves_def true_cluster_def split: outcome.splits option.splits)

text \<open>Ann listens on node 0; the lobby is on node 1 and she is a member.\<close>

lemma two_talk:
  obtains s g where "creachable (\<lambda>k i. 1) (table_codec talk) (two_nodes ann_listens s)"
    "mget (sys_rooms s) ''lobby'' = Some g" "mhas (members g) 7"
proof -
  have n: "sys_rooms new_sys = []" "node_of new_sys = new_node"
    by (simp_all add: new_sys_def ws_state.defs NewWebSocketManager_def node.defs node_of_def new_node_def NewRoomRegistry_def)
  obtain s g where s: "reachable (view_of (\<lambda>k i. 1) ((\<lambda>_. new_sys)(0 := ann_listens)) 1) (table_codec talk) s"
    "mget (sys_rooms s) ''lobby'' = Some g" "mhas (members g) 7"
    by (rule lobby_with_ann [where v = "view_of (\<lambda>k i. 1) ((\<lambda>_. new_sys)(0 := ann_listens)) 1", OF n reachable_samples(1)]) simp_all
  with two_nodes_reachable [OF ann_listens_reachable s(1)] show thesis by (rule_tac that)
qed

text \<open>What ann is handed on node 0 comes from the lobby on node 1.\<close>

theorem messages_stay_witness:
  "\<exists>\<sigma> b s' r. creachable (\<lambda>k i. 1) (table_codec talk) \<sigma> \<and> s' \<noteq> \<sigma> 0 \<and>
     Receive (table_codec talk) (ws_invoke mute_env) \<lparr>selfId = ''$1'', clusterIdentity = None\<rparr> (Envelope (broadcast_of hi b))
       (NewWebSocketGrain 0 7 ''s1'') (\<sigma> 0) = Ok (NewWebSocketGrain 0 7 ''s1'', s', r) \<and>
     (''lobby'', broadcast_of hi b) \<in> set (published (\<sigma> 1)) \<and> only_send 0 (\<sigma> 0) s'"
proof -
  let ?h = "NewWebSocketGrain 0 7 ''s1''" and ?ctx = "\<lparr>selfId = ''$1'', clusterIdentity = None\<rparr>"
  obtain s b where s: "reachable alone (table_codec talk) s" "marshal (table_codec talk) (proto_msg.ChatUserMessage (Some hi)) = Some b"
    "(''lobby'', broadcast_of hi b) \<in> set (published s)"
    by (rule talk_spoken)
  let ?c = "(one_works 1 s)(0 := ann_listens)"
  have "(cstep (\<lambda>k i. 1) (table_codec talk))\<^sup>*\<^sup>* (one_works 1 s) ?c"
    by (rule cstep_local) (use ann_listens_reachable in \<open>simp add: reachable_def\<close>)
  with one_works_reachable [OF s(1)] have c: "creachable (\<lambda>k i. 1) (table_codec talk) ?c" by (rule creachable_trans)
  have e: "jenc mute_env y = Some [1]" "wcodec mute_env = table_codec talk" for y
    by (simp_all add: mute_env_def talk_env_def sys_wenv_def)
  let ?s = "with_client 0 (\<lambda>x. x\<lparr>ws_send := (ws_send x)\<lparr>buf := buf (ws_send x) @ [[1]]\<rparr>\<rparr>) ann_listens"
  have p: "(''$1'', ?h) \<in> set (spawned (?c 0))" by simp
  have "conn_inv (?c 0)" using creachable_inv [OF c, of 0] by (simp add: sys_inv_def)
  from conn_invD(5) [OF this p] have h: "find_handler ?h MsgId_PChatUserMessage = Some HChatUserMessage" by (simp add: actor_ok_def)
  have "sendToClient mute_env (wc ?h) \<lparr>out_Type = ''new_message'', out_Payload = PChat (Some hi)\<rparr> ann_listens = Ok ?s"
    by (simp, rule sendToClient_room [OF e(1)]) (simp_all add: NewWSClient_def make_chan_def)
  from actor_turn [OF h e(2) talk_codecs(2) s(2) this, of ?ctx] have
    r: "Receive (wcodec mute_env) (ws_invoke mute_env) ?ctx (Envelope (broadcast_of hi b)) ?h (?c 0) =
      Ok (?h, ?s, Some (reply (table_codec talk) (broadcast_of hi b) None ErrorCode_OK))"
    by simp
  have "actor_gets (view_of (\<lambda>k i. 1) ?c 0) (?c 0) ''$1'' (Envelope (broadcast_of hi b))"
    using s(3) by (auto simp: actor_gets_def foreign_view intro!: exI [of _ "1::nat"])
  from messages_stay [OF c p this e(2) talk_codecs(3) _ r] have m:
    "(''lobby'', broadcast_of hi b) \<in> set (published (?c 1))" "?s = ?c 0 \<or> only_send 0 (?c 0) ?s"
    by (auto simp: simp del: with_client_simps)
  have n: "?s \<noteq> ann_listens"
  proof
    assume "?s = ann_listens"
    then have "buf (ws_send (conns ?s 0)) = buf (ws_send (conns ann_listens 0))" by simp
    then show False by (simp add: with_client_def NewWSClient_def make_chan_def del: ann_listens_simps)
  qed
  show ?thesis
    using c r m n by (intro exI [of _ ?c] exI [of _ b] exI [of _ ?s] exI) (simp add: e)
qed

text \<open>Ann says hi on node 0.\<close>

theorem send_reaches_subscribers_witness:
  "\<exists>\<sigma> e s' \<sigma>' b s2. creachable (\<lambda>k i. 1) (table_codec talk) \<sigma> \<and> handleSendMessage e 0 talk_msg (\<sigma> 0) = Ok s' \<and> \<sigma>' 0 = s' \<and>
     creachable (\<lambda>k i. 1) (table_codec talk) \<sigma>' \<and> published (\<sigma>' 1) = published (\<sigma> 1) @ [(''lobby'', broadcast_of hi b)] \<and>
     cstep (\<lambda>k i. 1) (table_codec talk) \<sigma>' (\<sigma>'(0 := s2)) \<and> buf (ws_send (conns s2 0)) = buf (ws_send (conns s' 0)) @ [[1]]"
proof -
  let ?ho = "\<lambda>(k :: string) (i :: string). 1 :: nat"
  obtain s g where s: "creachable ?ho (table_codec talk) (two_nodes ann_listens s)" "mget (sys_rooms s) ''lobby'' = Some g"
    "mhas (members g) 7"
    by (rule two_talk)
  let ?c = "two_nodes ann_listens s"
  define e where "e = talk_env\<lparr>wcluster := true_cluster ?ho (sys_genv talk) ?c 0\<rparr>"
  have e: "wcodec e = table_codec talk" "jenc e y = Some [1]" for y by (simp_all add: e_def talk_env_def sys_wenv_def)
  have cl: "cluster_delivers ?ho (sys_genv talk) ?c 0 (wcluster e)" by (simp add: e_def true_cluster_delivers)
  have hi: "hi = sent_message (sys_genv talk) (conns (?c 0) 0) ''hi''" by (simp add: hi_def sent_message_def sys_genv_def)
  from talk_codecs(2) obtain d where d: "marshal (table_codec talk) (proto_msg.ChatUserMessage (Some hi)) = Some d"
    by (auto simp: codec_rt_def)
  have a: "ws_userID (conns (?c 0) 0) \<noteq> 0" "ws_currentRoom (conns (?c 0) 0) = ''lobby''" "''lobby'' \<noteq> ''''"
    "in_Payload talk_msg = JObj [(''content'', JStr ''hi'')]" "mget [(''content'', JStr ''hi'')] ''content'' = Some (JStr ''hi'')"
    "mget (sys_rooms (?c (?ho ''chat'' ''lobby''))) ''lobby'' = Some g" "mhas (members g) (ws_userID (conns (?c 0) 0))"
    "codec_rt (table_codec talk) (proto_msg.ChatSendMessageReq ''lobby'' (ws_userID (conns (?c 0) 0)) (ws_username (conns (?c 0) 0)) ''hi'' ChatMsgType_TEXT)"
    using s(2,3) talk_codecs(1) by (simp_all add: talk_msg_def mget_def)
  obtain out where "handleSendMessage e 0 talk_msg (?c 0) = sendToClient e 0 out ann_listens"
    by (rule send_cluster [OF s(1) sys_env_ok(1) cl e(1) a hi d]) simp
  moreover let ?s = "with_client 0 (\<lambda>x. x\<lparr>ws_send := (ws_send x)\<lparr>buf := buf (ws_send x) @ [[1]]\<rparr>\<rparr>) ann_listens"
  have "sendToClient e 0 out ann_listens = Ok ?s"
    by (rule sendToClient_room [OF e(2)]) (simp_all add: NewWSClient_def make_chan_def)
  ultimately have r: "handleSendMessage e 0 talk_msg (?c 0) = Ok ?s" by simp
  have n: "0 < nconns (?c 0)" by simp
  from send_reaches_subscribers [OF s(1) sys_env_ok(1) cl e(1) a hi talk_codecs(2) n r] obtain \<sigma>' b where
    o: "creachable ?ho (table_codec talk) \<sigma>'" "\<sigma>' 0 = ?s"
      "published (\<sigma>' 1) = published (?c 1) @ [(''lobby'', broadcast_of hi b)]" and
    all: "\<forall>n p h e2 bs. (''lobby'', Some p) \<in> set (subs (?c n)) \<and> (p, h) \<in> set (spawned (?c n)) \<and>
        wcodec (e2 :: sys_env) = table_codec talk \<and> jenc e2 \<lparr>out_Type = ''new_message'', out_Payload = PChat (Some hi)\<rparr> = Some bs \<and>
        \<not> closed (ws_send (conns (\<sigma>' n) (wc h))) \<and> length (buf (ws_send (conns (\<sigma>' n) (wc h)))) < 256 \<longrightarrow>
      (\<exists>s2. cstep ?ho (table_codec talk) \<sigma>' (\<sigma>'(n := s2)) \<and> buf (ws_send (conns s2 (wc h))) = buf (ws_send (conns (\<sigma>' n) (wc h))) @ [bs])"
    by (elim exE conjE)
  have b: "\<not> closed (ws_send (conns ?s 0))" "length (buf (ws_send (conns ?s 0))) < 256"
    by (simp_all add: with_client_def NewWSClient_def make_chan_def)
  from all [rule_format, of "''$1''" 0 "NewWebSocketGrain 0 7 ''s1''" e "[1]"] obtain s2 where
    "cstep ?ho (table_codec talk) \<sigma>' (\<sigma>'(0 := s2))" "buf (ws_send (conns s2 0)) = buf (ws_send (conns ?s 0)) @ [[1]]"
    using b e by (auto simp: o(2) simp del: with_client_simps)
  with s(1) r o show ?thesis by blast
qed

definition join_msg :: ws_in where
  "join_msg = \<lparr>in_Type = ''join_room'', in_Payload = JObj [(''room_id'', JStr ''lobby'')]\<rparr>"

text \<open>A codec for ann's joining, and the room she finds: it has just been activated by her request.\<close>

definition door_room :: chat_grain where
  "door_room = fst (onStarted (grain_ctx (sys_genv []) ''chat'' ''lobby'') NewChatGrain new_node)"

definition door_notice :: ChatMessage where
  "door_notice = \<lparr>cm_MsgId = generateMsgId noon, cm_SenderId = 0, cm_SenderName = ''System'', cm_RoomId = ''lobby'',
     cm_Type = ChatMsgType_JOIN, cm_Content = ''ann'' @ t_joined_notice, cm_Timestamp = unixMilli noon\<rparr>"

definition door_answer :: proto_msg where
  "door_answer = ChatJoinRoomResp ErrorCode_OK t_joined_room (Some (room_info door_room 1)) [door_notice]"

definition door :: "proto_msg list" where
  "door = [proto_msg.ChatJoinRoomReq ''lobby'' 7 ''ann'', door_answer]"

lemma door_codec:
  "codec_rt (table_codec door) (proto_msg.ChatJoinRoomReq ''lobby'' 7 ''ann'')" "codec_rt (table_codec door) door_answer"
  "marshal (table_codec door) (proto_msg.ChatJoinRoomReq ''lobby'' 7 ''ann'') = Some [0]"
  "marshal (table_codec door) door_answer = Some [1]"
proof -
  have i: "index_of door (proto_msg.ChatJoinRoomReq ''lobby'' 7 ''ann'') = Some 0" "index_of door door_answer = Some 1"
    "length door \<le> 256"
    by (simp_all add: door_def door_answer_def)
  show "codec_rt (table_codec door) (proto_msg.ChatJoinRoomReq ''lobby'' 7 ''ann'')" "codec_rt (table_codec door) door_answer"
    by (rule table_codec_rt [OF i(1,3)], rule table_codec_rt [OF i(2,3)])
  show "marshal (table_codec door) (proto_msg.ChatJoinRoomReq ''lobby'' 7 ''ann'') = Some [0]"
    "marshal (table_codec door) door_answer = Some [1]"
    by (simp_all add: table_codec_def i)
qed

lemma door_ids: "has_id (proto_msg.ChatJoinRoomReq ''lobby'' 7 ''ann'')" "has_id door_answer"
  by (simp_all add: door_answer_def has_id_def MsgId_value_def MsgId_value_entries_def)

lemma door_room_simps [simp]:
  "members door_room = []" "messages door_room = []" "maxMembers door_room = 50" "gIdentity door_room = ''lobby''"
  using onStarted_chat [of "grain_ctx (sys_genv []) ''chat'' ''lobby''" NewChatGrain new_node]
  by (simp_all add: door_room_def) (simp add: onStarted_def grain_ctx_def Let_def)

lemma door_join:
  assumes "decode (table_codec door) ''ChatJoinRoomReq'' q = Some (proto_msg.ChatJoinRoomReq ''lobby'' 7 ''ann'')"
  obtains g where "ChatJoinRoomReq (ge_chat (sys_genv door)) door_room w q = Ok (g, w, Some door_answer, ErrorCode_OK)"
    "mhas (members g) 7"
  using assms
  by (simp add: ChatJoinRoomReq_def Let_def sys_genv_def member_count_def i32_id mlen_def mhas_def getRecentMessages_Ok
      door_answer_def door_notice_def room_info_def mget_def mput_def)

lemma door_served:
  assumes "MsgId q = MsgId_PChatJoinRoomReq" "Code q = ErrorCode_OK"
    and "decode (table_codec door) ''ChatJoinRoomReq'' q = Some (proto_msg.ChatJoinRoomReq ''lobby'' 7 ''ann'')"
    and "sys_rooms s = []" "node_of s = new_node"
  obtains s' r where "grain_request (sys_genv door) ''lobby'' ''chat'' (Envelope q) s = Ok (Some (s', Some r))"
    "open_response (table_codec door) i r = Inr door_answer"
proof -
  let ?ctx = "grain_ctx (sys_genv door) ''chat'' ''lobby''"
  have ctx: "?ctx = grain_ctx (sys_genv []) ''chat'' ''lobby''" by (simp add: grain_ctx_def sys_genv_def)
  obtain w where w: "onStarted ?ctx NewChatGrain new_node = (door_room, w)"
    unfolding ctx door_room_def by (cases "onStarted (grain_ctx (sys_genv []) ''chat'' ''lobby'') NewChatGrain new_node") simp
  obtain g where g: "ChatJoinRoomReq (ge_chat (sys_genv door)) door_room w q = Ok (g, w, Some door_answer, ErrorCode_OK)"
    by (rule door_join [OF assms(3)])
  have h: "find_handler door_room (MsgId q) = Some HJoinRoom"
    using find_handler_start [of "grain_ctx (sys_genv []) ''chat'' ''lobby''" NewChatGrain new_node] assms(1)
    by (simp add: door_room_def find_handler_NewChatGrain chat_table_def mget_def)
  let ?r = "reply (table_codec door) q (Some door_answer) ErrorCode_OK"
  have "grain_request (sys_genv door) ''lobby'' ''chat'' (Envelope q) s =
      Ok (Some ((with_node w s)\<lparr>sys_rooms := mput ''lobby'' g (sys_rooms s)\<rparr>, Some ?r))"
    using w g h assms(4,5) by (simp add: grain_request_def grain_turn_def Receive_def) (simp add: sys_genv_def)
  moreover have "open_response (table_codec door) i ?r = Inr door_answer"
    using reply_ok [OF door_ids(2) door_codec(4), of q ErrorCode_OK]
    by (intro open_response_ok [OF door_codec(2,4) door_ids(2)]) (simp_all add: reply_def)
  ultimately show ?thesis by (rule that)
qed

theorem join_end_to_end_witness:
  "\<exists>\<sigma> e s' \<sigma>' g. creachable (\<lambda>k i. 1) (table_codec door) \<sigma> \<and> handleJoinRoom e 0 join_msg (\<sigma> 0) = Ok s' \<and> \<sigma>' 0 = s' \<and>
     creachable (\<lambda>k i. 1) (table_codec door) \<sigma>' \<and> mget (sys_rooms (\<sigma>' 1)) ''lobby'' = Some g \<and> mhas (members g) 7 \<and>
     ws_currentRoom (conns s' 0) = ''lobby'' \<and> subs s' = [(''lobby'', None)]"
proof -
  let ?ho = "\<lambda>(k :: string) (i :: string). 1 :: nat" and ?q = "proto_msg.ChatJoinRoomReq ''lobby'' 7 ''ann''"
  let ?m = "request_of '''' ''lobby'' ''chat'' ''JoinRoom'' ?q [0]" and ?c = "two_nodes logged_in new_sys"
  define e where "e = sys_wenv door join_msg\<lparr>wcluster := true_cluster ?ho (sys_genv door) ?c 0\<rparr>"
  have c: "creachable ?ho (table_codec door) ?c" by (rule two_nodes_reachable [OF reachable_samples(3,1)])
  have e: "wcluster e = true_cluster ?ho (sys_genv door) ?c 0" "wcodec e = table_codec door" "wtrace e = ''''" "subscribe_ok e"
    by (simp_all add: e_def sys_wenv_def)
  have m: "MsgId ?m = MsgId_PChatJoinRoomReq" "Code ?m = ErrorCode_OK"
    by (simp_all add: request_of_def msg_id_def MsgId_value_def MsgId_value_entries_def)
  have n: "sys_rooms new_sys = []" "node_of new_sys = new_node"
    by (simp_all add: new_sys_def ws_state.defs NewWebSocketManager_def node.defs node_of_def new_node_def NewRoomRegistry_def)
  have "decode (table_codec door) ''ChatJoinRoomReq'' ?m = Some ?q" using decode_request [OF door_codec(1,3)] by simp
  then obtain x r where x: "grain_request (sys_genv door) ''lobby'' ''chat'' (Envelope ?m) new_sys = Ok (Some (x, Some r))"
    "open_response (table_codec door) (msg_id ?q) r = Inr door_answer"
    by (rule door_served [OF m _ n])
  have rpc: "Rpc (wcluster e) (table_codec door) '''' ''lobby'' ''chat'' ''JoinRoom'' ?q logged_in = Ok (logged_in, Inr door_answer)"
    using x by (simp add: Rpc_sent [OF door_ids(1) door_codec(3)] e true_cluster_def server_of_def)
  let ?s = "SubscribeTopic e 0 ''lobby'' (with_client 0 (\<lambda>x. x\<lparr>ws_currentRoom := ''lobby''\<rparr>) logged_in)"
  have j: "handleJoinRoom e 0 join_msg (?c 0) =
      sendToClient e 0 \<lparr>out_Type = ''room_joined'', out_Payload = PRoom (Some (room_info door_room 1))\<rparr> ?s"
    using rpc by (simp add: handleJoinRoom_def join_msg_def mget_def assert_string_def Let_def e door_answer_def)
  have "\<not> closed (ws_send (conns ?s 0))" by (simp add: SubscribeTopic_def with_client_def NewWSClient_def make_chan_def)
  from send_total [OF this] obtain s' where s': "handleJoinRoom e 0 join_msg (?c 0) = Ok s'" unfolding j by blast
  have room: "ws_currentRoom (conns s' 0) = ''lobby''"
    using sendToClient_frame [OF s' [unfolded j]]
    by (auto simp: only_send_def SubscribeTopic_def with_client_def)
  have a: "0 < nconns (?c 0)" "ws_userID (conns (?c 0) 0) \<noteq> 0" "in_Payload join_msg = JObj [(''room_id'', JStr ''lobby'')]"
    "mget [(''room_id'', JStr ''lobby'')] ''room_id'' = Some (JStr ''lobby'')"
    "codec_rt (table_codec door) (proto_msg.ChatJoinRoomReq ''lobby'' (ws_userID (conns (?c 0) 0)) (ws_username (conns (?c 0) 0)))"
    using door_codec(1) by (simp_all add: join_msg_def mget_def)
  have cl: "cluster_serves ?ho (table_codec door) ?c 0 (wcluster e)" unfolding e by (rule true_cluster_serves) simp
  from join_end_to_end [OF c cl e(2) a s'] obtain \<sigma>' where o: "creachable ?ho (table_codec door) \<sigma>'" "\<sigma>' 0 = s'" and
    d: "(ws_currentRoom (conns s' 0) = ''lobby'' \<and>
      (\<exists>g. mget (sys_rooms (\<sigma>' (?ho ''chat'' ''lobby''))) ''lobby'' = Some g \<and> mhas (members g) (ws_userID (conns (?c 0) 0))) \<and>
      subs s' = (if subscribe_ok e then subs (?c 0) @ [(''lobby'', ws_pid (conns (?c 0) 0))] else subs (?c 0)) \<and>
      (\<forall>g0. mget (sys_rooms (?c (?ho ''chat'' ''lobby''))) ''lobby'' = Some g0 \<longrightarrow> int (mlen (members g0)) < maxMembers g0) \<or>
    (\<exists>ch. conns s' 0 = conns (?c 0) 0\<lparr>ws_send := ch\<rparr>) \<and> subs s' = subs (?c 0))"
    by (elim exE conjE)
  from d have "(\<exists>g. mget (sys_rooms (\<sigma>' 1)) ''lobby'' = Some g \<and> mhas (members g) 7) \<and> subs s' = [(''lobby'', None)]"
  proof
    assume "(\<exists>ch. conns s' 0 = conns (?c 0) 0\<lparr>ws_send := ch\<rparr>) \<and> subs s' = subs (?c 0)"
    then have "ws_currentRoom (conns s' 0) = ''''" by auto
    with room show ?thesis by simp
  qed (simp add: e NewWSClient_def)
  with c s' o room show ?thesis by blast
qed

end
