(* ===== verification/Requests.thy ===== *)
theory Requests
  imports ClusterProps
begin

text \<open>
  What becomes of one request in a cluster in which everything else goes on: the other steps of the cluster
  before and after the grain's turn are explicit lists of states, so that what a property says of the end of
  a request it says of the cluster those steps lead to. Whatever run it is, the properties hold for it.
\<close>

section \<open>Steps of the others\<close>

fun crun :: "placement \<Rightarrow> codec \<Rightarrow> cluster_state \<Rightarrow> cluster_state list \<Rightarrow> bool" where
  "crun home cd \<sigma> [] \<longleftrightarrow> True"
| "crun home cd \<sigma> (\<tau> # \<tau>s) \<longleftrightarrow> cstep home cd \<sigma> \<tau> \<and> crun home cd \<tau> \<tau>s"

text \<open>Where a run ends.\<close>

fun ending :: "cluster_state \<Rightarrow> cluster_state list \<Rightarrow> cluster_state" where
  "ending \<sigma> [] = \<sigma>"
| "ending \<sigma> (\<tau> # \<tau>s) = ending \<tau> \<tau>s"

text \<open>A user is let go at one of the steps.\<close>

fun goes :: "placement \<Rightarrow> codec \<Rightarrow> string \<Rightarrow> int \<Rightarrow> cluster_state \<Rightarrow> cluster_state list \<Rightarrow> bool" where
  "goes home cd i u \<sigma> [] \<longleftrightarrow> False"
| "goes home cd i u \<sigma> (\<tau> # \<tau>s) \<longleftrightarrow>
     lets_go cd i u (\<sigma> (home ''chat'' i)) (\<tau> (home ''chat'' i)) \<or> goes home cd i u \<tau> \<tau>s"

lemma crun_steps: "crun home cd \<sigma> \<tau>s \<Longrightarrow> (cstep home cd)\<^sup>*\<^sup>* \<sigma> (ending \<sigma> \<tau>s)"
proof (induction \<tau>s arbitrary: \<sigma>)
  case (Cons \<tau> \<tau>s)
  then have "cstep home cd \<sigma> \<tau>" "(cstep home cd)\<^sup>*\<^sup>* \<tau> (ending \<tau> \<tau>s)" by simp_all
  from converse_rtranclp_into_rtranclp [of "cstep home cd", OF this] show ?case by simp
qed simp

lemma crun_reachable: "crun home cd \<sigma> \<tau>s \<Longrightarrow> creachable home cd \<sigma> \<Longrightarrow> creachable home cd (ending \<sigma> \<tau>s)"
  using crun_steps creachable_trans by blast

lemma cstep_lets_go:
  assumes "cstep home cd \<sigma> \<tau>" "creachable home cd \<sigma>" "in_room (\<sigma> h) i u" "\<not> in_room (\<tau> h) i u"
  shows "lets_go cd i u (\<sigma> h) (\<tau> h)"
  using assms(1)
proof cases
  case (node m s')
  with assms(3,4) have m: "m = h" by (auto split: if_splits)
  have "\<not> in_room s' i u" using assms(4) node(1) m by simp
  with step_lets_go [OF node(2) creachable_inv [OF assms(2)]] assms(3) m have "lets_go cd i u (\<sigma> m) s'" by simp
  then show ?thesis by (simp add: node(1) m)
qed

text \<open>Whoever is in a room is in it at the end, or one of the steps lets him go.\<close>

lemma crun_goes:
  "crun home cd \<sigma> \<tau>s \<Longrightarrow> creachable home cd \<sigma> \<Longrightarrow> in_room (\<sigma> (home ''chat'' i)) i u \<Longrightarrow>
     in_room (ending \<sigma> \<tau>s (home ''chat'' i)) i u \<or> goes home cd i u \<sigma> \<tau>s"
proof (induction \<tau>s arbitrary: \<sigma>)
  case (Cons \<tau> \<tau>s)
  show ?case
  proof (cases "in_room (\<tau> (home ''chat'' i)) i u")
    case True
    with Cons.IH [of \<tau>] Cons.prems creachable_step show ?thesis by auto
  next
    case False
    with cstep_lets_go [of home cd \<sigma> \<tau>] Cons.prems show ?thesis by simp
  qed
qed simp

section \<open>A request\<close>

text \<open>
  How a request of kind \<open>k\<close> and identity \<open>i\<close> goes that is made in the state \<open>\<sigma>\<close>. It is lost while the
  others step (the caller learns that it could not be sent, or that no answer came); or the others step,
  the grain takes its turn at its home, which leaves its node in a new state with a reply, the others step
  again, and the reply arrives or does not.
\<close>

datatype request_run =
    Lost "cluster_state list" bool
  | Handled "cluster_state list" grain_env sys_state RpcMsg "cluster_state list" bool

primrec request_ok :: "placement \<Rightarrow> codec \<Rightarrow> cluster_state \<Rightarrow> string \<Rightarrow> string \<Rightarrow> RpcMsg \<Rightarrow> request_run \<Rightarrow> bool" where
  "request_ok home cd \<sigma> i k m (Lost \<tau>s sent) \<longleftrightarrow> crun home cd \<sigma> \<tau>s"
| "request_ok home cd \<sigma> i k m (Handled before ge x r after arrived) \<longleftrightarrow>
     crun home cd \<sigma> before \<and> grain_env_ok cd ge \<and>
     grain_request ge i k (Envelope m) (ending \<sigma> before (home k i)) = Ok (Some (x, Some r)) \<and>
     crun home cd ((ending \<sigma> before)(home k i := x)) after"

text \<open>The state of the cluster in which the caller wakes up, and what it is told.\<close>

primrec ends :: "placement \<Rightarrow> cluster_state \<Rightarrow> string \<Rightarrow> string \<Rightarrow> request_run \<Rightarrow> cluster_state" where
  "ends home \<sigma> i k (Lost \<tau>s sent) = ending \<sigma> \<tau>s"
| "ends home \<sigma> i k (Handled before ge x r after arrived) = ending ((ending \<sigma> before)(home k i := x)) after"

primrec fate :: "request_run \<Rightarrow> call_result" where
  "fate (Lost \<tau>s sent) = (if sent then FutureErr else RequestErr)"
| "fate (Handled before ge x r after arrived) = (if arrived then Replied r else FutureErr)"

text \<open>The framework of node \<open>a\<close> does that with the request.\<close>

definition went_so :: "placement \<Rightarrow> codec \<Rightarrow> cluster_state \<Rightarrow> nat \<Rightarrow> sys_state cluster \<Rightarrow> string \<Rightarrow> string \<Rightarrow> RpcMsg \<Rightarrow> request_run \<Rightarrow> bool" where
  "went_so home cd \<sigma> a cl i k m \<rho> \<longleftrightarrow>
     request_ok home cd \<sigma> i k m \<rho> \<and> cl (\<sigma> a) i k m = (ends home \<sigma> i k \<rho> a, fate \<rho>)"

text \<open>A grain's turn is a step, so that a request is a run of the cluster.\<close>

lemma handled_turn:
  assumes "request_ok home cd \<sigma> i k m (Handled before ge x r after arrived)" "i \<noteq> ''''"
  shows "cstep home cd (ending \<sigma> before) ((ending \<sigma> before)(home k i := x))"
proof -
  have "grain_request ge i k (Envelope m) (ending \<sigma> before (home k i)) = Ok (Some (x, Some r))" "grain_env_ok cd ge"
    using assms(1) by simp_all
  from home_turn(1) [where k = k and home = home and \<sigma> = "ending \<sigma> before", OF this assms(2)] show ?thesis .
qed

lemma request_runs:
  assumes "request_ok home cd \<sigma> i k m \<rho>" "i \<noteq> ''''"
  shows "(cstep home cd)\<^sup>*\<^sup>* \<sigma> (ends home \<sigma> i k \<rho>)"
proof (cases \<rho>)
  case (Lost \<tau>s sent)
  with assms(1) crun_steps show ?thesis by simp
next
  case (Handled before ge x r after arrived)
  note turn = handled_turn [OF assms(1) [unfolded Handled] assms(2)]
  have "(cstep home cd)\<^sup>*\<^sup>* \<sigma> (ending \<sigma> before)" using assms(1) crun_steps by (simp add: Handled)
  from rtranclp.rtrancl_into_rtrancl [of "cstep home cd", OF this turn]
  have "(cstep home cd)\<^sup>*\<^sup>* \<sigma> ((ending \<sigma> before)(home k i := x))" .
  moreover have "(cstep home cd)\<^sup>*\<^sup>* ((ending \<sigma> before)(home k i := x)) (ends home \<sigma> i k \<rho>)"
    using crun_steps [of home cd "(ending \<sigma> before)(home k i := x)" after] assms(1) by (simp add: Handled)
  ultimately show ?thesis by (rule rtranclp_trans)
qed

text \<open>The pieces of a request that is handled.\<close>

lemma handled_facts:
  assumes "request_ok home cd \<sigma> i k m (Handled before ge x r after arrived)" "creachable home cd \<sigma>" "i \<noteq> ''''"
  shows "crun home cd \<sigma> before" "grain_env_ok cd ge"
    "grain_request ge i k (Envelope m) (ending \<sigma> before (home k i)) = Ok (Some (x, Some r))"
    "crun home cd ((ending \<sigma> before)(home k i := x)) after" "creachable home cd (ending \<sigma> before)"
    "creachable home cd ((ending \<sigma> before)(home k i := x))"
proof -
  show "crun home cd \<sigma> before" "grain_env_ok cd ge"
    "grain_request ge i k (Envelope m) (ending \<sigma> before (home k i)) = Ok (Some (x, Some r))"
    "crun home cd ((ending \<sigma> before)(home k i := x)) after"
    using assms(1) by simp_all
  then show "creachable home cd (ending \<sigma> before)" using crun_reachable assms(2) by blast
  then show "creachable home cd ((ending \<sigma> before)(home k i := x))"
    by (rule creachable_step [OF _ handled_turn [OF assms(1,3)]])
qed

text \<open>What \<^verbatim>\<open>Rpc\<close> makes of it.\<close>

lemma Rpc_went:
  assumes "went_so home cd \<sigma> a (wcluster e) i k (request_of t i k n q b) \<rho>" "has_id q" "marshal cd q = Some b"
    and "i \<noteq> ''''" "k \<noteq> ''''" "n \<noteq> ''''"
  shows "Rpc (wcluster e) cd t i k n q (\<sigma> a) = Ok (ends home \<sigma> i k \<rho> a, case fate \<rho> of
      RequestErr \<Rightarrow> Inl (CallFailed GetGrainFailed) | FutureErr \<Rightarrow> Inl (CallFailed CallGrainFailed)
    | Replied r \<Rightarrow> open_response cd (msg_id q) r | RepliedOther \<Rightarrow> undefined)"
proof -
  have "wcluster e (\<sigma> a) i k (request_of t i k n q b) = (ends home \<sigma> i k \<rho> a, fate \<rho>)"
    using assms(1) by (simp add: went_so_def)
  moreover have "fate \<rho> \<noteq> RepliedOther" by (cases \<rho>) simp_all
  ultimately show ?thesis
    using Rpc_sent [OF assms(2-6), of "wcluster e" t "\<sigma> a"] by (simp split: call_result.splits)
qed

section \<open>A request while another client connects\<close>

text \<open>Whenever node \<open>a\<close> makes a request, another client connects to it before the answer is there.\<close>

definition busy_cluster :: "placement \<Rightarrow> grain_env \<Rightarrow> cluster_state \<Rightarrow> nat \<Rightarrow> sys_state cluster" where
  "busy_cluster home ge \<sigma> a s i k m = (let (s', r) = true_cluster home ge \<sigma> a s i k m in (fst (HandleWebSocket True s'), r))"

definition busy_run :: "placement \<Rightarrow> grain_env \<Rightarrow> cluster_state \<Rightarrow> nat \<Rightarrow> string \<Rightarrow> string \<Rightarrow> sys_state \<Rightarrow> RpcMsg \<Rightarrow> request_run" where
  "busy_run home ge \<sigma> a i k x r =
     Handled [] ge x r [\<sigma>(home k i := x, a := fst (HandleWebSocket True ((\<sigma>(home k i := x)) a)))] True"

lemma busy_served:
  assumes "grain_request ge i k (Envelope m) ((\<sigma>(a := s)) (home k i)) = Ok (Some (x, Some r))"
  shows "busy_cluster home ge \<sigma> a s i k m = (fst (HandleWebSocket True (((\<sigma>(a := s))(home k i := x)) a)), Replied r)"
    "same_ws s (((\<sigma>(a := s))(home k i := x)) a)"
proof -
  have srv: "server_of home \<sigma> a s k i = (\<sigma>(a := s)) (home k i)" by (simp add: server_of_def)
  show "busy_cluster home ge \<sigma> a s i k m = (fst (HandleWebSocket True (((\<sigma>(a := s))(home k i := x)) a)), Replied r)"
    using assms by (simp add: busy_cluster_def true_cluster_def srv del: fun_upd_apply) simp
  show "same_ws s (((\<sigma>(a := s))(home k i := x)) a)"
    using grain_request_ws [OF assms] by (auto split: if_splits)
qed

lemma busy_went:
  assumes "grain_request ge i k (Envelope m) (\<sigma> (home k i)) = Ok (Some (x, Some r))" "grain_env_ok cd ge"
  shows "went_so home cd \<sigma> a (busy_cluster home ge \<sigma> a) i k m (busy_run home ge \<sigma> a i k x r)"
proof -
  have t: "grain_request ge i k (Envelope m) ((\<sigma>(a := \<sigma> a)) (home k i)) = Ok (Some (x, Some r))" using assms(1) by simp
  have "cstep home cd \<tau> (\<tau>(a := fst (HandleWebSocket True (\<tau> a))))" for \<tau>
    by (rule cstep.node [OF step.Connect])
  with assms busy_served(1) [where \<sigma> = \<sigma> and a = a and home = home, OF t] show ?thesis
    by (simp add: went_so_def busy_run_def del: fun_upd_apply) (simp only: fun_upd_triv fun_upd_same)
qed

end
