(* ===== verification/Among.thy ===== *)
theory Among
  imports Requests
begin

text \<open>
  Handlers among others. While a handler waits for the answer to its request, everything else goes on:
  other connections of its node are served, actors take their turns, other nodes work, and the grain it
  asked has handled other requests before its own. \<open>call_among\<close> states what the framework does with a
  request in the midst of this; \<open>handlers_among_others\<close> shows that a handler's run is still a run of the
  cluster. The last sections say what joining a room and sending to it come to: for every run of the
  request (\<open>request_run\<close>), and of the state of the cluster that very run ends in.
\<close>

section \<open>What a cluster keeps\<close>

lemma cstep_only_comes:
  assumes "cstep home cd \<sigma> \<tau>" "creachable home cd \<sigma>"
  shows "only_comes (\<sigma> n) (\<tau> n)"
  using assms(1)
proof cases
  case (node m s')
  with step_only_comes [OF node(2) creachable_inv [OF assms(2)]] show ?thesis by (cases "n = m") auto
qed

lemma csteps_only_comes:
  assumes "(cstep home cd)\<^sup>*\<^sup>* \<sigma> \<tau>" "creachable home cd \<sigma>"
  shows "only_comes (\<sigma> n) (\<tau> n)"
  using assms(1)
proof (induction rule: rtranclp_induct)
  case (step \<tau>1 \<tau>2)
  show ?case by (rule only_comes_trans [OF step(3) cstep_only_comes [OF step(2) creachable_trans [OF assms(2) step(1)]]])
qed simp

lemma csteps_nconns:
  "(cstep home cd)\<^sup>*\<^sup>* \<sigma> \<tau> \<Longrightarrow> creachable home cd \<sigma> \<Longrightarrow> c < nconns (\<sigma> n) \<Longrightarrow> c < nconns (\<tau> n)"
  using csteps_only_comes [of home cd \<sigma> \<tau> n] by (simp add: only_comes_def)

lemma csteps_published:
  assumes "(cstep home cd)\<^sup>*\<^sup>* \<sigma> \<tau>" "creachable home cd \<sigma>"
  shows "set (published (\<sigma> n)) \<subseteq> set (published (\<tau> n))"
  using assms(1)
proof (induction rule: rtranclp_induct)
  case (step \<tau>1 \<tau>2)
  from step(2) obtain m s' where m: "\<tau>2 = \<tau>1(m := s')" "step (view_of home \<tau>1 m) cd (\<tau>1 m) s'" by (auto elim: cstep.cases)
  have "set (published (\<tau>1 m)) \<subseteq> set (published s')"
    by (rule step_published [OF m(2) creachable_inv [OF creachable_trans [OF assms(2) step(1)]]])
  with step(3) show ?case by (cases "n = m") (auto simp: m(1))
qed simp

section \<open>A request among others\<close>

text \<open>
  What the framework does with a request that node \<open>a\<close> makes in the state \<open>\<sigma>\<close>: the cluster goes on; the
  request is lost, or the grain's home handles it once, in whatever state it is then in; the cluster goes
  on; and the answer arrives or is lost. \<open>own\<close> is what holds of the node when the handler wakes up: what
  only the handler itself could have changed.
\<close>

definition call_among ::
    "placement \<Rightarrow> codec \<Rightarrow> cluster_state \<Rightarrow> nat \<Rightarrow> (sys_state \<Rightarrow> bool) \<Rightarrow> string \<Rightarrow> string \<Rightarrow> RpcMsg \<Rightarrow> sys_state \<times> call_result \<Rightarrow> bool" where
  "call_among home cd \<sigma> a own i k m res \<longleftrightarrow> own (fst res) \<and>
     (\<exists>\<sigma>1. (cstep home cd)\<^sup>*\<^sup>* \<sigma> \<sigma>1 \<and>
        ((fst res = \<sigma>1 a \<and> (snd res = RequestErr \<or> snd res = FutureErr)) \<or>
         (\<exists>ge x r \<sigma>2. grain_env_ok cd ge \<and>
            grain_request ge i k (Envelope m) (\<sigma>1 (home k i)) = Ok (Some (x, Some r)) \<and>
            (cstep home cd)\<^sup>*\<^sup>* (\<sigma>1(home k i := x)) \<sigma>2 \<and> fst res = \<sigma>2 a \<and>
            (snd res = Replied r \<or> snd res = FutureErr))))"

text \<open>The cases of a request: lost on the way, or handled by a turn of the grain, which is a step of the cluster.\<close>

lemma call_among_cases:
  assumes "call_among home cd \<sigma> a own i k m (s', res)" "i \<noteq> ''''"
  obtains (lost) \<sigma>1 where "(cstep home cd)\<^sup>*\<^sup>* \<sigma> \<sigma>1" "s' = \<sigma>1 a" "res = RequestErr \<or> res = FutureErr" "own s'"
  | (handled) ge \<sigma>1 x r \<sigma>2 where "(cstep home cd)\<^sup>*\<^sup>* \<sigma> \<sigma>1" "grain_env_ok cd ge"
      "grain_request ge i k (Envelope m) (\<sigma>1 (home k i)) = Ok (Some (x, Some r))" "cstep home cd \<sigma>1 (\<sigma>1(home k i := x))"
      "(cstep home cd)\<^sup>*\<^sup>* (\<sigma>1(home k i := x)) \<sigma>2" "s' = \<sigma>2 a" "res = Replied r \<or> res = FutureErr" "own s'"
  using assms home_turn(1) [OF _ _ assms(2)] unfolding call_among_def by (fastforce simp: fun_upd_def)

lemma call_among_runs:
  assumes "call_among home cd \<sigma> a own i k m (s', res)" "i \<noteq> ''''"
  obtains \<sigma>2 where "(cstep home cd)\<^sup>*\<^sup>* \<sigma> \<sigma>2" "s' = \<sigma>2 a" "own s'"
  using assms
proof (cases rule: call_among_cases)
  case (handled ge \<sigma>1 x r \<sigma>2)
  from rtranclp.rtrancl_into_rtrancl [of "cstep home cd", OF handled(1,4)] handled(5)
  have "(cstep home cd)\<^sup>*\<^sup>* \<sigma> \<sigma>2" by (rule rtranclp_trans)
  then show thesis using handled(6,8) by (rule that)
qed (rule that)

section \<open>A handler among others\<close>

text \<open>The environment of a handler of node \<open>a\<close> that is called in the state \<open>\<sigma>\<close>: it may do its own things before it
  makes a request; when it wakes up, the pid that an actor it makes would get is still unused.\<close>

definition env_among :: "placement \<Rightarrow> codec \<Rightarrow> cluster_state \<Rightarrow> nat \<Rightarrow> sys_env \<Rightarrow> bool" where
  "env_among home cd \<sigma> a e \<longleftrightarrow> wcodec e = cd \<and>
     (\<exists>ge. grain_env_ok cd ge \<and> serves_raw (view_of home \<sigma> a) ge (raw_request e)) \<and> pid_new e (\<sigma> a) \<and>
     (\<forall>s i k m. quiet (view_of home \<sigma> a) cd (\<sigma> a) s \<and> i \<noteq> '''' \<longrightarrow>
        call_among home cd (\<sigma>(a := s)) a (pid_new e) i k m (wcluster e s i k m))"

text \<open>Where a handler of the connection \<open>c\<close> may have got to.\<close>

definition went :: "placement \<Rightarrow> codec \<Rightarrow> cluster_state \<Rightarrow> nat \<Rightarrow> nat \<Rightarrow> sys_state \<Rightarrow> bool" where
  "went home cd \<sigma> a c s \<longleftrightarrow> c < nconns s \<and> (\<exists>\<sigma>'. (cstep home cd)\<^sup>*\<^sup>* \<sigma> \<sigma>' \<and> \<sigma>' a = s)"

lemma went_step:
  assumes "went home cd \<sigma> a c s" "\<And>v. c < nconns s \<Longrightarrow> step v cd s s'" "nconns s' = nconns s"
  shows "went home cd \<sigma> a c s'"
proof -
  from assms(1) obtain \<sigma>' where s: "c < nconns s" "(cstep home cd)\<^sup>*\<^sup>* \<sigma> \<sigma>'" "\<sigma>' a = s" by (auto simp: went_def)
  from assms(2) [OF s(1)] have "step (view_of home \<sigma>' a) cd (\<sigma>' a) s'" by (simp add: s(3))
  from rtranclp.rtrancl_into_rtrancl [of "cstep home cd", OF s(2) cstep.node [OF this]] s(1) assms(3) show ?thesis
    unfolding went_def by (intro conjI exI [of _ "\<sigma>'(a := s')"]) simp_all
qed

lemma went_send:
  assumes "sendToClient (e :: sys_env) c out s = Ok s'" "went home cd \<sigma> a c s"
  shows "went home cd \<sigma> a c s'" "pid_new e2 s' = pid_new e2 s"
proof -
  note o = only_sendD [OF sendToClient_frame [OF assms(1)]]
  show "went home cd \<sigma> a c s'" using step.Send [OF _ assms(1)] by (rule went_step [OF assms(2)]) (simp_all add: o)
  show "pid_new e2 s' = pid_new e2 s" by (simp add: pid_new_def o)
qed

lemma went_ws:
  assumes "went home cd \<sigma> a c s"
  shows "went home cd \<sigma> a c (with_client c (\<lambda>x. x\<lparr>ws_currentRoom := r\<rparr>) s)" "went home cd \<sigma> a c (unregisterClient c s)"
    "went home cd \<sigma> a c (SubscribeTopic (e :: sys_env) c t s)"
    "pid_new e s \<Longrightarrow> went home cd \<sigma> a c (fst (OnLogin e c s))"
proof -
  show "went home cd \<sigma> a c (with_client c (\<lambda>x. x\<lparr>ws_currentRoom := r\<rparr>) s)"
    by (rule went_step [OF assms step.EnterRoom]) simp_all
  show "went home cd \<sigma> a c (unregisterClient c s)"
    by (rule went_step [OF assms step.Unregister]) (simp_all add: unregisterClient_def)
  show "went home cd \<sigma> a c (SubscribeTopic e c t s)"
    by (rule went_step [OF assms step.Subscribe]) (simp_all add: SubscribeTopic_def)
  show "pid_new e s \<Longrightarrow> went home cd \<sigma> a c (fst (OnLogin e c s))"
    by (rule went_step [OF assms step.Spawn]) (auto simp: OnLogin_def Let_def split: option.split)
qed

lemma pid_new_ws [simp]:
  "pid_new e (with_client c f s) = pid_new e s" "pid_new e (unregisterClient c s) = pid_new e s"
  "pid_new e (SubscribeTopic e2 c t s) = pid_new e s"
  by (simp_all add: pid_new_def unregisterClient_def SubscribeTopic_def)

lemma went_quiet:
  assumes "quiet (view_of home \<sigma> a) cd (\<sigma> a) s" "c < nconns (\<sigma> a)"
  shows "went home cd \<sigma> a c s"
  using cstep_local [OF quietD(1) [OF assms(1)]] assms quietD(2) unfolding went_def by (intro conjI exI [of _ "\<sigma>(a := s)"]) auto

lemma went_call:
  assumes "wcluster e s i k m = (s', r)" "env_among home cd \<sigma> a e" "i \<noteq> ''''" "creachable home cd \<sigma>"
    and "quiet (view_of home \<sigma> a) cd (\<sigma> a) s" "c < nconns (\<sigma> a)"
  shows "went home cd \<sigma> a c s' \<and> pid_new e s'"
proof -
  from assms(2) [unfolded env_among_def] assms(3,5) have "call_among home cd (\<sigma>(a := s)) a (pid_new e) i k m (wcluster e s i k m)"
    by blast
  then obtain \<sigma>2 where s: "(cstep home cd)\<^sup>*\<^sup>* (\<sigma>(a := s)) \<sigma>2" "s' = \<sigma>2 a" "pid_new e s'"
    unfolding assms(1) by (rule call_among_runs) (rule assms(3))
  have r: "(cstep home cd)\<^sup>*\<^sup>* \<sigma> \<sigma>2" using cstep_local [OF quietD(1) [OF assms(5)]] s(1) by (rule rtranclp_trans)
  from csteps_nconns [OF r assms(4,6)] r s(2,3) show ?thesis by (auto simp: went_def)
qed

interpretation among: handler_run c e
    "\<lambda>s. creachable home cd \<sigma> \<and> env_among home cd \<sigma> a e \<and> c < nconns (\<sigma> a) \<and> quiet (view_of home \<sigma> a) cd (\<sigma> a) s"
    "\<lambda>s. went home cd \<sigma> a c s \<and> pid_new e s" "went home cd \<sigma> a c"
  for c :: nat and e :: sys_env and home cd \<sigma> a
proof (unfold_locales, goal_cases)
  case (1 s i k q)
  then obtain ge where "grain_env_ok cd ge" "serves_raw (view_of home \<sigma> a) ge (raw_request e)" by (auto simp: env_among_def)
  with 1 quiet_raw show ?case by blast
next
  case (2 s x)
  then show ?case by (simp add: quiet_ws(3))
next
  case (3 s i k m s' r)
  then show ?case using went_call by blast
next
  case (4 s)
  then have "map fst (spawned s) = map fst (spawned (\<sigma> a))" by (simp add: quiet_def)
  with 4 went_quiet show ?case by (auto simp: env_among_def pid_new_def simp flip: set_map)
next
  case (5 out s s')
  then show ?case using went_send [OF 5(1)] by blast
next
  case (6 s n)
  then show ?case by (simp add: went_ws(1))
next
  case (7 s n)
  then show ?case by (simp add: went_ws(3))
next
  case (8 s)
  then show ?case by (simp add: went_ws(2))
next
  case (9 out s s')
  then show ?case using went_send(1) [OF 9(1)] went_ws(4) by blast
qed simp

text \<open>C6: Nothing a connection does is outside the step relation, whatever happens meanwhile. Let a handler of
  any connection on any node run to its end, on any message, and let anything else go on while it waits for
  the answer to its request: other connections of its node, actors, the grains, other nodes; and let the
  request or the answer be lost. Then the state the handler leaves its node in is that of a cluster that got
  there by atomic steps from where it was when the handler began. So whatever holds in every reachable state
  of a cluster holds after every interleaving of handlers.\<close>

theorem handlers_among_others:
  assumes "handleMessage e c msg (\<sigma> a) = Ok s'" "creachable home cd \<sigma>" "env_among home cd \<sigma> a e" "c < nconns (\<sigma> a)"
  shows "\<exists>\<sigma>'. (cstep home cd)\<^sup>*\<^sup>* \<sigma> \<sigma>' \<and> creachable home cd \<sigma>' \<and> \<sigma>' a = s' \<and> c < nconns s'"
proof -
  have "went home cd \<sigma> a c s'" by (rule among.message [OF assms(1)]) (simp add: assms(2-4))
  then show ?thesis using creachable_trans [OF assms(2)] by (auto simp: went_def)
qed

section \<open>What is a connection's own\<close>

text \<open>Only the handlers of a connection, which its read loop runs one after the other, change who it belongs to,
  its actor, its room and its subscriptions.\<close>

definition own_same :: "nat \<Rightarrow> sys_state \<Rightarrow> sys_state \<Rightarrow> bool" where
  "own_same c s s' \<longleftrightarrow> ws_pid (conns s' c) = ws_pid (conns s c) \<and> ws_userID (conns s' c) = ws_userID (conns s c) \<and>
     ws_username (conns s' c) = ws_username (conns s c) \<and> ws_sessionID (conns s' c) = ws_sessionID (conns s c) \<and>
     ws_currentRoom (conns s' c) = ws_currentRoom (conns s c) \<and>
     (\<forall>t p. ws_pid (conns s c) = Some p \<longrightarrow> (t, Some p) \<in> set (subs s') \<longleftrightarrow> (t, Some p) \<in> set (subs s))"

definition own_step :: "nat \<Rightarrow> sys_state \<Rightarrow> sys_state \<Rightarrow> bool" where
  "own_step c s s' \<longleftrightarrow> (\<exists>q. s' = login_register c q s) \<or> (\<exists>e :: sys_env. s' = fst (OnLogin e c s)) \<or>
     (\<exists>r. s' = with_client c (\<lambda>x. x\<lparr>ws_currentRoom := r\<rparr>) s) \<or> (\<exists>(e :: sys_env) t. s' = SubscribeTopic e c t s)"

lemma own_same_refl [simp]: "own_same c s s"
  by (simp add: own_same_def)

lemma own_same_trans: "own_same c s1 s2 \<Longrightarrow> own_same c s2 s3 \<Longrightarrow> own_same c s1 s3"
  by (simp add: own_same_def)

lemma own_same_conn: "conns s' c = conns s c \<Longrightarrow> subs s' = subs s \<Longrightarrow> own_same c s s'"
  by (simp add: own_same_def)

lemma own_same_ws: "same_ws s s' \<Longrightarrow> own_same c s s'"
  by (simp add: own_same_conn same_ws_def)

lemma own_same_send: "sendToClient (e :: sys_env) d m s = Ok s' \<Longrightarrow> own_same c s s'"
  using sendToClient_frame by (fastforce simp: only_send_def own_same_def with_client_def)

lemma own_same_connect: "c < nconns s \<Longrightarrow> own_same c s (fst (HandleWebSocket ok s))"
  by (intro own_same_conn) (simp_all add: HandleWebSocket_def)

lemma own_same_subscribe:
  assumes "conn_inv s" "d \<noteq> c"
  shows "own_same c s (SubscribeTopic e d t s)"
proof -
  have "ws_pid (conns s d) \<noteq> Some p" if p: "ws_pid (conns s c) = Some p" for p
  proof
    assume "ws_pid (conns s d) = Some p"
    with conn_invD(6) [OF assms(1)] p obtain g h where "(p, g) \<in> set (spawned s)" "wc g = c" "(p, h) \<in> set (spawned s)" "wc h = d"
      by metis
    with conn_invD(4) [OF assms(1)] assms(2) show False by (auto dest: eq_key_imp_eq_value)
  qed
  then have "Some p \<noteq> ws_pid (conns s d)" if "ws_pid (conns s c) = Some p" for p using that by metis
  then show ?thesis by (simp add: own_same_def SubscribeTopic_def)
qed

lemma step_keeps_own:
  assumes "step v cd s s'" "sys_inv cd s" "c < nconns s" "\<not> own_step c s s'"
  shows "own_same c s s'"
  using assms(1)
proof cases
  case (Connect ok)
  with assms(3) show ?thesis by (simp add: own_same_connect)
next
  case (Call ge i k am r)
  with grain_request_ws [OF Call(4)] show ?thesis by (simp add: own_same_ws)
next
  case (StopGrain k i)
  with stop_grain_ws show ?thesis by (simp add: own_same_ws)
next
  case (Send d e m)
  then show ?thesis by (rule_tac own_same_send)
next
  case (Register d q)
  with assms(4) have "d \<noteq> c" unfolding own_step_def by blast
  with Register show ?thesis by (intro own_same_conn) (auto simp: login_register_def with_client_def split: prod.split)
next
  case (Spawn d e)
  with assms(4) have "d \<noteq> c" by (auto simp: own_step_def)
  with Spawn show ?thesis by (intro own_same_conn) (auto simp: OnLogin_def Let_def with_client_def split: option.split)
next
  case (EnterRoom d r)
  with assms(4) have "d \<noteq> c" by (auto simp: own_step_def)
  with EnterRoom show ?thesis by (intro own_same_conn) (auto simp: with_client_def)
next
  case (Subscribe d e t)
  with assms(4) have "d \<noteq> c" by (auto simp: own_step_def)
  with Subscribe(1) assms(2) show ?thesis by (simp add: own_same_subscribe sys_inv_def)
next
  case (Unregister d)
  then show ?thesis by (intro own_same_conn) (simp_all add: unregisterClient_def)
next
  case (CloseConn d)
  then show ?thesis by (simp add: own_same_def Close_def with_client_def)
next
  case (Write d p ev x b)
  from Write(3) have "ws_pid x = ws_pid (conns s d) \<and> ws_userID x = ws_userID (conns s d) \<and> ws_username x = ws_username (conns s d) \<and>
      ws_sessionID x = ws_sessionID (conns s d) \<and> ws_currentRoom x = ws_currentRoom (conns s d)"
    by (auto simp: writePump_def Let_def split: pump_event.splits recv.splits if_splits prod.splits)
  with Write(1) show ?thesis by (simp add: own_same_def with_client_def)
next
  case (ActorTurn p g am ctx e g' s1 r)
  have ok: "actor_ok (nconns s) g" using assms(2) conn_invD(5) [OF _ ActorTurn(2)] by (simp add: sys_inv_def)
  from ActorTurn(6) ok ActorTurn(4) have "own_same c s s1"
  proof (cases rule: ws_receive)
    case (chat m d)
    then show ?thesis by (rule_tac own_same_send)
  qed (simp_all add: own_same_conn)
  then show ?thesis by (simp add: ActorTurn(1) own_same_def set_actor_def)
qed

text \<open>What others do, on this node or elsewhere, keeps what is the connection's own.\<close>

lemma others_keep_own:
  assumes "(\<lambda>\<sigma> \<tau>. cstep home cd \<sigma> \<tau> \<and> (\<tau> a = \<sigma> a \<or> \<not> own_step c (\<sigma> a) (\<tau> a)))\<^sup>*\<^sup>* \<sigma> \<tau>" "creachable home cd \<sigma>" "c < nconns (\<sigma> a)"
  shows "own_same c (\<sigma> a) (\<tau> a)"
proof -
  from assms(1) have "(cstep home cd)\<^sup>*\<^sup>* \<sigma> \<tau> \<and> own_same c (\<sigma> a) (\<tau> a)"
  proof (induction rule: rtranclp_induct)
    case (step \<tau>1 \<tau>2)
    then have r: "(cstep home cd)\<^sup>*\<^sup>* \<sigma> \<tau>1" by simp
    have "own_same c (\<tau>1 a) (\<tau>2 a)"
    proof (cases "\<tau>2 a = \<tau>1 a")
      case False
      from step(2) obtain m s' where m: "\<tau>2 = \<tau>1(m := s')" "step (view_of home \<tau>1 m) cd (\<tau>1 m) s'" by (auto elim: cstep.cases)
      with False have a: "m = a" by (auto split: if_splits)
      show ?thesis
        using step_keeps_own [OF m(2) creachable_inv [OF creachable_trans [OF assms(2) r]], of c] step(2) False
          csteps_nconns [OF r assms(2,3)] by (simp add: m(1) a)
    qed simp
    with step own_same_trans show ?case by (meson rtranclp.rtrancl_into_rtrancl)
  qed simp
  then show ?thesis ..
qed

section \<open>Joining among others\<close>

text \<open>What the node's handler does after the answer: it goes on in the state it woke up in.\<close>

lemma finish_among:
  assumes "(cstep home cd)\<^sup>*\<^sup>* \<sigma> \<sigma>2" "quiet (view_of home \<sigma>2 a) cd (\<sigma>2 a) s'"
  shows "(cstep home cd)\<^sup>*\<^sup>* \<sigma> (\<sigma>2(a := s'))"
  using assms(1) cstep_local [of home \<sigma>2 a cd s'] quietD(1) [OF assms(2)] by (auto intro: rtranclp_trans)

lemma answered_among:
  assumes "(cstep home cd)\<^sup>*\<^sup>* \<sigma> \<sigma>1" "(\<exists>out. sendToClient (e :: sys_env) c out (\<sigma>1 a) = Ok s') \<or> s' = \<sigma>1 a" "c < nconns (\<sigma>1 a)"
  shows "(cstep home cd)\<^sup>*\<^sup>* \<sigma> (\<sigma>1(a := s'))" "own_same c (\<sigma>1 a) s'" "sys_rooms s' = sys_rooms (\<sigma>1 a)"
proof -
  have "quiet (view_of home \<sigma>1 a) cd (\<sigma>1 a) s'" using assms(2,3) by (auto intro: quiet_send [OF _ quiet_refl])
  then show "(cstep home cd)\<^sup>*\<^sup>* \<sigma> (\<sigma>1(a := s'))" by (rule finish_among [OF assms(1)])
  show "own_same c (\<sigma>1 a) s'" using assms(2) own_same_send by auto
  show "sys_rooms s' = sys_rooms (\<sigma>1 a)" using assms(2) same_grains_send by (auto simp: same_grains_def)
qed

lemma in_room_upd: "sys_rooms s' = sys_rooms (\<sigma> a) \<Longrightarrow> in_room ((\<sigma>(a := s')) h) i u \<longleftrightarrow> in_room (\<sigma> h) i u"
  by (simp add: in_room_def)

text \<open>The answer a request to join was given: a welcome, or anything else.\<close>

definition welcomed :: "codec \<Rightarrow> request_run \<Rightarrow> bool" where
  "welcomed cd \<rho> \<longleftrightarrow> (\<exists>r m info recent. fate \<rho> = Replied r \<and>
     open_response cd MsgId_PChatJoinRoomReq r = Inr (ChatJoinRoomResp ErrorCode_OK m info recent))"

lemma join_id: "msg_id (proto_msg.ChatJoinRoomReq room u n) = MsgId_PChatJoinRoomReq"
  by (simp add: msg_id_def MsgId_value_def MsgId_value_entries_def)

lemma join_ends:
  assumes "ws_userID (conns s c) = u" "u \<noteq> 0" "in_Payload msg = JObj payload" "mget payload ''room_id'' = Some (JStr room)"
    and "handleJoinRoom e c msg s = Ok s'"
    and "Rpc (wcluster e) (wcodec e) (wtrace e) room ''chat'' ''JoinRoom'' (proto_msg.ChatJoinRoomReq room u (ws_username (conns s c))) s = Ok (s1, r)"
  shows "if \<exists>m info recent. r = Inr (ChatJoinRoomResp ErrorCode_OK m info recent)
    then \<exists>info. sendToClient e c \<lparr>out_Type = ''room_joined'', out_Payload = PRoom info\<rparr>
      (SubscribeTopic e c room (with_client c (\<lambda>x. x\<lparr>ws_currentRoom := room\<rparr>) s1)) = Ok s'
    else (\<exists>out. sendToClient e c out s1 = Ok s') \<or> s' = s1"
proof -
  have "(case r of Inl err \<Rightarrow> sendToClient e c (notice ''error'' t_join_failed) s1
        | Inr (ChatJoinRoomResp code m room' recent) \<Rightarrow>
            if code = ErrorCode_OK
            then sendToClient e c \<lparr>out_Type = ''room_joined'', out_Payload = PRoom room'\<rparr>
              (SubscribeTopic e c room (with_client c (\<lambda>x. x\<lparr>ws_currentRoom := room\<rparr>) s1))
            else sendToClient e c (notice ''room_joined'' t_join_failed) s1
        | Inr _ \<Rightarrow> Ok s1) = Ok s'"
    using assms by (simp add: handleJoinRoom_def assert_string_def Let_def)
  then show ?thesis by (auto split: sum.splits proto_msg.splits if_splits)
qed

text \<open>A welcome says that the room was not full before the grain's turn and that the user is a member after it.\<close>

lemma welcomed_turn:
  assumes "request_ok home cd \<sigma> room ''chat'' (request_of t room ''chat'' ''JoinRoom'' q b) \<rho>" "welcomed cd \<rho>"
    and "creachable home cd \<sigma>" "room \<noteq> ''''" "q = proto_msg.ChatJoinRoomReq room u n" "codec_rt cd q" "marshal cd q = Some b"
  obtains before ge x r after where "\<rho> = Handled before ge x r after True"
    "\<forall>g. mget (sys_rooms (ending \<sigma> before (home ''chat'' room))) room = Some g \<longrightarrow> int (mlen (members g)) < maxMembers g"
    "in_room x room u"
    "in_room (ends home \<sigma> room ''chat'' \<rho> (home ''chat'' room)) room u \<or>
       goes home cd room u ((ending \<sigma> before)(home ''chat'' room := x)) after"
proof -
  let ?h = "home ''chat'' room" and ?m = "request_of t room ''chat'' ''JoinRoom'' q b"
  from assms(2) obtain r where r: "fate \<rho> = Replied r"
    "\<exists>m info recent. open_response cd MsgId_PChatJoinRoomReq r = Inr (ChatJoinRoomResp ErrorCode_OK m info recent)"
    unfolding welcomed_def by blast
  then obtain before ge x after where rho: "\<rho> = Handled before ge x r after True" by (cases \<rho>) (auto split: if_splits)
  note o = handled_facts [OF assms(1) [unfolded rho] assms(3,4)]
  have code: "Code r = ErrorCode_OK" using r(2) open_response_code by metis
  have "grains_inv cd (ending \<sigma> before ?h)" using creachable_inv [OF o(5)] by (simp add: sys_inv_def)
  then obtain g where g: "mget (sys_rooms x) room = Some g" "mhas (members g) u"
    "\<forall>g0. mget (sys_rooms (ending \<sigma> before ?h)) room = Some g0 \<longrightarrow> int (mlen (members g0)) < maxMembers g0"
    using join_served [OF o(3) _ o(2) assms(4)] decode_request [OF assms(6,7)] code by (auto simp: assms(5))
  then have m: "in_room x room u" by (auto simp: in_room_def)
  have "in_room (ends home \<sigma> room ''chat'' \<rho> ?h) room u \<or> goes home cd room u ((ending \<sigma> before)(?h := x)) after"
    using crun_goes [OF o(4,6), of room u] m by (simp add: rho)
  with rho g(3) m show thesis by (rule that)
qed

text \<open>C4: Joining, from the WebSocket message on one node to the room on another, with everybody else at work
  meanwhile. Let \<open>\<rho>\<close> be any way the request can go, let the connection find what is its own as it left it when
  it wakes up (its read loop waits, and nobody else writes it), and let \<open>\<sigma>'\<close> be the state in which all of
  this leaves the cluster. It is reached by atomic steps. If the room's grain welcomed the user and the
  answer arrived, the connection believes to be in the room, and its actor is subscribed to the room's topic
  if the subscription worked; the grain was not full before its turn, the user was a member after it, and in
  \<open>\<sigma>'\<close> he still is, unless one of the very steps the others took since then let him go. In every other case,
  a refusal or a lost answer included, nothing that is the connection's own has changed, neither its room nor
  any of its subscriptions. So a connection never believes to be in a room that did not let it in.\<close>

theorem join_among_others:
  assumes "creachable home cd \<sigma>" "wcodec (e :: sys_env) = cd" "c < nconns (\<sigma> a)" "u = ws_userID (conns (\<sigma> a) c)" "u \<noteq> 0"
    and "in_Payload msg = JObj payload" "mget payload ''room_id'' = Some (JStr room)" "room \<noteq> ''''"
    and "q = proto_msg.ChatJoinRoomReq room u (ws_username (conns (\<sigma> a) c))" "codec_rt cd q" "marshal cd q = Some b"
    and "went_so home cd \<sigma> a (wcluster e) room ''chat'' (request_of (wtrace e) room ''chat'' ''JoinRoom'' q b) \<rho>"
    and "own_same c (\<sigma> a) (ends home \<sigma> room ''chat'' \<rho> a)"
    and "handleJoinRoom e c msg (\<sigma> a) = Ok s'" "\<sigma>' = (ends home \<sigma> room ''chat'' \<rho>)(a := s')"
  shows "(cstep home cd)\<^sup>*\<^sup>* \<sigma> \<sigma>' \<and>
    (if welcomed cd \<rho>
     then ws_currentRoom (conns s' c) = room \<and> ws_userID (conns s' c) = u \<and>
       (subscribe_ok e \<longrightarrow> (room, ws_pid (conns s' c)) \<in> set (subs s')) \<and>
       (\<exists>before ge x r after. \<rho> = Handled before ge x r after True \<and>
          (\<forall>g. mget (sys_rooms (ending \<sigma> before (home ''chat'' room))) room = Some g \<longrightarrow> int (mlen (members g)) < maxMembers g) \<and>
          in_room x room u \<and>
          (in_room (\<sigma>' (home ''chat'' room)) room u \<or>
             goes home cd room u ((ending \<sigma> before)(home ''chat'' room := x)) after))
     else own_same c (\<sigma> a) s')"
proof -
  let ?h = "home ''chat'' room" and ?e = "ends home \<sigma> room ''chat'' \<rho>"
  let ?m = "request_of (wtrace e) room ''chat'' ''JoinRoom'' q b"
  have ok: "request_ok home cd \<sigma> room ''chat'' ?m \<rho>" using assms(12) by (simp add: went_so_def)
  note run = request_runs [OF ok assms(8)]
  have c: "c < nconns (?e a)" by (rule csteps_nconns [OF run assms(1,3)])
  have id: "has_id q" "msg_id q = MsgId_PChatJoinRoomReq" by (simp_all add: assms(9) join_id)
  note rpc = Rpc_went [OF assms(12) id(1) assms(11,8) list.distinct(2) list.distinct(2)]
  define r where "r = (case fate \<rho> of RequestErr \<Rightarrow> Inl (CallFailed GetGrainFailed) | FutureErr \<Rightarrow> Inl (CallFailed CallGrainFailed)
    | Replied r \<Rightarrow> open_response cd (msg_id q) r | RepliedOther \<Rightarrow> undefined)"
  have w: "welcomed cd \<rho> \<longleftrightarrow> (\<exists>m info recent. r = Inr (ChatJoinRoomResp ErrorCode_OK m info recent))"
    unfolding welcomed_def r_def id(2) by (cases \<rho>) auto
  from join_ends [OF assms(4) [symmetric] assms(5-7,14)] rpc
  have fin: "if welcomed cd \<rho>
    then \<exists>info. sendToClient e c \<lparr>out_Type = ''room_joined'', out_Payload = PRoom info\<rparr>
      (SubscribeTopic e c room (with_client c (\<lambda>x. x\<lparr>ws_currentRoom := room\<rparr>) (?e a))) = Ok s'
    else (\<exists>out. sendToClient e c out (?e a) = Ok s') \<or> s' = ?e a"
    unfolding w by (simp add: assms(2,9) r_def)
  show ?thesis
  proof (cases "welcomed cd \<rho>")
    case False
    with fin have f: "(\<exists>out. sendToClient e c out (?e a) = Ok s') \<or> s' = ?e a" by simp
    from answered_among(1,2) [OF run f c] own_same_trans [OF assms(13)] False show ?thesis by (simp add: assms(15))
  next
    case True
    let ?s = "SubscribeTopic e c room (with_client c (\<lambda>x. x\<lparr>ws_currentRoom := room\<rparr>) (?e a))"
    from True fin obtain info where send: "sendToClient e c \<lparr>out_Type = ''room_joined'', out_Payload = PRoom info\<rparr> ?s = Ok s'" by auto
    obtain before ge x r after where w: "\<rho> = Handled before ge x r after True"
      "\<forall>g. mget (sys_rooms (ending \<sigma> before ?h)) room = Some g \<longrightarrow> int (mlen (members g)) < maxMembers g" "in_room x room u"
      "in_room (?e ?h) room u \<or> goes home cd room u ((ending \<sigma> before)(?h := x)) after"
      by (rule welcomed_turn [OF ok True assms(1,8-11)])
    have "quiet (view_of home ?e a) cd (?e a) s'" by (rule quiet_joined [OF send quiet_refl c])
    then have "(cstep home cd)\<^sup>*\<^sup>* \<sigma> \<sigma>'" unfolding assms(15) by (rule finish_among [OF run])
    moreover from sendToClient_frame [OF send] assms(4,13)
    have "ws_currentRoom (conns s' c) = room \<and> ws_userID (conns s' c) = u \<and>
        (subscribe_ok e \<longrightarrow> (room, ws_pid (conns s' c)) \<in> set (subs s'))" "sys_rooms s' = sys_rooms (?e a)"
      by (auto simp: only_send_def own_same_def SubscribeTopic_def with_client_def)
    ultimately show ?thesis
      using True w(2-4) in_room_upd [of s' ?e a ?h room u] unfolding assms(15) w(1) by auto
  qed
qed

section \<open>Sending among others\<close>

text \<open>The handler of a text from a client asks the room and tells the client how that went.\<close>

lemma send_tells:
  assumes "ws_userID (conns s c) \<noteq> 0" "ws_currentRoom (conns s c) = room" "room \<noteq> ''''"
    and "in_Payload msg = JObj payload" "mget payload ''content'' = Some (JStr content)"
    and "Rpc (wcluster e) (wcodec e) (wtrace e) room ''chat'' ''SendMessage''
      (proto_msg.ChatSendMessageReq room (ws_userID (conns s c)) (ws_username (conns s c)) content ChatMsgType_TEXT) s = Ok (s1, y)"
  shows "\<exists>out. handleSendMessage e c msg s = sendToClient e c out s1"
  unfolding handleSendMessage_def using assms
  by (simp add: assert_string_def Let_def split: sum.split proto_msg.split) blast

text \<open>Everybody who is subscribed to a room can take his turn with a message and hand it to his client.\<close>

definition everyone_can_get :: "placement \<Rightarrow> codec \<Rightarrow> cluster_state \<Rightarrow> ChatMessage \<Rightarrow> bool" where
  "everyone_can_get home cd \<sigma> m \<longleftrightarrow> (\<forall>n p h e bs. (cm_RoomId m, Some p) \<in> set (subs (\<sigma> n)) \<and> (p, h) \<in> set (spawned (\<sigma> n)) \<and>
      wcodec (e :: sys_env) = cd \<and> jenc e \<lparr>out_Type = ''new_message'', out_Payload = PChat (Some m)\<rparr> = Some bs \<and>
      \<not> closed (ws_send (conns (\<sigma> n) (wc h))) \<and> length (buf (ws_send (conns (\<sigma> n) (wc h)))) < 256 \<longrightarrow>
    (\<exists>s2. cstep home cd \<sigma> (\<sigma>(n := s2)) \<and> buf (ws_send (conns s2 (wc h))) = buf (ws_send (conns (\<sigma> n) (wc h))) @ [bs]))"

lemma published_everyone:
  assumes "creachable home cd \<sigma>" "(cm_RoomId m, broadcast_of m d) \<in> set (published (\<sigma> j))"
    and "codec_rt cd (proto_msg.ChatUserMessage (Some m))" "marshal cd (proto_msg.ChatUserMessage (Some m)) = Some d"
  shows "everyone_can_get home cd \<sigma> m"
  unfolding everyone_can_get_def using everyone_gets [OF assms] by blast


section \<open>Two busy nodes\<close>

lemma connect_among: "(cstep home cd)\<^sup>*\<^sup>* \<tau> (\<tau>(a := fst (HandleWebSocket True (\<tau> a))))"
  by (rule r_into_rtranclp [of "cstep home cd", OF cstep.node [OF step.Connect]])

lemma busy_among:
  assumes "grain_env_ok cd ge" "i \<noteq> ''''" "\<And>x. same_ws s x \<Longrightarrow> own (fst (HandleWebSocket True x))"
  shows "call_among home cd (\<sigma>(a := s)) a own i k m (busy_cluster home ge \<sigma> a s i k m)"
proof (cases "\<exists>x r. grain_request ge i k (Envelope m) ((\<sigma>(a := s)) (home k i)) = Ok (Some (x, Some r))")
  case True
  then obtain x r where t: "grain_request ge i k (Envelope m) ((\<sigma>(a := s)) (home k i)) = Ok (Some (x, Some r))" by blast
  let ?\<tau> = "(\<sigma>(a := s))(home k i := x)"
  note b = busy_served [where \<sigma> = \<sigma> and a = a and home = home, OF t]
  define \<sigma>2 where "\<sigma>2 = ?\<tau>(a := fst (HandleWebSocket True (?\<tau> a)))"
  have "(cstep home cd)\<^sup>*\<^sup>* ?\<tau> \<sigma>2" unfolding \<sigma>2_def by (rule connect_among)
  moreover have "busy_cluster home ge \<sigma> a s i k m = (\<sigma>2 a, Replied r)" unfolding b(1) \<sigma>2_def by (simp only: fun_upd_same)
  moreover have "own (\<sigma>2 a)" unfolding \<sigma>2_def fun_upd_same by (rule assms(3) [OF b(2)])
  ultimately show ?thesis unfolding call_among_def using assms(1) t by (simp only: fst_conv snd_conv) blast
next
  case False
  have srv: "server_of home \<sigma> a s k i = (\<sigma>(a := s)) (home k i)" by (simp add: server_of_def)
  from False have "busy_cluster home ge \<sigma> a s i k m = (fst (HandleWebSocket True s), RequestErr)"
    unfolding busy_cluster_def true_cluster_def srv by (auto simp del: fun_upd_apply split: outcome.split option.split)
  with assms(3) [of s] connect_among [of home cd "\<sigma>(a := s)" a] show ?thesis
    unfolding call_among_def by (intro conjI exI [of _ "\<sigma>(a := fst (HandleWebSocket True s))"] disjI1) simp_all
qed

lemma busy_well_behaved:
  "snd (busy_cluster home ge \<sigma> a s i k m) \<noteq> RepliedOther \<and>
     (\<not> closed (ws_send (conns s c)) \<longrightarrow> \<not> closed (ws_send (conns (fst (busy_cluster home ge \<sigma> a s i k m)) c)))"
  by (auto simp: busy_cluster_def true_cluster_def server_of_def HandleWebSocket_def NewWSClient_def make_chan_def same_ws_def
      dest!: grain_request_ws split: outcome.split option.split)

text \<open>Ann's join again, while another client connects.\<close>

definition busy_door :: sys_env where
  "busy_door = sys_wenv door join_msg\<lparr>wcluster := busy_cluster (\<lambda>k i. 1) (sys_genv door) (two_nodes logged_in new_sys) 0\<rparr>"

lemma busy_door_simps:
  "wcluster busy_door = busy_cluster (\<lambda>k i. 1) (sys_genv door) (two_nodes logged_in new_sys) 0"
  "wcodec busy_door = table_codec door" "wtrace busy_door = ''''" "subscribe_ok busy_door"
  by (simp_all add: busy_door_def sys_wenv_def)

lemma busy_join:
  obtains s' where "handleJoinRoom busy_door 0 join_msg logged_in = Ok s'" "ws_currentRoom (conns s' 0) = ''lobby''" "nconns s' = 2"
proof -
  let ?q = "proto_msg.ChatJoinRoomReq ''lobby'' 7 ''ann''" and ?s1 = "fst (HandleWebSocket True logged_in)"
  let ?m = "request_of '''' ''lobby'' ''chat'' ''JoinRoom'' ?q [0]"
  have m: "MsgId ?m = MsgId_PChatJoinRoomReq" "Code ?m = ErrorCode_OK"
    by (simp_all add: request_of_def msg_id_def MsgId_value_def MsgId_value_entries_def)
  have n: "sys_rooms new_sys = []" "node_of new_sys = new_node"
    by (simp_all add: new_sys_def ws_state.defs NewWebSocketManager_def node.defs node_of_def new_node_def NewRoomRegistry_def)
  have "decode (table_codec door) ''ChatJoinRoomReq'' ?m = Some ?q" using decode_request [OF door_codec(1,3)] by simp
  then obtain x r where x: "grain_request (sys_genv door) ''lobby'' ''chat'' (Envelope ?m) new_sys = Ok (Some (x, Some r))"
    "open_response (table_codec door) (msg_id ?q) r = Inr door_answer"
    by (rule door_served [OF m _ n])
  have rpc: "Rpc (wcluster busy_door) (table_codec door) '''' ''lobby'' ''chat'' ''JoinRoom'' ?q logged_in = Ok (?s1, Inr door_answer)"
    using x by (simp add: Rpc_sent [OF door_ids(1) door_codec(3)] busy_door_simps busy_cluster_def true_cluster_def server_of_def)
  let ?s = "SubscribeTopic busy_door 0 ''lobby'' (with_client 0 (\<lambda>x. x\<lparr>ws_currentRoom := ''lobby''\<rparr>) ?s1)"
  have j: "handleJoinRoom busy_door 0 join_msg logged_in =
      sendToClient busy_door 0 \<lparr>out_Type = ''room_joined'', out_Payload = PRoom (Some (room_info door_room 1))\<rparr> ?s"
    using rpc by (simp add: handleJoinRoom_def join_msg_def mget_def assert_string_def Let_def busy_door_simps door_answer_def)
  have "\<not> closed (ws_send (conns ?s 0))"
    by (simp add: SubscribeTopic_def HandleWebSocket_def with_client_def NewWSClient_def make_chan_def)
  from send_total [OF this] obtain s' where s': "handleJoinRoom busy_door 0 join_msg logged_in = Ok s'" unfolding j by blast
  from sendToClient_frame [OF s' [unfolded j]] have "ws_currentRoom (conns s' 0) = ''lobby''" "nconns s' = 2"
    by (auto simp: only_send_def SubscribeTopic_def HandleWebSocket_def with_client_def)
  with s' show thesis by (rule that)
qed

lemma two_doors: "creachable (\<lambda>k i. 1) (table_codec door) (two_nodes logged_in new_sys)"
  by (rule two_nodes_reachable [OF reachable_samples(3,1)])

lemma busy_door_among: "env_among (\<lambda>k i. 1) (table_codec door) (two_nodes logged_in new_sys) 0 busy_door"
proof -
  let ?ho = "\<lambda>(k :: string) (i :: string). 1 :: nat" and ?c = "two_nodes logged_in new_sys"
  have p: "pid_new busy_door s \<longleftrightarrow> ''$1'' \<notin> fst ` set (spawned s)" for s by (simp add: pid_new_def busy_door_def sys_wenv_def)
  have "call_among ?ho (table_codec door) (?c(0 := s)) 0 (pid_new busy_door) i k m (wcluster busy_door s i k m)"
    if "quiet (view_of ?ho ?c 0) (table_codec door) (?c 0) s" "i \<noteq> ''''" for s i k m
    unfolding busy_door_simps
  proof (rule busy_among [OF sys_env_ok(1) that(2)])
    fix x assume "same_ws s x"
    moreover have "map fst (spawned s) = []" using that(1) by (simp add: quiet_def)
    ultimately show "pid_new busy_door (fst (HandleWebSocket True x))" by (simp add: p same_ws_def HandleWebSocket_def)
  qed
  moreover have "serves_raw v (sys_genv door) (raw_request busy_door)" for v
    by (simp add: serves_raw_def busy_door_def sys_wenv_def)
  ultimately show ?thesis
    unfolding env_among_def by (intro conjI exI [of _ "sys_genv door"]) (simp_all add: p busy_door_simps(2))
qed

theorem handlers_among_others_witness:
  "\<exists>s' \<sigma>'. handleMessage busy_door 0 join_msg logged_in = Ok s' \<and> ws_currentRoom (conns s' 0) = ''lobby'' \<and> nconns s' = 2 \<and>
     creachable (\<lambda>k i. 1) (table_codec door) \<sigma>' \<and> \<sigma>' 0 = s'"
proof -
  obtain s' where s': "handleJoinRoom busy_door 0 join_msg logged_in = Ok s'" "ws_currentRoom (conns s' 0) = ''lobby''" "nconns s' = 2"
    by (rule busy_join)
  then have h: "handleMessage busy_door 0 join_msg (two_nodes logged_in new_sys 0) = Ok s'"
    by (simp add: handleMessage_def join_msg_def)
  from handlers_among_others [OF h two_doors busy_door_among] s' h show ?thesis by auto
qed

text \<open>Ann's join while another client connects to her node: she is in the room on node 1 in the end.\<close>

theorem join_among_others_witness:
  "\<exists>x r s' \<rho> \<sigma>'. \<rho> = busy_run (\<lambda>k i. 1) (sys_genv door) (two_nodes logged_in new_sys) 0 ''lobby'' ''chat'' x r \<and>
     welcomed (table_codec door) \<rho> \<and> handleJoinRoom busy_door 0 join_msg logged_in = Ok s' \<and>
     \<sigma>' = (ends (\<lambda>k i. 1) (two_nodes logged_in new_sys) ''lobby'' ''chat'' \<rho>)(0 := s') \<and> nconns s' = 2 \<and>
     creachable (\<lambda>k i. 1) (table_codec door) \<sigma>' \<and> ws_currentRoom (conns s' 0) = ''lobby'' \<and>
     in_room (\<sigma>' 1) ''lobby'' 7 \<and> (''lobby'', ws_pid (conns s' 0)) \<in> set (subs s')"
proof -
  let ?ho = "\<lambda>(k :: string) (i :: string). 1 :: nat" and ?c = "two_nodes logged_in new_sys" and ?cd = "table_codec door"
  let ?q = "proto_msg.ChatJoinRoomReq ''lobby'' 7 ''ann''"
  let ?m = "request_of (wtrace busy_door) ''lobby'' ''chat'' ''JoinRoom'' ?q [0]"
  obtain s' where s': "handleJoinRoom busy_door 0 join_msg logged_in = Ok s'" "ws_currentRoom (conns s' 0) = ''lobby''" "nconns s' = 2"
    by (rule busy_join)
  have m: "MsgId ?m = MsgId_PChatJoinRoomReq" "Code ?m = ErrorCode_OK"
    by (simp_all add: request_of_def msg_id_def MsgId_value_def MsgId_value_entries_def)
  have n: "sys_rooms new_sys = []" "node_of new_sys = new_node"
    by (simp_all add: new_sys_def ws_state.defs NewWebSocketManager_def node.defs node_of_def new_node_def NewRoomRegistry_def)
  have "decode ?cd ''ChatJoinRoomReq'' ?m = Some ?q" using decode_request [OF door_codec(1,3)] by simp
  then obtain x r where x: "grain_request (sys_genv door) ''lobby'' ''chat'' (Envelope ?m) new_sys = Ok (Some (x, Some r))"
    "open_response ?cd (msg_id ?q) r = Inr door_answer"
    by (rule door_served [OF m _ n])
  define \<rho> where "\<rho> = busy_run ?ho (sys_genv door) ?c 0 ''lobby'' ''chat'' x r"
  define \<sigma>' where "\<sigma>' = (ends ?ho ?c ''lobby'' ''chat'' \<rho>)(0 := s')"
  have "grain_request (sys_genv door) ''lobby'' ''chat'' (Envelope ?m) (?c (?ho ''chat'' ''lobby'')) = Ok (Some (x, Some r))"
    using x(1) by simp
  from busy_went [where home = ?ho and a = 0 and k = "''chat''" and \<sigma> = ?c, OF this sys_env_ok(1)]
  have w: "went_so ?ho ?cd ?c 0 (wcluster busy_door) ''lobby'' ''chat'' ?m \<rho>" unfolding \<rho>_def busy_door_simps(1) .
  have e: "ends ?ho ?c ''lobby'' ''chat'' \<rho> 0 = fst (HandleWebSocket True logged_in)" by (simp add: \<rho>_def busy_run_def)
  have own: "own_same 0 (?c 0) (ends ?ho ?c ''lobby'' ''chat'' \<rho> 0)" unfolding e by (simp add: own_same_connect)
  have a: "0 < nconns (?c 0)" "7 = ws_userID (conns (?c 0) 0)" "(7 :: int) \<noteq> 0" "in_Payload join_msg = JObj [(''room_id'', JStr ''lobby'')]"
    "mget [(''room_id'', JStr ''lobby'')] ''room_id'' = Some (JStr ''lobby'')" "''lobby'' \<noteq> ''''"
    "?q = proto_msg.ChatJoinRoomReq ''lobby'' 7 (ws_username (conns (?c 0) 0))"
    by (simp_all add: join_msg_def mget_def)
  have h: "handleJoinRoom busy_door 0 join_msg (?c 0) = Ok s'" using s'(1) by simp
  have wel: "welcomed ?cd \<rho>"
    using x(2) by (simp add: welcomed_def \<rho>_def busy_run_def door_answer_def join_id)
  from join_among_others [OF two_doors busy_door_simps(2) a door_codec(1,3) w own h \<sigma>'_def] wel obtain before ge x' r' after where
    j: "(cstep ?ho ?cd)\<^sup>*\<^sup>* ?c \<sigma>'" "subscribe_ok busy_door \<longrightarrow> (''lobby'', ws_pid (conns s' 0)) \<in> set (subs s')"
      "\<rho> = Handled before ge x' r' after True" "in_room (\<sigma>' 1) ''lobby'' 7 \<or> goes ?ho ?cd ''lobby'' 7 ((ending ?c before)(1 := x')) after"
    by auto
  have "\<not> goes ?ho ?cd ''lobby'' 7 ((ending ?c before)(1 := x')) after"
    using j(3) by (auto simp: \<rho>_def busy_run_def lets_go_def)
  with j have "in_room (\<sigma>' 1) ''lobby'' 7" "(''lobby'', ws_pid (conns s' 0)) \<in> set (subs s')" by (simp_all add: busy_door_simps(4))
  with s' wel creachable_trans [OF two_doors j(1)] show ?thesis using \<rho>_def \<sigma>'_def by blast
qed


end
