(* ===== verification/Router.thy ===== *)
theory Router
  imports HttpApi WebSocket
begin

text \<open>
  \<^verbatim>\<open>internal/api/router.go\<close>: the table of routes and what a GET request is answered with. A pattern is a
  list of segments. Which pattern a path matches, and with which values of the parameters, is the gin
  framework's decision and an argument (\<open>route\<close>). The recovery middleware the router installs answers a panic
  of a handler with status 500. The node that serves the request is in the state \<open>c\<close>: a call of a grain goes
  through its cluster, and a WebSocket request adds a connection to its manager.
\<close>

section \<open>Routes\<close>

datatype seg = Lit string | Param string | Rest string

datatype endpoint =
    HealthCheck | WebSocketUpgrade | StaticDir string | StaticFile string
  | ClusterInfo | ClusterMembers | ClusterStatus
  | ActorInstances | LocalActorInstances | GrainKinds | CallGrain
  | KVStoreStatus | KVStoreKey

definition setupRoutes :: "(seg list \<times> endpoint) list" where
  "setupRoutes =
    [([Lit ''health''], HealthCheck),
     ([Lit ''ws''], WebSocketUpgrade),
     ([Lit ''static'', Rest ''filepath''], StaticDir ''./web/static''),
     ([], StaticFile ''./web/index.html''),
     ([Lit ''chat''], StaticFile ''./web/chat.html''),
     ([Lit ''dashboard''], StaticFile ''./web/dashboard.html''),
     ([Lit ''api'', Lit ''cluster'', Lit ''info''], ClusterInfo),
     ([Lit ''api'', Lit ''cluster'', Lit ''members''], ClusterMembers),
     ([Lit ''api'', Lit ''cluster'', Lit ''status''], ClusterStatus),
     ([Lit ''api'', Lit ''actor'', Lit ''instances''], ActorInstances),
     ([Lit ''api'', Lit ''actor'', Lit ''local-instances''], LocalActorInstances),
     ([Lit ''api'', Lit ''actor'', Lit ''kinds''], GrainKinds),
     ([Lit ''api'', Lit ''actor'', Lit ''call'', Param ''kind'', Param ''identity''], CallGrain),
     ([Lit ''api'', Lit ''kvstore'', Lit ''status''], KVStoreStatus),
     ([Lit ''api'', Lit ''kvstore'', Lit ''key'', Param ''key''], KVStoreKey)]"

type_synonym router_fun = "(seg list \<times> endpoint) list \<Rightarrow> string list \<Rightarrow> (seg list \<times> endpoint \<times> (string, string) gomap) option"

section \<open>Serving\<close>

text \<open>What the handlers get from outside.\<close>

record ('b, 'c) api_env =
  ae_now :: string
  ae_fetch :: "'b fetch_env"
  ae_cluster :: "'c cluster"
  ae_upgraded :: bool \<comment> \<open>whether \<^verbatim>\<open>Upgrade\<close> succeeds\<close>
  ae_trace :: string
  ae_words :: "rpc_error \<Rightarrow> string"
  ae_text :: "bytes \<Rightarrow> string"
  ae_rfc :: "int \<Rightarrow> string"
  ae_range :: "(string, KVEntry) ranger"

datatype answer =
    Json int hval
  | File string string \<comment> \<open>directory or file, path below it\<close>
  | Upgraded bool \<comment> \<open>the WebSocket manager answered: the connection is upgraded, or the upgrade's error\<close>
  | NotFound
  | Recovered \<comment> \<open>status 500 after a panic\<close>

definition param :: "string \<Rightarrow> (string, string) gomap \<Rightarrow> string" where
  "param n ps = (case mget ps n of None \<Rightarrow> '''' | Some x \<Rightarrow> x)"

definition run_endpoint ::
    "('b, 'n ws_state_scheme) api_env \<Rightarrow> router \<Rightarrow> endpoint \<Rightarrow> (string, string) gomap \<Rightarrow> string \<Rightarrow>
       'n ws_state_scheme \<Rightarrow> 'n ws_state_scheme \<times> answer" where
  "run_endpoint e r ep ps name c =
     (let json = (\<lambda>(status, body). (c, Json status body))
      in case ep of
           HealthCheck \<Rightarrow> json (healthCheck r)
         | WebSocketUpgrade \<Rightarrow> (fst (HandleWebSocket (ae_upgraded e) c), Upgraded (ae_upgraded e))
         | StaticDir d \<Rightarrow> (c, File d (param ''filepath'' ps))
         | StaticFile f \<Rightarrow> (c, File f '''')
         | ClusterInfo \<Rightarrow> json (getClusterInfo (ae_now e) r)
         | ClusterMembers \<Rightarrow> json (getClusterMembers r)
         | ClusterStatus \<Rightarrow> json (getClusterStatus (ae_now e) r)
         | ActorInstances \<Rightarrow> json (getActorInstances (ae_fetch e) r)
         | LocalActorInstances \<Rightarrow> json (getLocalActorInstances r)
         | GrainKinds \<Rightarrow> json (getGrainKinds r)
         | CallGrain \<Rightarrow>
             (case GrainCall (ae_cluster e) (ae_trace e) (ae_words e) (ae_text e) (param ''kind'' ps)
                 (param ''identity'' ps) name c of
                Panic p \<Rightarrow> (c, Recovered)
              | Ok (c, status, body) \<Rightarrow> (c, Json status body))
         | KVStoreStatus \<Rightarrow> json (getKVStoreStatus (ae_rfc e) (ae_text e) (ae_range e) r)
         | KVStoreKey \<Rightarrow> json (getKVStoreKey (ae_rfc e) (ae_text e) (param ''key'' ps) r))"

text \<open>A GET request; \<open>name\<close> is the query parameter of this name.\<close>

definition serve_get ::
    "router_fun \<Rightarrow> ('b, 'n ws_state_scheme) api_env \<Rightarrow> router \<Rightarrow> string list \<Rightarrow> string \<Rightarrow>
       'n ws_state_scheme \<Rightarrow> 'n ws_state_scheme \<times> answer" where
  "serve_get route e r path name c =
     (case route setupRoutes path of
        None \<Rightarrow> (c, NotFound)
      | Some (p, ep, ps) \<Rightarrow> run_endpoint e r ep ps name c)"

section \<open>Properties\<close>

text \<open>The envelope a call of a grain over HTTP sends, and whether it sends one.\<close>

definition call_envelope :: "string \<Rightarrow> (string, string) gomap \<Rightarrow> string \<Rightarrow> RpcMsg" where
  "call_envelope trace ps name = \<lparr>Kind = param ''kind'' ps, Identity = param ''identity'' ps, TraceID = trace, Name = name,
     Code = 0, MsgId = 0, Data = None\<rparr>"

definition call_sent :: "(string, string) gomap \<Rightarrow> string \<Rightarrow> bool" where
  "call_sent ps name \<longleftrightarrow> name \<noteq> '''' \<and> param ''kind'' ps \<noteq> '''' \<and> param ''identity'' ps \<noteq> ''''"

text \<open>What the framework answers.\<close>

definition call_answer :: "('b, 'n ws_state_scheme) api_env \<Rightarrow> (string, string) gomap \<Rightarrow> string \<Rightarrow> 'n ws_state_scheme \<Rightarrow> 'n ws_state_scheme \<times> call_result" where
  "call_answer e ps name c = ae_cluster e c (param ''identity'' ps) (param ''kind'' ps) (call_envelope (ae_trace e) ps name)"

text \<open>A call of a grain, on every branch.\<close>

lemma serve_call:
  assumes "route setupRoutes path = Some (p, CallGrain, ps)"
  shows "serve_get route e r path name c =
    (if name = '''' then (c, Json 400 (failure t_name_missing))
     else if \<not> call_sent ps name then (c, Json 500 (failure (ae_words e MissingParameter)))
     else case call_answer e ps name c of
       (c', RequestErr) \<Rightarrow> (c', Json 500 (failure (ae_words e GetGrainFailed)))
     | (c', FutureErr) \<Rightarrow> (c', Json 500 (failure (ae_words e CallGrainFailed)))
     | (c', RepliedOther) \<Rightarrow> (c, Recovered)
     | (c', Replied m) \<Rightarrow> (c', Json 200 (HObj [(''code'', HInt 0), (''data'', HObj
         [(''kind_name'', HStr (param ''kind'' ps)), (''identity'', HStr (Identity m)),
          (''result'', HStr (ae_text e (case Data m of None \<Rightarrow> [] | Some b \<Rightarrow> b)))])])))"
  using assms by (auto simp: serve_get_def run_endpoint_def GrainCall_def RequestFuture_def call_sent_def call_answer_def
      call_envelope_def Let_def split: prod.split call_result.split)

text \<open>Which requests fail, apart from the health check.\<close>

definition api_fails :: "('b, 'n ws_state_scheme) api_env \<Rightarrow> router \<Rightarrow> endpoint \<Rightarrow> (string, string) gomap \<Rightarrow> string \<Rightarrow> 'n ws_state_scheme \<Rightarrow> bool" where
  "api_fails e r ep ps name c =
     (case ep of
        ClusterMembers \<Rightarrow> \<exists>err. rt_getMembers r = Inl err
      | ClusterStatus \<Rightarrow> \<exists>err. rt_getMembers r = Inl err
      | ActorInstances \<Rightarrow> \<exists>err. rt_getMembers r = Inl err
      | CallGrain \<Rightarrow> \<not> call_sent ps name \<or> snd (call_answer e ps name c) \<in> {RequestErr, FutureErr}
      | KVStoreKey \<Rightarrow> (case rt_kvStore r of None \<Rightarrow> True | Some kv \<Rightarrow> param ''key'' ps = '''' \<or> GetEntry (param ''key'' ps) kv = None)
      | _ \<Rightarrow> False)"

text \<open>The status a failure is answered with.\<close>

definition failure_status :: "router \<Rightarrow> endpoint \<Rightarrow> (string, string) gomap \<Rightarrow> string \<Rightarrow> int" where
  "failure_status r ep ps name =
     (case ep of
        CallGrain \<Rightarrow> if name = '''' then 400 else 500
      | KVStoreKey \<Rightarrow> if rt_kvStore r \<noteq> None \<and> param ''key'' ps = '''' then 400 else 200
      | _ \<Rightarrow> 500)"


text \<open>A router that has no store is asked for a key.\<close>

definition key_route :: router_fun where
  "key_route rs path = Some ([Lit ''api'', Lit ''kvstore'', Lit ''key'', Param ''key''], KVStoreKey, [(''key'', ''a'')])"


end
