(* ===== verification/ApiProps.thy ===== *)
theory ApiProps
  imports Requests Router
begin

text \<open>
  The HTTP API on a node of a running cluster: what the requests it serves change, and what a call of a grain
  over HTTP comes to.
\<close>

section \<open>The router of a node\<close>

text \<open>The router keeps what it was given, a gin engine, which holds the routes that are registered on it, and the
  manager of the node's WebSocket connections.\<close>

record http_router =
  engine :: "(seg list \<times> endpoint) list"
  hr_deps :: router
  wsManager :: ws_state

definition NewRouter :: "router \<Rightarrow> node \<Rightarrow> http_router" where
  "NewRouter deps w = \<lparr>engine = setupRoutes, hr_deps = deps, wsManager = NewWebSocketManager w\<rparr>"

definition GetEngine :: "http_router \<Rightarrow> (seg list \<times> endpoint) list" where
  "GetEngine r = engine r"

text \<open>\<open>serve_get\<close> is what the engine of a new router answers, and its manager begins where a node does.\<close>

lemma new_router_serves:
  "serve_get route e deps path name c =
     (case route (GetEngine (NewRouter deps w)) path of
        None \<Rightarrow> (c, NotFound)
      | Some (p, ep, ps) \<Rightarrow> run_endpoint e (hr_deps (NewRouter deps w)) ep ps name c)"
  by (auto simp: serve_get_def GetEngine_def NewRouter_def split: option.split)

lemma new_router_node:
  "ws_state.extend (wsManager (NewRouter deps new_node)) \<lparr>sys_rooms = [], sys_users = [], sys_hellos = []\<rparr> = new_sys"
  by (simp add: NewRouter_def new_sys_def)

section \<open>Calling a grain over HTTP\<close>

text \<open>An envelope whose id no handler is registered for.\<close>

lemma grain_turn_unknown:
  assumes "\<And>g. go = Some g \<Longrightarrow> find_handler g (MsgId m) = None" "find_handler new (MsgId m) = None"
  obtains g w where "grain_turn new ctx (Receive cd invoke ctx (Envelope m)) go wo = Ok (g, w, Some (m\<lparr>Code := ErrorCode_UnknownMsgId\<rparr>))"
    "published w = published wo" "\<And>g1. go = Some g1 \<Longrightarrow> g = g1"
proof (cases go)
  case None
  let ?x = "onStarted ctx new wo"
  have "grain_turn new ctx (Receive cd invoke ctx (Envelope m)) go wo = Receive cd invoke ctx (Envelope m) (fst ?x) (snd ?x)"
    using None by (simp add: grain_turn_def case_prod_unfold Let_def)
  also have "\<dots> = Ok (fst ?x, snd ?x, Some (m\<lparr>Code := ErrorCode_UnknownMsgId\<rparr>))"
    by (rule Receive_unknown) (simp add: assms(2))
  finally show ?thesis using None by (intro that [of "fst ?x" "snd ?x"]) simp_all
next
  case (Some g)
  then show ?thesis using assms(1) by (intro that [of g wo]) (simp_all add: grain_turn_def Receive_unknown)
qed

lemma tables_zero: "chat_table 0 = None" "user_table 0 = None"
  by (simp_all add: chat_table_def user_table_def mget_def)

lemma grain_request_unknown:
  assumes "grains_inv cd s" "i \<noteq> ''''" "k \<in> grain_kinds" "MsgId m = 0"
  obtains s' where "grain_request ge i k (Envelope m) s = Ok (Some (s', Some (m\<lparr>Code := ErrorCode_UnknownMsgId\<rparr>)))"
    "published s' = published s" "\<And>j g. mget (sys_rooms s) j = Some g \<Longrightarrow> mget (sys_rooms s') j = Some g"
    "\<And>j u. mget (sys_users s) j = Some u \<Longrightarrow> mget (sys_users s') j = Some u" "is_active s' k i"
proof -
  note maps = assms(1) [unfolded grains_inv_def, THEN conjunct1, unfolded grain_maps_ok_def]
  consider (hello) "k = ''hello''" | (user) "k = ''user''" | (chat) "k = ''chat''"
    using assms(3) by (auto simp: grain_kinds_def)
  then show ?thesis
  proof cases
    case hello
    obtain g w where "grain_turn NewHelloGrain (grain_ctx ge ''hello'' i)
        (Receive (codec_of (ge_chat ge)) hello_invoke (grain_ctx ge ''hello'' i) (Envelope m)) (mget (sys_hellos s) i) (node_of s) =
        Ok (g, w, Some (m\<lparr>Code := ErrorCode_UnknownMsgId\<rparr>))" "published w = published (node_of s)"
      by (rule grain_turn_unknown [where go = "mget (sys_hellos s) i" and m = m and new = NewHelloGrain and ctx = "grain_ctx ge ''hello'' i"
          and cd = "codec_of (ge_chat ge)" and invoke = "hello_invoke" and wo = "node_of s"]) (use maps in \<open>auto simp: hello_inv_def\<close>)
    with hello show ?thesis
      by (intro that [of "with_node w s\<lparr>sys_hellos := mput i g (sys_hellos s)\<rparr>"]) (simp_all add: grain_request_def is_active_def mhas_def)
  next
    case user
    obtain g w where "grain_turn NewUserGrain (grain_ctx ge ''user'' i)
        (Receive (ucodec_of (ge_user ge)) (user_invoke (ge_user ge)) (grain_ctx ge ''user'' i) (Envelope m))
        (mget (sys_users s) i) (node_of s) = Ok (g, w, Some (m\<lparr>Code := ErrorCode_UnknownMsgId\<rparr>))"
        "published w = published (node_of s)" "\<And>g1. mget (sys_users s) i = Some g1 \<Longrightarrow> g = g1"
      by (rule grain_turn_unknown [where go = "mget (sys_users s) i" and m = m and new = NewUserGrain and ctx = "grain_ctx ge ''user'' i"
          and cd = "ucodec_of (ge_user ge)" and invoke = "user_invoke (ge_user ge)" and wo = "node_of s"])
        (use maps assms(4) in \<open>simp_all add: user_inv_def tables_zero find_handler_NewUserGrain\<close>)
    with user show ?thesis
      by (intro that [of "with_node w s\<lparr>sys_users := mput i g (sys_users s)\<rparr>"]) (auto simp: grain_request_def is_active_def mhas_def)
  next
    case chat
    obtain g w where "grain_turn NewChatGrain (grain_ctx ge ''chat'' i)
        (Receive (codec_of (ge_chat ge)) (chat_invoke (ge_chat ge)) (grain_ctx ge ''chat'' i) (Envelope m))
        (mget (sys_rooms s) i) (node_of s) = Ok (g, w, Some (m\<lparr>Code := ErrorCode_UnknownMsgId\<rparr>))"
        "published w = published (node_of s)" "\<And>g1. mget (sys_rooms s) i = Some g1 \<Longrightarrow> g = g1"
      by (rule grain_turn_unknown [where go = "mget (sys_rooms s) i" and m = m and new = NewChatGrain and ctx = "grain_ctx ge ''chat'' i"
          and cd = "codec_of (ge_chat ge)" and invoke = "chat_invoke (ge_chat ge)" and wo = "node_of s"])
        (use maps assms(4) in \<open>simp_all add: chat_inv_def tables_zero find_handler_NewChatGrain\<close>)
    with chat show ?thesis
      by (intro that [of "with_node w s\<lparr>sys_rooms := mput i g (sys_rooms s)\<rparr>"]) (auto simp: grain_request_def is_active_def mhas_def)
  qed
qed

text \<open>What no request over HTTP changes: the connections of the nodes, what they have published, the rooms and the
  users. Grains may be activated.\<close>

definition untouched :: "cluster_state \<Rightarrow> cluster_state \<Rightarrow> bool" where
  "untouched \<sigma> \<sigma>' \<longleftrightarrow> (\<forall>n. same_ws (\<sigma> n) (\<sigma>' n) \<and> published (\<sigma>' n) = published (\<sigma> n) \<and>
     (\<forall>j g. mget (sys_rooms (\<sigma> n)) j = Some g \<longrightarrow> mget (sys_rooms (\<sigma>' n)) j = Some g) \<and>
     (\<forall>j u. mget (sys_users (\<sigma> n)) j = Some u \<longrightarrow> mget (sys_users (\<sigma>' n)) j = Some u))"

lemma untouched_refl [simp]: "untouched \<sigma> \<sigma>"
  by (simp add: untouched_def)

lemma untouched_home:
  assumes "same_ws (\<sigma> h) s'" "published s' = published (\<sigma> h)" "\<And>j g. mget (sys_rooms (\<sigma> h)) j = Some g \<Longrightarrow> mget (sys_rooms s') j = Some g"
    and "\<And>j u. mget (sys_users (\<sigma> h)) j = Some u \<Longrightarrow> mget (sys_users s') j = Some u"
  shows "untouched \<sigma> (\<sigma>(h := s'))"
  using assms by (simp add: untouched_def)

text \<open>A turn that rejects an envelope without a message id, in any reachable state.\<close>

lemma rejected_turn:
  assumes "creachable home cd \<sigma>" "grain_env_ok cd ge" "i \<noteq> ''''" "MsgId m = 0"
    and "grain_request ge i k (Envelope m) (\<sigma> (home k i)) = Ok (Some (x, Some r))"
  shows "untouched \<sigma> (\<sigma>(home k i := x))" "is_active x k i" "r = m\<lparr>Code := ErrorCode_UnknownMsgId\<rparr>"
proof -
  have inv: "grains_inv cd (\<sigma> (home k i))" using creachable_inv [OF assms(1)] by (simp add: sys_inv_def)
  from call_facts [OF assms(5) inv assms(2,3)] have k: "k \<in> grain_kinds" by (elim conjE)
  obtain y where y: "grain_request ge i k (Envelope m) (\<sigma> (home k i)) = Ok (Some (y, Some (m\<lparr>Code := ErrorCode_UnknownMsgId\<rparr>)))"
    "published y = published (\<sigma> (home k i))" "\<And>j g. mget (sys_rooms (\<sigma> (home k i))) j = Some g \<Longrightarrow> mget (sys_rooms y) j = Some g"
    "\<And>j u. mget (sys_users (\<sigma> (home k i))) j = Some u \<Longrightarrow> mget (sys_users y) j = Some u" "is_active y k i"
    by (rule grain_request_unknown [OF inv assms(3) k assms(4), where ge = ge]) (rule that)
  from y(1) assms(5) have e: "x = y" "r = m\<lparr>Code := ErrorCode_UnknownMsgId\<rparr>" by simp_all
  show "untouched \<sigma> (\<sigma>(home k i := x))" unfolding e(1)
    by (rule untouched_home [where \<sigma> = \<sigma> and h = "home k i", OF grain_request_ws [OF y(1)] y(2-4)])
  show "is_active x k i" "r = m\<lparr>Code := ErrorCode_UnknownMsgId\<rparr>" using y(5) e by simp_all
qed

text \<open>Only two endpoints change the state of the node at all.\<close>

lemma run_endpoint_same:
  "ep \<noteq> CallGrain \<Longrightarrow> ep \<noteq> WebSocketUpgrade \<Longrightarrow> fst (run_endpoint e r ep ps name c) = c"
  by (cases ep) (simp_all add: run_endpoint_def case_prod_unfold)

text \<open>A call of a grain that is sent.\<close>

lemma sent_call:
  assumes "creachable home cd \<sigma>" "serve_get route e r path name (\<sigma> a) = (s', ans)"
    and "route setupRoutes path = Some (p, CallGrain, ps)" "call_sent ps name"
    and "went_so home cd \<sigma> a (ae_cluster e) (param ''identity'' ps) (param ''kind'' ps) (call_envelope (ae_trace e) ps name) \<rho>"
  shows "s' = ends home \<sigma> (param ''identity'' ps) (param ''kind'' ps) \<rho> a \<and>
          (cstep home cd)\<^sup>*\<^sup>* \<sigma> (ends home \<sigma> (param ''identity'' ps) (param ''kind'' ps) \<rho>) \<and>
          (case \<rho> of
             Lost \<tau>s sent \<Rightarrow> ans = Json 500 (failure (ae_words e (if sent then CallGrainFailed else GetGrainFailed)))
           | Handled before ge x rep after arrived \<Rightarrow>
               untouched (ending \<sigma> before) ((ending \<sigma> before)(home (param ''kind'' ps) (param ''identity'' ps) := x)) \<and>
               is_active x (param ''kind'' ps) (param ''identity'' ps) \<and> Code rep = ErrorCode_UnknownMsgId \<and>
               ans = (if arrived
                 then Json 200 (HObj [(''code'', HInt 0), (''data'', HObj [(''kind_name'', HStr (param ''kind'' ps)),
                   (''identity'', HStr (param ''identity'' ps)), (''result'', HStr (ae_text e []))])])
                 else Json 500 (failure (ae_words e CallGrainFailed))))"
proof -
  let ?i = "param ''identity'' ps" and ?k = "param ''kind'' ps" and ?m = "call_envelope (ae_trace e) ps name"
  note served = assms(2) [unfolded serve_call [where route = route and path = path and e = e and name = name and r = r and c = "\<sigma> a", OF assms(3)]]
  have n: "name \<noteq> ''''" "?i \<noteq> ''''" using assms(4) by (simp_all add: call_sent_def)
  have ok: "request_ok home cd \<sigma> ?i ?k ?m \<rho>" using assms(5) by (simp add: went_so_def)
  note steps = request_runs [OF ok n(2)]
  have ans: "(case (ends home \<sigma> ?i ?k \<rho> a, fate \<rho>) of
      (c', RequestErr) \<Rightarrow> (c', Json 500 (failure (ae_words e GetGrainFailed)))
    | (c', FutureErr) \<Rightarrow> (c', Json 500 (failure (ae_words e CallGrainFailed)))
    | (c', RepliedOther) \<Rightarrow> (\<sigma> a, Recovered)
    | (c', Replied m) \<Rightarrow> (c', Json 200 (HObj [(''code'', HInt 0), (''data'', HObj
        [(''kind_name'', HStr ?k), (''identity'', HStr (Identity m)),
         (''result'', HStr (ae_text e (case Data m of None \<Rightarrow> [] | Some b \<Rightarrow> b)))])]))) = (s', ans)"
    using served assms(4,5) n by (simp add: call_answer_def went_so_def)
  show ?thesis
  proof (cases \<rho>)
    case (Lost \<tau>s sent)
    with ans steps show ?thesis by (cases sent) simp_all
  next
    case (Handled before ge x rep after arrived)
    note h = handled_facts [OF ok [unfolded Handled] assms(1) n(2)]
    have m: "MsgId ?m = 0" by (simp add: call_envelope_def)
    note u = rejected_turn [where home = home and k = ?k and \<sigma> = "ending \<sigma> before", OF h(5,2) n(2) m h(3)]
    have "Identity rep = ?i" "Data rep = None" "Code rep = ErrorCode_UnknownMsgId"
      by (simp_all add: u(3) call_envelope_def)
    with ans steps u(1,2) show ?thesis by (cases arrived) (simp_all add: Handled)
  qed
qed

text \<open>C37: The HTTP API changes nothing that it is not asked for. Take any reachable state of a cluster and any GET
  request that a node serves in it. A WebSocket request adds one new connection to the node when the
  upgrade succeeds, and nothing otherwise. Any other request, but for the call of a grain, leaves the
  node as it is. When a grain is called, the call may be lost, or the grain takes its turn at its
  home, while the other nodes and connections do whatever they like before and after: the state in which the handler ends
  is the one in which the call ends. And the turn itself changes no connection, room, user or
  publication of any node: it activates the grain, which rejects the envelope, since it carries no
  message id. If that answer arrives, the caller is nevertheless told status 200, code 0 and an empty
  result; if the call was lost or the answer was, it is told a failure with status 500.\<close>

theorem http_changes_nothing:
  assumes "creachable home cd \<sigma>" "serve_get route e r path name (\<sigma> a) = (s', ans)"
    and "\<And>p ps. route setupRoutes path = Some (p, CallGrain, ps) \<Longrightarrow> call_sent ps name \<Longrightarrow>
      went_so home cd \<sigma> a (ae_cluster e) (param ''identity'' ps) (param ''kind'' ps) (call_envelope (ae_trace e) ps name) \<rho>"
  shows "case route setupRoutes path of
      Some (p, WebSocketUpgrade, ps) \<Rightarrow>
        (if ae_upgraded e
         then s' = \<sigma> a\<lparr>conns := (conns (\<sigma> a))(nconns (\<sigma> a) := NewWSClient), nconns := nconns (\<sigma> a) + 1\<rparr> \<and> creachable home cd (\<sigma>(a := s'))
         else s' = \<sigma> a)
    | Some (p, CallGrain, ps) \<Rightarrow>
        if call_sent ps name
        then s' = ends home \<sigma> (param ''identity'' ps) (param ''kind'' ps) \<rho> a \<and>
          (cstep home cd)\<^sup>*\<^sup>* \<sigma> (ends home \<sigma> (param ''identity'' ps) (param ''kind'' ps) \<rho>) \<and>
          (case \<rho> of
             Lost \<tau>s sent \<Rightarrow> ans = Json 500 (failure (ae_words e (if sent then CallGrainFailed else GetGrainFailed)))
           | Handled before ge x rep after arrived \<Rightarrow>
               untouched (ending \<sigma> before) ((ending \<sigma> before)(home (param ''kind'' ps) (param ''identity'' ps) := x)) \<and>
               is_active x (param ''kind'' ps) (param ''identity'' ps) \<and> Code rep = ErrorCode_UnknownMsgId \<and>
               ans = (if arrived
                 then Json 200 (HObj [(''code'', HInt 0), (''data'', HObj [(''kind_name'', HStr (param ''kind'' ps)),
                   (''identity'', HStr (param ''identity'' ps)), (''result'', HStr (ae_text e []))])])
                 else Json 500 (failure (ae_words e CallGrainFailed))))
        else s' = \<sigma> a
    | _ \<Rightarrow> s' = \<sigma> a"
proof (cases "route setupRoutes path")
  case None
  with assms(2) show ?thesis by (simp add: serve_get_def)
next
  case (Some x)
  obtain p ep ps where x: "x = (p, ep, ps)" by (cases x)
  note r = Some [unfolded x]
  have run: "run_endpoint e r ep ps name (\<sigma> a) = (s', ans)" using assms(2) r by (simp add: serve_get_def)
  consider (ws) "ep = WebSocketUpgrade" | (call) "ep = CallGrain" | (other) "ep \<noteq> WebSocketUpgrade" "ep \<noteq> CallGrain" by blast
  then show ?thesis
  proof cases
    case ws
    from run have s: "s' = fst (HandleWebSocket (ae_upgraded e) (\<sigma> a))" by (simp add: ws run_endpoint_def)
    have "creachable home cd (\<sigma>(a := s'))" if "ae_upgraded e"
      unfolding s using that by (simp add: creachable_step [OF assms(1) cstep.node [OF step.Connect]])
    with s show ?thesis by (simp add: r ws HandleWebSocket_def)
  next
    case other
    from run run_endpoint_same [OF other(2,1), of e r ps name "\<sigma> a"] have "s' = \<sigma> a" by simp
    with other show ?thesis by (simp add: r split: endpoint.split)
  next
    case call
    note rc = r [unfolded call]
    show ?thesis
    proof (cases "call_sent ps name")
      case True
      from sent_call [OF assms(1,2) rc True assms(3) [OF rc True]] show ?thesis
        unfolding rc option.case prod.case endpoint.case if_P [OF True] .
    next
      case False
      with assms(2) [unfolded serve_call [where route = route and path = path and e = e and name = name and r = r and c = "\<sigma> a", OF rc]]
      show ?thesis by (auto simp: rc split: if_splits)
    qed
  qed
qed

text \<open>A call to the lobby on node 1, served by node 0, to which another client connects meanwhile.\<close>

definition call_route :: router_fun where
  "call_route rs path = (case path of
     [k, i] \<Rightarrow> Some ([Lit ''api'', Lit ''actor'', Lit ''call'', Param ''kind'', Param ''identity''], CallGrain, [(''kind'', k), (''identity'', i)])
   | _ \<Rightarrow> None)"

definition call_env :: "(unit, sys_state) api_env" where
  "call_env = (undefined :: (unit, sys_state) api_env)\<lparr>ae_cluster := busy_cluster (\<lambda>k i. 1) (sys_genv []) (\<lambda>_. new_sys) 0,
     ae_trace := '''', ae_text := \<lambda>b. ''''\<rparr>"

theorem http_changes_nothing_witness:
  "\<exists>\<sigma>' x. (cstep (\<lambda>k i. 1) (table_codec []))\<^sup>*\<^sup>* (\<lambda>_. new_sys) \<sigma>' \<and> nconns (\<sigma>' 0) = 1 \<and>
     untouched (\<lambda>_. new_sys) ((\<lambda>_. new_sys)(1 := x)) \<and> is_active x ''chat'' ''lobby'' \<and>
     serve_get call_route call_env (main_router zero_config [] srv0 (\<lambda>m. m) (\<lambda>m. m) new_node) [''chat'', ''lobby''] ''JoinRoom'' new_sys = (\<sigma>' 0,
       Json 200 (HObj [(''code'', HInt 0), (''data'', HObj [(''kind_name'', HStr ''chat''), (''identity'', HStr ''lobby''), (''result'', HStr '''')])]))"
proof -
  let ?ho = "\<lambda>(k :: string) (i :: string). 1 :: nat" and ?c = "\<lambda>_ :: nat. new_sys"
  let ?ps = "[(''kind'', ''chat''), (''identity'', ''lobby'')]"
  let ?m = "call_envelope '''' ?ps ''JoinRoom''"
  obtain s' ans where s: "serve_get call_route call_env (main_router zero_config [] srv0 (\<lambda>m. m) (\<lambda>m. m) new_node) [''chat'', ''lobby''] ''JoinRoom'' (?c 0) = (s', ans)" by fastforce
  have cl: "ae_cluster call_env = busy_cluster ?ho (sys_genv []) ?c 0" "ae_text call_env = (\<lambda>b. '''')" "ae_trace call_env = ''''"
    by (simp_all add: call_env_def)
  have p: "param ''kind'' ?ps = ''chat''" "param ''identity'' ?ps = ''lobby''" by (simp_all add: param_def mget_def)
  have r: "call_route setupRoutes [''chat'', ''lobby''] = Some ([Lit ''api'', Lit ''actor'', Lit ''call'', Param ''kind'', Param ''identity''], CallGrain, ?ps)"
    by (simp add: call_route_def)
  have c0: "creachable ?ho (table_codec []) ?c" by (rule creachable_new)
  from requests_answered [OF creachable_node [OF c0, of 1], where i = "''lobby''" and k = "''chat''" and ge = "sys_genv []" and am = "Envelope ?m"]
  obtain x y where x: "grain_request (sys_genv []) ''lobby'' ''chat'' (Envelope ?m) (?c (?ho ''chat'' ''lobby'')) = Ok (Some (x, Some y))"
    by (fastforce simp: grain_kinds_def is_envelope_def)
  define \<rho> where "\<rho> = busy_run ?ho (sys_genv []) ?c 0 ''lobby'' ''chat'' x y"
  from busy_went [where home = ?ho and a = 0 and k = "''chat''" and \<sigma> = ?c, OF x sys_env_ok(1)]
  have w: "went_so ?ho (table_codec []) ?c 0 (ae_cluster call_env) ''lobby'' ''chat'' ?m \<rho>" unfolding \<rho>_def cl .
  have "went_so ?ho (table_codec []) ?c 0 (ae_cluster call_env) (param ''identity'' ps) (param ''kind'' ps) (call_envelope (ae_trace call_env) ps ''JoinRoom'') \<rho>"
    if "call_route setupRoutes [''chat'', ''lobby''] = Some (q, CallGrain, ps)" for q ps
    using that w unfolding r cl(3) by (auto simp: p)
  note c = http_changes_nothing [OF c0 s this, unfolded r]
  define \<sigma>' where "\<sigma>' = ends ?ho ?c ''lobby'' ''chat'' \<rho>"
  have sent: "call_sent ?ps ''JoinRoom''" by (simp add: call_sent_def p)
  have n: "nconns (\<sigma>' 0) = 1" by (simp add: \<sigma>'_def \<rho>_def busy_run_def HandleWebSocket_def new_sys_def ws_state.defs NewWebSocketManager_def node.defs new_node_def)
  from c sent have "s' = \<sigma>' 0" "(cstep ?ho (table_codec []))\<^sup>*\<^sup>* ?c \<sigma>'" "untouched ?c (?c(1 := x))" "is_active x ''chat'' ''lobby''"
    "ans = Json 200 (HObj [(''code'', HInt 0), (''data'', HObj [(''kind_name'', HStr ''chat''), (''identity'', HStr ''lobby''), (''result'', HStr '''')])])"
    unfolding \<sigma>'_def by (simp_all add: p \<rho>_def busy_run_def cl)
  with s n show ?thesis by blast
qed

end
