(* ===== verification/Startup.thy ===== *)
theory Startup
  imports Router
begin

text \<open>
  \<^verbatim>\<open>main.go\<close> and \<^verbatim>\<open>internal/telemetry\<close>: what the process does from its start to its end, and how tracing is
  set up. The exporter, the resource detection and the Jaeger library are arguments. What the process
  does is a list of events; \<^verbatim>\<open>log.Fatalf\<close> ends it at once, without the deferred functions. While it waits for
  the signal its goroutines go on: those of the key-value store's watchers and the one of the HTTP
  server. A signal that arrives before the process listens for signals is not modelled.
\<close>

section \<open>Tracing\<close>

record ZipkinConfig =
  zk_ServiceName :: string
  zk_Endpoint :: string
  zk_SampleRatio :: f64
  zk_ResourceAttributes :: "(string, string) gomap"

datatype sampler = AlwaysSample | RatioSample f64

text \<open>What the provider is made of: resource attributes, batching in spans, milliseconds and queue length.\<close>

record TracerProvider =
  tp_endpoint :: string
  tp_resource :: "(string \<times> string) list"
  tp_batch :: "nat \<times> nat \<times> nat"
  tp_sampler :: sampler

definition zipkin_defaults :: "ZipkinConfig \<Rightarrow> ZipkinConfig" where
  "zipkin_defaults cfg =
     (let cfg = (if zk_Endpoint cfg = '''' then cfg\<lparr>zk_Endpoint := ''http://localhost:9411/api/v2/spans''\<rparr> else cfg);
          cfg = (if zk_ServiceName cfg = '''' then cfg\<lparr>zk_ServiceName := ''unknown-service''\<rparr> else cfg)
      in if f64_le (zk_SampleRatio cfg) 0 \<or> f64_gt (zk_SampleRatio cfg) 1 then cfg\<lparr>zk_SampleRatio := Fin 1\<rparr> else cfg)"

text \<open>\<open>exporter_ok\<close> tells whether an exporter can be made for an endpoint, \<open>resource\<close> what the detection
  makes of the attributes (\<open>None\<close>: an error, then the minimal resource is used).\<close>

definition InitZipkinWithConfig ::
    "(string \<Rightarrow> bool) \<Rightarrow> ((string \<times> string) list \<Rightarrow> (string \<times> string) list option) \<Rightarrow>
       (string, string) ranger \<Rightarrow> ZipkinConfig \<Rightarrow> TracerProvider option" where
  "InitZipkinWithConfig exporter_ok resource rng cfg =
     (let cfg = zipkin_defaults cfg
      in if \<not> exporter_ok (zk_Endpoint cfg) then None
         else (let attrs = (''service.name'', zk_ServiceName cfg) # rng (zk_ResourceAttributes cfg);
                   res = (case resource attrs of
                       Some r \<Rightarrow> r
                     | None \<Rightarrow> [(''service.name'', zk_ServiceName cfg)])
               in Some \<lparr>tp_endpoint = zk_Endpoint cfg, tp_resource = res, tp_batch = (1, 1000, 2048),
                    tp_sampler = AlwaysSample\<rparr>))"

definition InitZipkin ::
    "(string \<Rightarrow> bool) \<Rightarrow> ((string \<times> string) list \<Rightarrow> (string \<times> string) list option) \<Rightarrow>
       (string, string) ranger \<Rightarrow> string \<Rightarrow> string \<Rightarrow> f64 \<Rightarrow> TracerProvider option" where
  "InitZipkin exporter_ok resource rng serviceName endpoint sampleRatio =
     InitZipkinWithConfig exporter_ok resource rng
       \<lparr>zk_ServiceName = serviceName, zk_Endpoint = endpoint, zk_SampleRatio = sampleRatio, zk_ResourceAttributes = []\<rparr>"

text \<open>\<^verbatim>\<open>InitJaeger\<close> configures a constant sampler and panics when the library fails.\<close>

definition InitJaeger :: "bool \<Rightarrow> unit outcome" where
  "InitJaeger ok = (if ok then Ok () else Panic CalledPanic)"

section \<open>The process\<close>

datatype main_error = LoadFailed config_error | TracingFailed | CreateFailed server_error | StartFailed server_error

datatype main_event =
    VersionPrinted
  | ZipkinOn TracerProvider | TestSpan string | ZipkinOff | JaegerOn | JaegerOff
  | ServerUp | HttpStarted string | Listening string | HttpError string | Signalled | ServerDown

text \<open>\<^verbatim>\<open>log.Fatalf\<close> exits without running deferred functions; a panic runs them, unless it is one of another
  goroutine, which ends the process at once.\<close>

datatype main_exit = Returned | Fatal main_error | Crashed panic | Killed panic

text \<open>What happens while the process waits: a goroutine of a watcher or the one of the HTTP server takes a step.\<close>

datatype wait_step = WatcherStep query nat | HttpStep bool

record 'b main_env =
  show_version :: bool
  config_path :: string
  me_load :: "'b load_env"
  me_exporter :: "string \<Rightarrow> bool"
  me_resource :: "(string \<times> string) list \<Rightarrow> (string \<times> string) list option"
  me_jaeger :: bool
  me_provider :: bool
  me_client :: consul_client_config
  me_client_ok :: "consul_client_config \<Rightarrow> bool"
  me_queries :: "string \<Rightarrow> query"
  me_range :: "(string, nat) ranger"
  me_range2 :: "(string, nat) ranger"
  me_member :: "panic option" \<comment> \<open>how \<^verbatim>\<open>StartMember\<close> fails, if it does\<close>
  me_waits :: "wait_step list" \<comment> \<open>what goes on until the signal arrives\<close>

text \<open>What setting tracing up does, and what is deferred until the end.\<close>

definition main_tracing :: "'b main_env \<Rightarrow> ClusterConfig \<Rightarrow> main_exit + main_event list \<times> main_event list" where
  "main_tracing e cfg =
     (if \<not> Enabled (Tracing cfg) then Inr ([], [])
      else if Type (Tracing cfg) = ''zipkin'' then
        (case InitZipkin (me_exporter e) (me_resource e) (\<lambda>m. m) (ClusterName cfg) (Endpoint (Tracing cfg))
            (SampleRatio (Tracing cfg)) of
           None \<Rightarrow> Inl (Fatal TracingFailed)
         | Some tp \<Rightarrow> Inr ([ZipkinOn tp, TestSpan (ClusterName cfg @ ''-test'')], [ZipkinOff]))
      else if Type (Tracing cfg) = ''jaeger'' then
        (case InitJaeger (me_jaeger e) of
           Panic p \<Rightarrow> Inl (Crashed p)
         | Ok u \<Rightarrow> Inr ([JaegerOn], [JaegerOff]))
      else Inr ([], []))"

definition http_event :: "server \<Rightarrow> server \<Rightarrow> main_event list" where
  "http_event s s' =
     (case (httpServer s, httpServer s') of
        (Some (addr, Starting), Some (_, Serving)) \<Rightarrow> [Listening addr]
      | (Some (addr, Starting), Some (_, ListenFailed)) \<Rightarrow> [HttpError addr]
      | (Some (addr, Serving), Some (_, ListenFailed)) \<Rightarrow> [HttpError addr]
      | _ \<Rightarrow> [])"

primrec main_wait :: "wait_step list \<Rightarrow> server \<Rightarrow> (main_event list \<times> server) outcome" where
  "main_wait [] s = Ok ([], s)"
| "main_wait (w # ws) s =
     (case w of
        WatcherStep q i \<Rightarrow> obind (kv_step (OpRound q i) (sv_kv s)) (\<lambda>kv. main_wait ws (s\<lparr>sv_kv := kv\<rparr>))
      | HttpStep ok \<Rightarrow> obind (main_wait ws (http_step ok s)) (\<lambda>(evs, s'). Ok (http_event s (http_step ok s) @ evs, s')))"

definition main_server :: "'b main_env \<Rightarrow> ClusterConfig \<Rightarrow> main_event list \<times> main_exit \<times> server option" where
  "main_server e cfg =
     (case NewServer (me_provider e) (me_client e) (me_client_ok e) cfg of
        Inl err \<Rightarrow> ([], Fatal (CreateFailed err), None)
      | Inr s \<Rightarrow>
          (case Start (me_queries e) (me_range e) (me_range2 e) (me_member e) s of
             Panic p \<Rightarrow> ([], Crashed p, Some s)
           | Ok (s, Some err) \<Rightarrow> ([], Fatal (StartFailed err), Some s)
           | Ok (s, None) \<Rightarrow>
               (let addr = main_apiAddr cfg; s = StartHTTPServer addr s
                in case main_wait (me_waits e) s of
                     Panic p \<Rightarrow> ([ServerUp, HttpStarted addr], Killed p, Some s)
                   | Ok (evs, s) \<Rightarrow>
                       (case Stop (me_range e) s of
                          Panic p \<Rightarrow> (ServerUp # HttpStarted addr # evs @ [Signalled], Crashed p, Some s)
                        | Ok s \<Rightarrow> (ServerUp # HttpStarted addr # evs @ [Signalled, ServerDown], Returned, Some s)))))"

definition main_prog :: "'b main_env \<Rightarrow> main_event list \<times> main_exit \<times> server option" where
  "main_prog e =
     (if show_version e then ([VersionPrinted], Returned, None)
      else case Load (me_load e) (config_path e) of
        Inl err \<Rightarrow> ([VersionPrinted], Fatal (LoadFailed err), None)
      | Inr cfg \<Rightarrow>
          (case main_tracing e cfg of
             Inl ex \<Rightarrow> ([VersionPrinted], ex, None)
           | Inr (on, off) \<Rightarrow>
               (let (evs, ex, s) = main_server e cfg
                in (VersionPrinted # on @ evs @ (case ex of Fatal err \<Rightarrow> [] | Killed p \<Rightarrow> [] | _ \<Rightarrow> off), ex, s))))"

section \<open>Properties\<close>

lemma load_config_ok:
  assumes "Load e path = Inr c"
  shows "config_ok c"
proof -
  let ?p = "if path = '''' then ''configs/config.yaml'' else path"
  have p: "Load e ?p = Inr c" "?p \<noteq> ''''" using assms by (simp_all add: Load_def Let_def)
  from p obtain b f where "read_file e ?p = Some b"
    "(if suffix ''.json'' ?p then parse_json e b else parse_yaml e b) = Some f"
    by (auto simp: Load_def Let_def split: option.splits)
  from load_facts [OF p(1) this(1) p(2) this(2)] show ?thesis by blast
qed

text \<open>What the HTTP server's goroutine reports, from each of its states.\<close>

fun http_log :: "string \<Rightarrow> http_state \<Rightarrow> wait_step list \<Rightarrow> main_event list" where
  "http_log addr h [] = []"
| "http_log addr h (WatcherStep q i # ws) = http_log addr h ws"
| "http_log addr Starting (HttpStep ok # ws) =
     (if ok then Listening addr # http_log addr Serving ws else [HttpError addr])"
| "http_log addr Serving (HttpStep ok # ws) = (if ok then http_log addr Serving ws else [HttpError addr])"
| "http_log addr h (HttpStep ok # ws) = []"

lemma http_log_over: "http_log addr ListenFailed ws = []"
  by (induction addr "ListenFailed" ws rule: http_log.induct) simp_all

lemma watcher_step_keeps:
  assumes "kv_inv k"
  obtains k' where "kv_step (OpRound q i) k = Ok k'" "kv_inv k'" "kv_running k' = kv_running k"
proof -
  have "kv_allowed (OpRound q i)" by (simp add: kv_allowed_def)
  from kv_step_safe [OF assms this] obtain k1 where k1: "kv_step (OpRound q i) k = Ok k1" "kv_inv k1" by blast
  have "kv_running k1 = kv_running k"
    using k1(1) by (auto simp: kv_step_def watcher_start_def watchOnce_def Let_def split: if_splits option.splits stop_chan.splits)
  with k1 show thesis by (rule that)
qed

text \<open>Whatever goes on while the process waits, it does not panic, and the server runs on.\<close>

lemma wait_keeps:
  "server_inv s \<Longrightarrow> sv_running s \<Longrightarrow> sv_stopCh s = Open \<Longrightarrow> httpServer s = Some (addr, h) \<Longrightarrow> h \<noteq> Shut \<Longrightarrow>
     \<exists>s' h'. main_wait ws s = Ok (http_log addr h ws, s') \<and> server_inv s' \<and> sv_running s' \<and> sv_stopCh s' = Open \<and>
       httpServer s' = Some (addr, h')"
proof (induction ws arbitrary: s h)
  case (Cons w ws)
  show ?case
  proof (cases w)
    case (WatcherStep q i)
    obtain k where k: "kv_step (OpRound q i) (sv_kv s) = Ok k" "kv_inv k" "kv_running k = kv_running (sv_kv s)"
      by (rule watcher_step_keeps [of "sv_kv s"]) (use Cons.prems(1) in \<open>simp add: server_inv_def\<close>)
    have "server_inv (s\<lparr>sv_kv := k\<rparr>)" using k Cons.prems(1) by (simp add: server_inv_def)
    with Cons.IH [of "s\<lparr>sv_kv := k\<rparr>" h] Cons.prems k(1) WatcherStep show ?thesis by simp
  next
    case (HttpStep ok)
    let ?s = "http_step ok s"
    have s: "server_inv ?s" "sv_running ?s" "sv_stopCh ?s = Open"
      using Cons.prems by (auto simp: http_step_def server_inv_def split: http_state.split)
    consider (up) "h = Starting" "ok" | (on) "h = Serving" "ok" | (bad) "h = Starting \<or> h = Serving" "\<not> ok" | (over) "h = ListenFailed"
      using Cons.prems(5) by (cases h) auto
    then show ?thesis
    proof cases
      case up
      with Cons.IH [OF s, of Serving] Cons.prems(4) HttpStep show ?thesis by (auto simp: http_step_def http_event_def)
    next
      case on
      with Cons.IH [OF s, of Serving] Cons.prems(4) HttpStep show ?thesis by (auto simp: http_step_def http_event_def)
    next
      case bad
      with Cons.IH [OF s, of ListenFailed] Cons.prems(4) HttpStep show ?thesis
        by (auto simp: http_step_def http_event_def http_log_over)
    next
      case over
      with Cons.IH [OF s, of ListenFailed] Cons.prems(4) HttpStep show ?thesis
        by (auto simp: http_step_def http_event_def http_log_over)
    qed
  qed
qed simp

text \<open>A server that was just made.\<close>

lemma new_server_inv:
  assumes "NewServer pok dflt cok cfg = Inr s0"
  shows "server_inv s0" "\<not> sv_running s0" "sv_stopCh s0 = Open"
  using assms kv_inv_new kv_new_idle by (auto simp: NewServer_def server_inv_def split: if_splits option.splits)

lemma server_run:
  assumes "NewServer pok dflt cok cfg = Inr s0" "ranges_ok rng" "ranges_ok rng2"
  obtains s1 s2 s3 where "Start qs rng rng2 None s0 = Ok (s1, None)"
    "main_wait ws (StartHTTPServer addr s1) = Ok (http_log addr Starting ws, s2)" "Stop rng s2 = Ok s3"
    "\<not> sv_running s3" "\<not> cluster_up s3" "\<not> kv_running (sv_kv s3)" "httpServer s3 = Some (addr, Shut)"
    "\<forall>i \<in> set (active (sv_kv s3)). w_stopCh (wheap (sv_kv s3) i) = Closed"
proof -
  note i = new_server_inv [OF assms(1)]
  let ?s1 = "started qs rng rng2 s0"
  note s1 = start_inv [OF i(1) assms(3), of qs rng]
  have "server_inv (StartHTTPServer addr ?s1)" "sv_running (StartHTTPServer addr ?s1)" "sv_stopCh (StartHTTPServer addr ?s1) = Open"
    "httpServer (StartHTTPServer addr ?s1) = Some (addr, Starting)"
    using s1 i(3) by (simp_all add: server_inv_def StartHTTPServer_def)
  from wait_keeps [OF this, of ws] obtain s2 h where s2: "main_wait ws (StartHTTPServer addr ?s1) = Ok (http_log addr Starting ws, s2)"
    "server_inv s2" "sv_running s2" "sv_stopCh s2 = Open" "httpServer s2 = Some (addr, h)" by auto
  from stop_first [OF s2(2-4) assms(2)] s2(5) obtain s3 where s3: "Stop rng s2 = Ok s3" "server_inv s3" "\<not> sv_running s3" "\<not> cluster_up s3"
    "httpServer s3 = Some (addr, Shut)" "\<forall>i \<in> set (active (sv_kv s3)). w_stopCh (wheap (sv_kv s3) i) = Closed"
    by (elim exE conjE) simp
  show thesis
    by (rule that [OF Start_idle(1) [OF i(2)] s2(1) s3(1,3,4) _ s3(5,6)]) (use s3(2,3) in \<open>simp add: server_inv_def\<close>)
qed

lemma zipkin_defaults_simps:
  "zk_Endpoint (zipkin_defaults c) = (if zk_Endpoint c = '''' then ''http://localhost:9411/api/v2/spans'' else zk_Endpoint c)"
  "zk_ServiceName (zipkin_defaults c) = (if zk_ServiceName c = '''' then ''unknown-service'' else zk_ServiceName c)"
  "zk_ResourceAttributes (zipkin_defaults c) = zk_ResourceAttributes c"
  by (simp_all add: zipkin_defaults_def Let_def)

text \<open>What tracing is set up with, and what is deferred.\<close>

definition tracing_on :: "'b main_env \<Rightarrow> ClusterConfig \<Rightarrow> main_event list \<Rightarrow> main_event list \<Rightarrow> bool" where
  "tracing_on e cfg on off \<longleftrightarrow>
     (if Enabled (Tracing cfg) \<and> Type (Tracing cfg) = ''zipkin''
      then \<exists>tp. on = [ZipkinOn tp, TestSpan (ClusterName cfg @ ''-test'')] \<and> off = [ZipkinOff] \<and>
        tp_endpoint tp = Endpoint (Tracing cfg) \<and> tp_sampler tp = AlwaysSample \<and>
        (me_resource e [(''service.name'', ClusterName cfg)] = None \<longrightarrow> tp_resource tp = [(''service.name'', ClusterName cfg)])
      else if Enabled (Tracing cfg) \<and> Type (Tracing cfg) = ''jaeger'' then on = [JaegerOn] \<and> off = [JaegerOff]
      else on = [] \<and> off = [])"

lemma main_tracing_ok:
  assumes "me_exporter e (Endpoint (Tracing cfg))" "me_jaeger e" "Endpoint (Tracing cfg) \<noteq> ''''" "ClusterName cfg \<noteq> ''''"
  obtains on off where "main_tracing e cfg = Inr (on, off)" "tracing_on e cfg on off"
proof -
  obtain tp where tp: "InitZipkin (me_exporter e) (me_resource e) (\<lambda>m. m) (ClusterName cfg) (Endpoint (Tracing cfg))
      (SampleRatio (Tracing cfg)) = Some tp" "tp_endpoint tp = Endpoint (Tracing cfg)" "tp_sampler tp = AlwaysSample"
      "me_resource e [(''service.name'', ClusterName cfg)] = None \<longrightarrow> tp_resource tp = [(''service.name'', ClusterName cfg)]"
    using assms by (auto simp: InitZipkin_def InitZipkinWithConfig_def zipkin_defaults_simps Let_def split: option.split)
  consider (zipkin) "Enabled (Tracing cfg)" "Type (Tracing cfg) = ''zipkin''"
    | (jaeger) "Enabled (Tracing cfg)" "Type (Tracing cfg) = ''jaeger''"
    | (off) "\<not> Enabled (Tracing cfg) \<or> Type (Tracing cfg) \<noteq> ''zipkin'' \<and> Type (Tracing cfg) \<noteq> ''jaeger''"
    by blast
  then show ?thesis
  proof cases
    case zipkin
    then show ?thesis
      using tp by (intro that [of "[ZipkinOn tp, TestSpan (ClusterName cfg @ ''-test'')]" "[ZipkinOff]"])
        (simp_all add: main_tracing_def tracing_on_def)
  next
    case jaeger
    then show ?thesis
      using assms(2) by (intro that [of "[JaegerOn]" "[JaegerOff]"])
        (simp_all add: main_tracing_def tracing_on_def InitJaeger_def)
  next
    case off
    then show ?thesis by (intro that [of "[]" "[]"]) (auto simp: main_tracing_def tracing_on_def)
  qed
qed


text \<open>A run in which the port cannot be listened on.\<close>

definition sample_main :: "string main_env" where
  "sample_main = \<lparr>show_version = False, config_path = ''c.yaml'', me_load = sample_load 9090, me_exporter = \<lambda>_. True,
     me_resource = \<lambda>_. None, me_jaeger = True, me_provider = True, me_client = dflt_client, me_client_ok = \<lambda>_. True,
     me_queries = no_answer, me_range = \<lambda>m. m, me_range2 = \<lambda>m. m, me_member = None,
     me_waits = [WatcherStep (no_answer []) 0, HttpStep False]\<rparr>"




end
