(* ===== verification/Spec2Isabelle.thy ===== *)
theory Spec2Isabelle
  imports ChatProps UserProps WsProps KVProps Provider Server HttpApi Delivery ClusterProps Requests Among ApiProps Startup
begin

text \<open>
  \<^bold>\<open>A cluster of actors with chat rooms, users, a key-value cache and an HTTP/WebSocket front end.\<close>

  \<^bold>\<open>The program.\<close> A node runs a server (\<^verbatim>\<open>internal/server/server.go\<close>) that joins a cluster of actors
  (protoactor-go, with Consul as the cluster provider), keeps a cache of a part of Consul's key-value
  store (\<^verbatim>\<open>internal/kvstore\<close>) and serves an HTTP API (\<^verbatim>\<open>internal/api\<close>). The cluster activates grains:
  one chat grain per room, one user grain per user, a hello grain (\<^verbatim>\<open>internal/grains\<close>). All of them
  embed \<^verbatim>\<open>BaseGrain\<close>, whose \<^verbatim>\<open>Receive\<close> turns an \<^verbatim>\<open>RpcMsg\<close> envelope into a handler call and the handler's
  result into the reply. \<^verbatim>\<open>global.Rpc\<close> (\<^verbatim>\<open>internal/global/global.go\<close>) is the client's side: it packs a
  request, addresses a grain by identity and kind, and unpacks the reply. A browser talks JSON over a
  WebSocket; the manager (\<^verbatim>\<open>internal/api/websocket.go\<close>) keeps the online users and translates each
  document into calls of \<^verbatim>\<open>global.Rpc\<close>; a room broadcasts by publishing to the topic of its name, to
  which the actor of every joined connection (\<^verbatim>\<open>ws_grain.go\<close>) is subscribed, and that actor writes to
  the connection's bounded send buffer.

  \<^bold>\<open>The theories, in the order the code has them.\<close>

    \<^item> \<open>Prelude\<close>, \<open>GoMap\<close>, \<open>GoChan\<close>, \<open>Texts\<close>: the parts of Go that the program uses: fixed-width
      conversions (\<open>wrap\<close>, \<open>i32\<close>, \<open>i64\<close>, \<open>quot\<close>), results that may panic (\<open>outcome\<close>, \<open>obind\<close>),
      \<^verbatim>\<open>strconv\<close>/\<^verbatim>\<open>fmt\<close> decimal printing and scanning, maps (the locale \<open>keyed_store\<close> and its
      interpretation on association lists), buffered and stop channels, the UTF-8 literals.
    \<^item> \<open>Proto\<close>: \<^verbatim>\<open>gen/\<close>. Enumerations, messages (\<open>proto_msg\<close>), the tables of message ids, the envelope,
      and the codec as a parameter.
    \<^item> \<open>Registry\<close>: \<^verbatim>\<open>internal/grains/grain_registry.go\<close>. Both registries as maps; the invariant that a value
      carries its own key.
    \<^item> \<open>GlobalRpc\<close>: \<^verbatim>\<open>internal/global/global.go\<close>. \<open>node\<close> is the state shared by the grains of a node
      (the two registries and what was published); \<open>NewRpcMsg\<close>, \<open>RequestFuture\<close>, \<open>Rpc\<close>, \<open>Publish\<close>.
    \<^item> \<open>BaseGrain\<close>: \<^verbatim>\<open>internal/grains/base_grain.go\<close>. The embedded struct as an extensible record, handler
      registration, \<open>onStarted\<close>, \<open>reply\<close> and \<open>Receive\<close>, and \<open>mailbox\<close>, the runs of an actor. The locales
      \<open>grain_contract\<close> (handlers that keep an invariant and do not panic) and \<open>grain_refinement\<close> (handlers
      that implement a specification) lift facts about handlers to whole mailboxes.
    \<^item> \<open>ChatGrain\<close>, \<open>ChatRoom\<close>, \<open>ChatProps\<close>: \<^verbatim>\<open>internal/grains/chat_grain.go\<close>: the room and its eight handlers;
      the invariant, the specification \<open>room_spec\<close> and the interpretation of \<open>grain_refinement\<close>; C7-C10, C12, C13,
      C30.
    \<^item> \<open>UserGrain\<close>, \<open>UserProps\<close>: \<^verbatim>\<open>user_grain.go\<close> and \<^verbatim>\<open>hello_grain.go\<close>, in the same layout; C14.
    \<^item> \<open>WebSocket\<close>, \<open>WsProps\<close>: \<^verbatim>\<open>websocket.go\<close>, \<^verbatim>\<open>wsclient.go\<close>, \<^verbatim>\<open>ws_grain.go\<close>: connections as objects on a
      heap, every handler, both pumps; C21-C28. Logging in is also taken apart into its steps (\<open>login_step\<close>).
    \<^item> \<open>Config\<close>: \<^verbatim>\<open>internal/config\<close>: read, parse, override, default, validate; C31, C32.
    \<^item> \<open>KVStore\<close>, \<open>KVProps\<close> (over \<open>Machine\<close>): \<^verbatim>\<open>internal/kvstore\<close>: the cache, its operations, the watchers and
      their life cycle; a goroutine's query and the answer to it are two steps of it, between which anything
      may happen (\<open>watcher_start\<close>); C15, C17-C19.
    \<^item> \<open>Provider\<close>: \<^verbatim>\<open>internal/server/consul_provider.go\<close>: registration, the polled member table, topology
      events; C33.
    \<^item> \<open>Server\<close>: \<^verbatim>\<open>internal/server/server.go\<close>: starting and stopping, and the goroutine of the HTTP
      server; C34.
    \<^item> \<open>HttpApi\<close>: the HTTP handlers and the functions \<^verbatim>\<open>main.go\<close> passes to them; C35. \<open>Router\<close>: the table of routes
      of \<^verbatim>\<open>router.go\<close> and what a GET request is answered with; C38.
    \<^item> \<open>Startup\<close>: \<^verbatim>\<open>main.go\<close> and \<^verbatim>\<open>internal/telemetry\<close>: the process from its start to its end, with every
      failure, and what its goroutines do while it waits; C39, C40.
    \<^item> \<open>System\<close>, \<open>SystemInv\<close>, \<open>SystemProps\<close>: a node as a whole. \<open>sys_state\<close> puts the grains that are active on
      the node beside its connections; \<open>grain_request\<close> is one turn of a grain, activated when it is not
      active; \<open>step\<close> is the relation of atomic steps, with what the node sees of the others as an argument
      (\<open>view\<close>: which grains live elsewhere and what was published there). \<open>sys_inv\<close> is kept by every step.
      The locale \<open>handler_run\<close> is the interface between the handlers of a connection and what runs beside them:
      from what holds before and after the one request a handler makes to what holds when it returns. Its
      interpretation on a node gives the handlers as sequences of steps; C1, C5.
    \<^item> \<open>RoomTurns\<close>, \<open>Delivery\<close>: turns of a room and of a connection's actor on a node, and what lasts there: the
      stream of messages to a connection, subscriptions, membership; C11, C16, C29.
    \<^item> \<open>Cluster\<close>, \<open>ClusterProps\<close>: the nodes together. A \<open>cstep\<close> is a step of one node that sees the publications
      of all; every grain has one home. The composition theorem (\<open>creachable_node\<close>) makes what holds on a
      node hold on each node of a cluster; joining and sending across nodes while nobody else does anything; C2,
      C36.
    \<^item> \<open>Requests\<close>: one request among others. A \<open>request_run\<close> says what becomes of a request: the states the
      cluster goes through before the grain's turn, the turn, the states after it, and whether the reply
      arrives. A property holds for whatever run it is (\<open>went_so\<close>), and says what the cluster in which the
      run ends is like.
    \<^item> \<open>Among\<close>: handlers among others. \<open>call_among\<close> is a request during which the rest of the cluster goes on;
      \<open>handler_run\<close> is interpreted on a cluster with it (C6); joining and sending over every \<open>request_run\<close>; C3, C4.
    \<^item> \<open>ApiProps\<close>: the router of a node, and what GET requests change, over every \<open>request_run\<close>; C37.
    \<^item> this theory: a request from the caller of \<^verbatim>\<open>Rpc\<close> to the handler and back; C20.
    \<^item> \<open>Samples\<close>: concrete inputs for the witnesses.

  \<^bold>\<open>State and operations.\<close> A Go struct is a record with the struct's fields, embedding is record
  extension, and a method is a function that takes and returns the record (prefixed where two components
  use one name: \<open>kv_Set\<close>, \<open>provider_Start\<close>, \<open>server_GetNodeName\<close>). Connections and watchers are shared
  by several holders and live on a heap of addresses. An early return is a branch; an error is a value of a
  datatype with one constructor per error the code makes; a run-time panic is \<open>Panic\<close>. Logging and
  tracing spans have no effect on the modelled state and are left out. Locks make an operation atomic;
  where the code releases a lock between two steps (logging in), the steps are separate functions, which the handler
  is made of (\<open>handleLogin_steps\<close>), and a property runs two handlers in any order of their steps (C24). On a whole node every interleaving of connections, grains and actors
  is a sequence of \<open>step\<close>s, and in a cluster every interleaving of nodes is a sequence of \<open>cstep\<close>s, because a
  handler of a connection is one, with anything else going on while it waits (C6). In C3, C4, C6 and C37 others act
  before the request of a handler reaches the grain and between the grain's turn and the arrival of the answer;
  what a handler does itself without waiting is taken together. What a connection calls its own (its user,
  its actor, its room, its subscriptions) only its own handlers change (\<open>others_keep_own\<close>), and these its read
  loop runs one after the other. In C11 and C16 a request is
  served while nobody else steps. C22 and C23 speak of the state in which the answer to a login comes, whatever
  happened before it.

  \<^bold>\<open>Parameters.\<close> The protobuf codec; the actor framework and the network between the nodes; the answers of
  Consul; the JSON and YAML parsers and printers; the environment; \<^verbatim>\<open>time.Now\<close>; \<^verbatim>\<open>utils.Ulid\<close>; the iteration
  order of Go maps; what \<^verbatim>\<open>int64(f)\<close> gives out of range; gin's matching of a path; the Zipkin exporter,
  the resource detection and the Jaeger library. What is assumed of them, only in the properties that
  name it: a marshalled message decodes to itself or not at all (\<open>codec_rt\<close>, \<open>codec_sound\<close>); a request is
  lost, or handled once by the addressed grain with its reply arriving or lost (\<open>serves\<close>, \<open>serves_raw\<close>,
  in \<open>env_ok\<close>; \<open>went_so\<close>, and \<open>call_among\<close> in \<open>env_among\<close>, for several nodes that go on meanwhile, and
  \<open>cluster_serves\<close> for several nodes that do not), or nothing is lost (\<open>delivers\<close> in C20); the identity lookup gives every grain one home and the members of the cluster stay
  the same (\<open>placement\<close>); what is published may be delivered to any subscriber on any node at any later
  time, in any order and more than once (\<open>actor_gets\<close>); a pid is new
  (\<open>pid_new\<close>); a map is iterated over exactly its entries (\<open>range_ok\<close>). What gin matches a path with may be
  anything. The properties of one handler (C21-C27) take what the framework answers as it comes; where more is
  needed of it they say so: C22 that the connection's identity is still its own when the answer comes, C27 that
  an answer is an envelope and the send buffer still open (\<open>well_behaved\<close>). How \<^verbatim>\<open>StartMember\<close> ends is an argument of \<open>Start\<close>, and
  whether the HTTP server gets its port one of \<open>http_step\<close>; shutting down the member and the HTTP server
  returns.

  \<^bold>\<open>What the lemmas show.\<close> Each component has an invariant that its operations keep, lemmas for each branch of
  each operation, and the properties built on them. The node and the cluster: the invariant in every
  reachable state, messages that stay in their rooms, joining and sending from a client on one node
  to a room on another and on to everybody's connection while everybody else is at work (whatever the run of the
  request: C3, C4), an answer for every request, and handlers that are runs of steps among others (C1-C6); refinement and safety of whole mailboxes (C7, C8, C14); capacity, membership, messages
  and lists of a room (C9, C10, C12, C13, C30); who stays a member and who keeps being sent texts (C11, C16);
  cache against store and its life cycle (C15, C17-C19); a call and its answer (C20); the login protocol,
  also under races (C21-C25); payloads that crash a handler and payloads that do not (C26, C27); the send
  buffer and the stream on the wire (C28, C29); configuration (C31, C32); topology (C33); life cycles of the
  server and the process (C34, C39, C40); addresses, directory and answers of the API (C35-C38).

  \<^bold>\<open>Bounds and recursion.\<close> The source's bounds appear as they are: 50 members by default, 100 messages of history
  after sending, 20 recent messages on joining, at most 50 per query, pages of at most 100, a send buffer
  of 256, an event channel of 10. Counts are converted to 32 bits where the code does so. Recursion is
  structural, over the list of messages, operations, frames or answers that arrive, or ends by a measure
  (the digits of a number), so no fuel is used; loops that the code runs forever (pumps, watchers, the
  topology poll) are their single rounds and finite runs of rounds.

  \<^bold>\<open>Not modelled.\<close> The generated marshalling code of \<^verbatim>\<open>gen/\<close> (the codec is a parameter), the insides of the
  libraries (protoactor-go, gin, the exporters, the upgrade handshake and deadlines of the WebSocket
  library), a change of the cluster's members and the moving of grains it causes, spans and logging, the static files of \<^verbatim>\<open>web/\<close>, \<^verbatim>\<open>StartHTTPServer\<close> of the router, which
  nothing calls, and the tests.
\<close>

section \<open>Requests across the cluster\<close>

text \<open>A cluster that delivers: a request to the grain runs one \<^verbatim>\<open>Receive\<close> and brings its reply back.\<close>

definition delivers ::
    "((('h, 'z) base_grain_scheme \<times> node) cluster) \<Rightarrow> codec \<Rightarrow>
       ('h \<Rightarrow> ('h, 'z) base_grain_scheme \<Rightarrow> node \<Rightarrow> RpcMsg \<Rightarrow> (('h, 'z) base_grain_scheme, unit) handled) \<Rightarrow>
       actor_ctx \<Rightarrow> bool" where
  "delivers cl cd invoke ctx \<longleftrightarrow> (\<forall>g w i k m g' w' r.
     Receive cd invoke ctx (Envelope m) g w = Ok (g', w', Some r) \<longrightarrow> cl (g, w) i k m = ((g', w'), Replied r))"

definition serve ::
    "codec \<Rightarrow> ('h \<Rightarrow> ('h, 'z) base_grain_scheme \<Rightarrow> node \<Rightarrow> RpcMsg \<Rightarrow> (('h, 'z) base_grain_scheme, unit) handled) \<Rightarrow>
       actor_ctx \<Rightarrow> (('h, 'z) base_grain_scheme \<times> node) cluster" where
  "serve cd invoke ctx s i k m =
     (case Receive cd invoke ctx (Envelope m) (fst s) (snd s) of
        Ok (g, w, Some r) \<Rightarrow> ((g, w), Replied r)
      | _ \<Rightarrow> (s, FutureErr))"

lemma serve_delivers: "delivers (serve cd invoke ctx) cd invoke ctx"
  by (simp add: delivers_def serve_def)

lemma request_of_simps [simp]:
  "MsgId (request_of t i k n q b) = msg_id q" "Data (request_of t i k n q b) = Some b"
  "Code (request_of t i k n q b) = 0"
  by (simp_all add: request_of_def)

text \<open>C20: A call through the cluster. When the cluster delivers and the codec is lossless on the messages
  involved, the caller of \<^verbatim>\<open>Rpc\<close> sees exactly what the handler decided: with code OK the handler's
  response, and with any other code an error that carries the code and nothing of the response (so no
  caller ever sees a response whose envelope code is not OK). A handler that answers OK without a
  response makes the caller receive its own request.\<close>

theorem rpc_round_trip:
  assumes "delivers cl cd invoke ctx"
    and "has_id req" "codec_rt cd req" "marshal cd req = Some b"
    and "identity \<noteq> ''''" "kind \<noteq> ''''" "name \<noteq> ''''"
    and "find_handler g (msg_id req) = Some h"
    and "invoke h g w (request_of t identity kind name req b) = Ok (g', w', resp, code)"
    and "\<forall>r. resp = Some r \<longrightarrow> has_id r \<and> codec_rt cd r"
  shows "Rpc cl cd t identity kind name req (g, w) =
    Ok ((g', w'), if code \<noteq> ErrorCode_OK then Inl (SystemError code)
      else Inr (case resp of None \<Rightarrow> req | Some r \<Rightarrow> r))"
proof -
  let ?m = "request_of t identity kind name req b"
  let ?r = "reply cd ?m resp code"
  have "Receive cd invoke ctx (Envelope ?m) g w = Ok (g', w', Some ?r)"
    using assms(8,9) by (simp add: Receive_def)
  then have "cl (g, w) identity kind ?m = ((g', w'), Replied ?r)"
    using assms(1) by (simp add: delivers_def)
  then have rpc: "Rpc cl cd t identity kind name req (g, w) = Ok ((g', w'), open_response cd (msg_id req) ?r)"
    by (simp add: Rpc_sent [OF assms(2,4-7)])
  have "open_response cd (msg_id req) ?r =
      (if code \<noteq> ErrorCode_OK then Inl (SystemError code) else Inr (case resp of None \<Rightarrow> req | Some r \<Rightarrow> r))"
  proof (cases resp)
    case None
    have "MsgId ?r = msg_id req" "Data ?r = Some b" using None by (simp_all add: reply_None)
    with assms(2-4) None show ?thesis
      using open_response_ok [of cd req b ?r "msg_id req"] has_id_name [OF assms(2)]
      by (auto simp: open_response_def)
  next
    case (Some x)
    with assms(10) have x: "has_id x" "codec_rt cd x" by auto
    then obtain bx where bx: "marshal cd x = Some bx" by (auto simp: codec_rt_def)
    have "MsgId ?r = msg_id x" "Data ?r = Some bx"
      using reply_ok [OF x(1) bx] by (simp_all add: Some)
    with x bx Some show ?thesis
      using open_response_ok [of cd x bx ?r "msg_id req"] has_id_name [OF x(1)]
      by (auto simp: open_response_def)
  qed
  with rpc show ?thesis by simp
qed

definition full_room :: chat_grain where
  "full_room = lobby_ann\<lparr>maxMembers := 1\<rparr>"

definition full_table :: "proto_msg list" where
  "full_table = [proto_msg.ChatJoinRoomReq ''lobby'' 9 ''eve'', ChatJoinRoomResp ErrorCode_RoomFull t_room_full None []]"

theorem rpc_round_trip_witness:
  "Rpc (serve (table_codec full_table) (chat_invoke (sample_env full_table)) lobby_ctx) (table_codec full_table)
     '''' ''lobby'' ''chat'' ''JoinRoom'' (proto_msg.ChatJoinRoomReq ''lobby'' 9 ''eve'') (full_room, new_node) =
   Ok ((full_room, new_node), Inl (SystemError ErrorCode_RoomFull))"
proof -
  let ?q = "proto_msg.ChatJoinRoomReq ''lobby'' 9 ''eve''"
  have at: "index_of full_table ?q = Some 0" "length full_table \<le> 256"
    "index_of full_table (ChatJoinRoomResp ErrorCode_RoomFull t_room_full None []) = Some 1"
    by (simp_all add: full_table_def)
  have id: "has_id ?q" "has_id (ChatJoinRoomResp ErrorCode_RoomFull t_room_full None [])"
    by (simp_all add: has_id_def MsgId_value_def MsgId_value_entries_def)
  note q = id(1) table_codec_rt [OF at(1,2)]
  have b: "marshal (table_codec full_table) ?q = Some [0]"
    by (simp add: table_codec_def at)
  have f: "find_handler full_room (msg_id ?q) = Some HJoinRoom"
    using chat_invD(8) [OF chat_inv_lobby_ann, of "msg_id ?q"]
    by (simp add: full_room_def chat_table_def mget_def msg_id_def MsgId_value_def MsgId_value_entries_def)
  have d: "decode (table_codec full_table) ''ChatJoinRoomReq'' (request_of '''' ''lobby'' ''chat'' ''JoinRoom'' ?q [0]) = Some ?q"
    by (simp add: decode_def table_codec_def full_table_def)
  have i: "chat_invoke (sample_env full_table) HJoinRoom full_room new_node
      (request_of '''' ''lobby'' ''chat'' ''JoinRoom'' ?q [0]) =
      Ok (full_room, new_node, Some (ChatJoinRoomResp ErrorCode_RoomFull t_room_full None []), ErrorCode_RoomFull)"
    by (simp add: ChatJoinRoomReq_def d) (simp add: full_room_def member_count_def mlen_def i32_id)
  have r: "\<forall>r. Some (ChatJoinRoomResp ErrorCode_RoomFull t_room_full None []) = Some r \<longrightarrow>
      has_id r \<and> codec_rt (table_codec full_table) r"
    using id(2) table_codec_rt [OF at(3,2)] by simp
  show ?thesis
    using rpc_round_trip [where invoke = "chat_invoke (sample_env full_table)" and t = "''''" and
      identity = "''lobby''" and kind = "''chat''" and name = "''JoinRoom''",
      OF serve_delivers [where ctx = lobby_ctx] q b _ _ _ f i r]
    by simp
qed

end
